(* ===== verification/Aks_Prelude.thy ===== *)
theory Aks_Prelude
  imports Main "HOL-Library.Word"
begin

text \<open>
  The shared prelude of the AKS development: the machine integers of the firmware as words,
  the fact collections the component theories fill, big-endian assembly of two bytes, the C
  library's decimal and hexadecimal formatting with \<open>snprintf\<close> truncation, and the generic
  list and word lemmas that several components use.
\<close>

unbundle bit_operations_syntax

section \<open>Machine integers\<close>

text \<open>
  The unsigned and the signed C++ types of one width share a word type; a signed field is read
  through \<open>sint\<close>. Arithmetic on words wraps as the unsigned arithmetic of the firmware does.
\<close>

type_synonym u8 = "8 word"
type_synonym u16 = "16 word"
type_synonym u32 = "32 word"
type_synonym u64 = "64 word"
type_synonym i8 = "8 word"
type_synonym i16 = "16 word"
type_synonym i32 = "32 word"
type_synonym TickType_t = "32 word"

section \<open>Fact collections\<close>

named_theorems aks_config "the numeric constants of SystemConfig.h and of the module headers"
named_theorems aks_step "unfolding rules of the state-changing operations of a component"

section \<open>Big-endian assembly\<close>

text \<open>\<open>static_cast<uint16_t>((hi << 8) | lo)\<close>, as every CAN field of the parsers is read.\<close>

definition be16 :: "u8 \<Rightarrow> u8 \<Rightarrow> u16" where
  "be16 hi lo = push_bit 8 (ucast hi) OR ucast lo"

lemma be16_add: "be16 hi lo = 256 * ucast hi + ucast lo"
proof -
  have "push_bit 8 (ucast hi :: u16) AND ucast lo = 0"
    by (rule bit_word_eqI) (auto simp: bit_simps dest: bit_imp_le_length)
  then have "push_bit 8 (ucast hi :: u16) OR ucast lo = push_bit 8 (ucast hi) + ucast lo"
    by (simp add: disjunctive_add_eq_or)
  then show ?thesis
    by (simp add: be16_def push_bit_eq_mult mult.commute)
qed

lemma unat_8_less: "unat (b :: u8) < 256"
  using unsigned_less [of b, where ?'a = nat] by simp

lemma unat_16_less: "unat (b :: u16) < 65536"
  using unsigned_less [of b, where ?'a = nat] by simp

lemma unat_32_less: "unat (b :: u32) < 4294967296"
  using unsigned_less [of b, where ?'a = nat] by simp

lemmas unat_bounds = unat_8_less unat_16_less unat_32_less

lemma unat_ucast_8_16 [simp]: "unat (ucast (b :: u8) :: u16) = unat b"
  using unat_8_less [of b] by (simp add: unsigned_ucast_eq take_bit_eq_mod)

lemma unat_be16: "unat (be16 hi lo) = 256 * unat hi + unat lo"
proof -
  have *: "unat (256 * ucast hi :: u16) = 256 * unat hi"
    using unat_8_less [of hi] by (simp add: unat_word_ariths)
  then show ?thesis
    using unat_8_less [of hi] unat_8_less [of lo] by (simp add: be16_add unat_word_ariths)
qed

lemma unat_be16_div: "unat (be16 a b) div 256 = unat a" "unat (be16 a b) mod 256 = unat b"
  using unat_8_less [of b] by (simp_all add: unat_be16)

lemma be16_inject: "be16 a b = be16 c d \<longleftrightarrow> a = c \<and> b = d"
  by (metis unat_be16_div word_unat_eq_iff)

text \<open>The bytes a big-endian sender puts on the wire, and their reassembly.\<close>

definition hi8 :: "u16 \<Rightarrow> u8" where
  "hi8 w = ucast (drop_bit 8 w)"

definition lo8 :: "u16 \<Rightarrow> u8" where
  "lo8 w = ucast w"

lemma be16_hi8_lo8 [simp]: "be16 (hi8 w) (lo8 w) = w"
  by (rule bit_word_eqI)
    (auto simp: be16_def hi8_def lo8_def bit_simps dest: bit_imp_le_length)

lemma hi8_be16 [simp]: "hi8 (be16 a b) = a"
  and lo8_be16 [simp]: "lo8 (be16 a b) = b"
  using be16_hi8_lo8 [of "be16 a b"] by (simp_all only: be16_inject)

section \<open>Signed reading of words\<close>

lemma sint_8_bounds: "- 128 \<le> sint (b :: i8)" "sint (b :: i8) \<le> 127"
  using sint_greater_eq [of b] sint_lt [of b] by simp_all

lemma sint_16_bounds: "- 32768 \<le> sint (b :: i16)" "sint (b :: i16) \<le> 32767"
  using sint_greater_eq [of b] sint_lt [of b] by simp_all

lemma sint_32_bounds: "- 2147483648 \<le> sint (b :: i32)" "sint (b :: i32) \<le> 2147483647"
  using sint_greater_eq [of b] sint_lt [of b] by simp_all

lemmas sint_bounds = sint_8_bounds sint_16_bounds sint_32_bounds

section \<open>Decimal and hexadecimal formatting\<close>

text \<open>
  The conversions of the C library the firmware uses: \<open>%u\<close>/\<open>%lu\<close> (\<open>fmt_u\<close>),
  \<open>%d\<close>/\<open>%ld\<close> (\<open>fmt_d\<close>) and \<open>%02X\<close> of a byte (\<open>fmt_02X\<close>). \<open>snprintf\<close> stores at most
  \<open>size - 1\<close> characters and returns the length the whole text would have.
\<close>

definition digit_char :: "nat \<Rightarrow> char" where
  "digit_char d = char_of (48 + d)"

fun dec_digits :: "nat \<Rightarrow> string" where
  "dec_digits n = (if n < 10 then [digit_char n]
     else dec_digits (n div 10) @ [digit_char (n mod 10)])"

declare dec_digits.simps [simp del]

definition fmt_u :: "nat \<Rightarrow> string" where
  "fmt_u n = dec_digits n"

definition fmt_d :: "int \<Rightarrow> string" where
  "fmt_d i = (if i < 0 then ''-'' @ dec_digits (nat (- i)) else dec_digits (nat i))"

definition hex_char :: "nat \<Rightarrow> char" where
  "hex_char d = (if d < 10 then char_of (48 + d) else char_of (55 + d))"

definition fmt_02X :: "u8 \<Rightarrow> string" where
  "fmt_02X b = [hex_char (unat b div 16), hex_char (unat b mod 16)]"

definition snprintf :: "nat \<Rightarrow> string \<Rightarrow> string \<times> nat" where
  "snprintf sz s = (take (sz - 1) s, length s)"

lemma snprintf_fits: "length s < sz \<Longrightarrow> snprintf sz s = (s, length s)"
  by (simp add: snprintf_def)

definition is_digit :: "char \<Rightarrow> bool" where
  "is_digit c \<longleftrightarrow> 48 \<le> (of_char c :: nat) \<and> (of_char c :: nat) \<le> 57"

definition dec_value :: "string \<Rightarrow> nat" where
  "dec_value s = foldl (\<lambda>a c. 10 * a + (of_char c - 48)) 0 s"

lemma of_digit_char: "d < 10 \<Longrightarrow> (of_char (digit_char d) :: nat) = 48 + d"
  by (simp add: digit_char_def)

lemma is_digit_digit_char [simp]: "d < 10 \<Longrightarrow> is_digit (digit_char d)"
  by (simp add: is_digit_def of_digit_char)

lemma dec_value_snoc: "dec_value (s @ [c]) = 10 * dec_value s + (of_char c - 48)"
  by (simp add: dec_value_def)

lemma dec_digits_nonempty [simp]: "dec_digits n \<noteq> []"
  by (subst dec_digits.simps) simp

lemma dec_digits_are_digits: "c \<in> set (dec_digits n) \<Longrightarrow> is_digit c"
proof (induction n rule: dec_digits.induct)
  case (1 n)
  show ?case
    using "1.IH" "1.prems" by (cases "n < 10") (auto simp: dec_digits.simps [of n])
qed

lemma dec_value_dec_digits [simp]: "dec_value (dec_digits n) = n"
proof (induction n rule: dec_digits.induct)
  case (1 n)
  show ?case
  proof (cases "n < 10")
    case True
    then show ?thesis
      by (simp add: dec_digits.simps [of n] dec_value_def of_digit_char)
  next
    case False
    then have "dec_value (dec_digits n) = 10 * (n div 10) + n mod 10"
      using 1 by (simp add: dec_digits.simps [of n] dec_value_snoc of_digit_char)
    then show ?thesis by presburger
  qed
qed

lemma length_dec_digits: "n < 10 ^ Suc k \<Longrightarrow> length (dec_digits n) \<le> Suc k"
proof (induction k arbitrary: n)
  case 0
  then show ?case by (simp add: dec_digits.simps [of n])
next
  case (Suc k)
  show ?case
  proof (cases "n < 10")
    case True
    then show ?thesis by (simp add: dec_digits.simps [of n])
  next
    case False
    have "n div 10 < 10 ^ Suc k"
      using Suc.prems by (simp add: less_mult_imp_div_less mult.commute)
    with False Suc.IH [of "n div 10"] show ?thesis
      by (simp add: dec_digits.simps [of n])
  qed
qed

lemma length_fmt_u: "n < 10 ^ Suc k \<Longrightarrow> length (fmt_u n) \<le> Suc k"
  by (simp add: fmt_u_def length_dec_digits)

lemma length_fmt_d: "\<bar>i\<bar> < 10 ^ Suc k \<Longrightarrow> length (fmt_d i) \<le> Suc (Suc k)"
proof -
  assume "\<bar>i\<bar> < 10 ^ Suc k"
  then have "nat \<bar>i\<bar> < 10 ^ Suc k"
    by (simp add: nat_less_iff)
  then have "length (dec_digits (nat \<bar>i\<bar>)) \<le> Suc k"
    by (rule length_dec_digits)
  then show ?thesis
    by (cases "i < 0") (simp_all add: fmt_d_def)
qed

lemma fmt_nonempty [simp]: "fmt_u n \<noteq> []" "fmt_d i \<noteq> []"
  by (simp_all add: fmt_u_def fmt_d_def)

lemma digit_not_special:
  "is_digit c \<Longrightarrow> c \<noteq> CHR '',''"
  "is_digit c \<Longrightarrow> c \<noteq> CHR ''-''"
  "is_digit c \<Longrightarrow> c \<noteq> CHR ''+''"
  "is_digit c \<Longrightarrow> c \<noteq> CHR 0x0D"
  "is_digit c \<Longrightarrow> c \<noteq> CHR 0x0A"
  by (auto simp: is_digit_def)

lemma set_fmt_u: "c \<in> set (fmt_u n) \<Longrightarrow> is_digit c"
  by (simp add: fmt_u_def dec_digits_are_digits)

lemma set_fmt_d: "c \<in> set (fmt_d i) \<Longrightarrow> is_digit c \<or> c = CHR ''-''"
  by (auto simp: fmt_d_def dest: dec_digits_are_digits split: if_splits)

section \<open>Joining and splitting fields\<close>

fun join :: "char \<Rightarrow> string list \<Rightarrow> string" where
  "join sep [] = []"
| "join sep [w] = w"
| "join sep (w # v # ws) = w @ sep # join sep (v # ws)"

text \<open>Python's \<open>str.split(sep)\<close> for a one-character separator.\<close>

fun split_on :: "char \<Rightarrow> string \<Rightarrow> string list" where
  "split_on sep [] = [[]]"
| "split_on sep (c # cs) =
     (if c = sep then [] # split_on sep cs
      else (case split_on sep cs of [] \<Rightarrow> [[c]] | w # ws \<Rightarrow> (c # w) # ws))"

lemma split_on_word: "sep \<notin> set w \<Longrightarrow> split_on sep w = [w]"
  by (induction w) auto

lemma split_on_word_sep: "sep \<notin> set w \<Longrightarrow> split_on sep (w @ sep # s) = w # split_on sep s"
  by (induction w) auto

lemma split_on_join:
  "ws \<noteq> [] \<Longrightarrow> list_all (\<lambda>w. sep \<notin> set w) ws \<Longrightarrow> split_on sep (join sep ws) = ws"
  by (induction sep ws rule: join.induct) (auto simp: split_on_word split_on_word_sep)

text \<open>Python's \<open>str.rstrip(chars)\<close>.\<close>

definition rstrip :: "char list \<Rightarrow> string \<Rightarrow> string" where
  "rstrip cs s = rev (dropWhile (\<lambda>c. c \<in> set cs) (rev s))"

lemma rstrip_append:
  "set t \<subseteq> set cs \<Longrightarrow> s \<noteq> [] \<Longrightarrow> last s \<notin> set cs \<Longrightarrow> rstrip cs (s @ t) = s"
proof -
  assume t: "set t \<subseteq> set cs" and s: "s \<noteq> []" "last s \<notin> set cs"
  have "dropWhile (\<lambda>c. c \<in> set cs) (rev t @ rev s) = dropWhile (\<lambda>c. c \<in> set cs) (rev s)"
    using t by (intro dropWhile_append2) auto
  also have "\<dots> = rev s"
    using s by (cases s rule: rev_cases) auto
  finally show ?thesis by (simp add: rstrip_def)
qed

section \<open>Lists\<close>

lemma take_last_append:
  "drop (length (xs @ [x]) - n) (xs @ [x]) = drop (length xs - (n - 1)) xs @ [x]" if "0 < n"
  using that by (cases "length xs < n") (auto simp: not_less drop_append)

end
