(* ===== verification/Telemetry.thy ===== *)
theory Telemetry
  imports Aks_Prelude
begin

text \<open>
  The telemetry snapshot that all tasks share (\<open>struct TelemetryData\<close> of
  \<open>lib/Telemetry/Telemetry.h\<close>), the uplink sanitiser (\<open>TelemetrySanitize.h\<close>) and the
  transmitter \<open>Telemetry::sendStatus\<close> (\<open>Telemetry.cpp\<close>), which formats a snapshot as one
  ASCII line and hands it to the LoRa UART. What \<open>uart_write_bytes\<close> returns is an input of the
  step, since the UART driver is not part of the repository.
\<close>

section \<open>The snapshot\<close>

record TelemetryData =
  TEL_motorRpm :: u16
  TEL_motorTorqueFeedback :: i16
  TEL_motorErrorFlags :: u8
  TEL_motorDataValid :: bool
  TEL_motorTimeoutActive :: bool
  TEL_bmsCellVoltageMaxDeciMv :: u16
  TEL_bmsCellVoltageMinDeciMv :: u16
  TEL_bmsTempHighestC :: i8
  TEL_bmsTempLowestC :: i8
  TEL_bmsSystemState :: u8
  TEL_bmsPackVoltageDeciV :: u16
  TEL_bmsCurrentCentiMa :: i32
  TEL_bmsSocHundredths :: u16
  TEL_bmsDataValid :: bool
  TEL_bmsTimeoutActive :: bool
  TEL_timestampMs :: u32
  TEL_speedKmhX10 :: u16

text \<open>\<open>TelemetryData d = {}\<close>: every field zero or false.\<close>

definition TelemetryData_zero :: TelemetryData where
  "TelemetryData_zero = \<lparr>
     TEL_motorRpm = 0, TEL_motorTorqueFeedback = 0, TEL_motorErrorFlags = 0,
     TEL_motorDataValid = False, TEL_motorTimeoutActive = False,
     TEL_bmsCellVoltageMaxDeciMv = 0, TEL_bmsCellVoltageMinDeciMv = 0,
     TEL_bmsTempHighestC = 0, TEL_bmsTempLowestC = 0, TEL_bmsSystemState = 0,
     TEL_bmsPackVoltageDeciV = 0, TEL_bmsCurrentCentiMa = 0, TEL_bmsSocHundredths = 0,
     TEL_bmsDataValid = False, TEL_bmsTimeoutActive = False,
     TEL_timestampMs = 0, TEL_speedKmhX10 = 0\<rparr>"

text \<open>The nominal snapshot the native tests start from (\<open>test_helpers.h\<close>).\<close>

definition makeTelemetryDataValid :: TelemetryData where
  "makeTelemetryDataValid = TelemetryData_zero\<lparr>
     TEL_motorDataValid := True,
     TEL_bmsCellVoltageMaxDeciMv := 40000, TEL_bmsCellVoltageMinDeciMv := 39500,
     TEL_bmsTempHighestC := 25, TEL_bmsTempLowestC := 23,
     TEL_bmsSystemState := 2, TEL_bmsPackVoltageDeciV := 800,
     TEL_bmsCurrentCentiMa := 0, TEL_bmsSocHundredths := 8000,
     TEL_bmsDataValid := True\<rparr>"

section \<open>Sanitising for the uplink\<close>

definition sanitizeSystemState :: "u8 \<Rightarrow> u8" where
  "sanitizeSystemState raw = (if 1 \<le> raw \<and> raw \<le> 4 then raw else 4)"

definition sanitizeSoc :: "u16 \<Rightarrow> u16" where
  "sanitizeSoc raw = (if 10000 < raw then 10000 else raw)"

definition INT32_MIN :: i32 where
  "INT32_MIN = 0x80000000"

definition sanitizeCurrent :: "i32 \<Rightarrow> i32" where
  "sanitizeCurrent raw = (if raw = INT32_MIN then INT32_MIN + 1 else raw)"

definition sanitizeForUplink :: "TelemetryData \<Rightarrow> TelemetryData" where
  "sanitizeForUplink raw = raw\<lparr>
     TEL_bmsSystemState := sanitizeSystemState (TEL_bmsSystemState raw),
     TEL_bmsSocHundredths := sanitizeSoc (TEL_bmsSocHundredths raw),
     TEL_bmsCurrentCentiMa := sanitizeCurrent (TEL_bmsCurrentCentiMa raw)\<rparr>"

lemmas sanitize_defs =
  sanitizeSystemState_def sanitizeSoc_def sanitizeCurrent_def sanitizeForUplink_def

lemma sanitizeSystemState_range:
  "1 \<le> unat (sanitizeSystemState raw) \<and> unat (sanitizeSystemState raw) \<le> 4"
  by (simp add: sanitizeSystemState_def word_le_nat_alt)

lemma sanitizeSoc_range: "unat (sanitizeSoc raw) \<le> 10000"
  by (simp add: sanitizeSoc_def word_less_nat_alt)

lemma sint_INT32_MIN: "sint INT32_MIN = - 2147483648"
  by (simp add: INT32_MIN_def)

lemma sanitizeCurrent_range:
  "- 2147483647 \<le> sint (sanitizeCurrent raw) \<and> sint (sanitizeCurrent raw) \<le> 2147483647"
proof (cases "raw = INT32_MIN")
  case True
  then show ?thesis by (simp add: sanitizeCurrent_def INT32_MIN_def)
next
  case False
  then have "sint raw \<noteq> sint INT32_MIN"
    using word_eq_iff_signed by blast
  with False sint_32_bounds [of raw] show ?thesis
    by (simp add: sanitizeCurrent_def sint_INT32_MIN)
qed

lemma sanitizeSystemState_idem [simp]:
  "sanitizeSystemState (sanitizeSystemState raw) = sanitizeSystemState raw"
  by (simp add: sanitizeSystemState_def)

lemma sanitizeSoc_idem [simp]: "sanitizeSoc (sanitizeSoc raw) = sanitizeSoc raw"
  by (simp add: sanitizeSoc_def)

lemma sanitizeCurrent_idem [simp]: "sanitizeCurrent (sanitizeCurrent raw) = sanitizeCurrent raw"
  by (simp add: sanitizeCurrent_def INT32_MIN_def)

lemma sanitizeForUplink_idem [simp]:
  "sanitizeForUplink (sanitizeForUplink d) = sanitizeForUplink d"
  by (simp add: sanitizeForUplink_def)

section \<open>The transmitter\<close>

definition LORA_PROTOCOL_VERSION :: int where
  [aks_config]: "LORA_PROTOCOL_VERSION = 2"

definition TEL_SPD_X10_MAX :: u16 where
  [aks_config]: "TEL_SPD_X10_MAX = 3000"

definition TEL_PAYLOAD_SIZE :: nat where
  [aks_config]: "TEL_PAYLOAD_SIZE = 192"

definition bool_u :: "bool \<Rightarrow> nat" where
  "bool_u b = (if b then 1 else 0)"

text \<open>The eighteen numeric fields, each in its conversion, in the order of the format string.\<close>

definition tel_fields :: "u32 \<Rightarrow> TelemetryData \<Rightarrow> string list" where
  "tel_fields seq d = [
     fmt_d LORA_PROTOCOL_VERSION,
     fmt_u (unat seq),
     fmt_u (unat (TEL_motorRpm d)),
     fmt_d (sint (TEL_motorTorqueFeedback d)),
     fmt_u (unat (TEL_motorErrorFlags d)),
     fmt_u (bool_u (TEL_motorDataValid d)),
     fmt_u (bool_u (TEL_motorTimeoutActive d)),
     fmt_u (unat (TEL_bmsCellVoltageMaxDeciMv d)),
     fmt_u (unat (TEL_bmsCellVoltageMinDeciMv d)),
     fmt_d (sint (TEL_bmsTempHighestC d)),
     fmt_d (sint (TEL_bmsTempLowestC d)),
     fmt_u (unat (TEL_bmsSystemState d)),
     fmt_u (unat (TEL_bmsPackVoltageDeciV d)),
     fmt_d (sint (TEL_bmsCurrentCentiMa d)),
     fmt_u (unat (TEL_bmsSocHundredths d)),
     fmt_u (bool_u (TEL_bmsDataValid d)),
     fmt_u (unat (TEL_timestampMs d)),
     fmt_u (unat (TEL_speedKmhX10 d))]"

definition tel_line :: "u32 \<Rightarrow> TelemetryData \<Rightarrow> string" where
  "tel_line seq d = join (CHR '','') (''TEL'' # tel_fields seq d) @ [CHR 0x0D, CHR 0x0A]"

record Telemetry =
  TEL_isInitialized :: bool
  TEL_sequenceCounter :: u32

definition Telemetry_new :: Telemetry where
  "Telemetry_new = \<lparr>TEL_isInitialized = False, TEL_sequenceCounter = 0\<rparr>"

definition Telemetry_begin :: "Telemetry \<Rightarrow> bool \<times> Telemetry" where
  "Telemetry_begin t = (True, t\<lparr>TEL_isInitialized := True, TEL_sequenceCounter := 0\<rparr>)"

text \<open>
  \<open>written\<close> is what \<open>uart_write_bytes\<close> returns for this packet. The result is the new
  transmitter and the bytes given to the UART, if any. The early return for a non-positive
  length of \<open>snprintf\<close> is the test on \<open>len\<close>.
\<close>

definition sendStatus :: "int \<Rightarrow> TelemetryData \<Rightarrow> Telemetry \<Rightarrow> Telemetry \<times> string option" where
  "sendStatus written d t =
     (if \<not> TEL_isInitialized t then (t, None)
      else
        let (payload, len) = snprintf TEL_PAYLOAD_SIZE (tel_line (TEL_sequenceCounter t) d)
        in if len = 0 then (t, None)
           else
             let txLength = (if len < TEL_PAYLOAD_SIZE then len else TEL_PAYLOAD_SIZE - 1);
                 sent = take txLength payload
             in if written < 0 then (t, Some sent)
                else (t\<lparr>TEL_sequenceCounter := TEL_sequenceCounter t + 1\<rparr>, Some sent))"

section \<open>The line always fits its buffer\<close>

lemma length_join: "ws \<noteq> [] \<Longrightarrow> length (join sep ws) + 1 = sum_list (map length ws) + length ws"
  by (induction sep ws rule: join.induct) auto

lemma bool_u_less: "bool_u b < 10 ^ Suc 0"
  by (simp add: bool_u_def)

lemma length_fmt_word:
  "length (fmt_u (unat (b :: u8))) \<le> 3"
  "length (fmt_u (unat (h :: u16))) \<le> 5"
  "length (fmt_u (unat (w :: u32))) \<le> 10"
  "length (fmt_u (bool_u v)) \<le> 1"
  using length_fmt_u [of "unat b" 2] length_fmt_u [of "unat h" 4] length_fmt_u [of "unat w" 9]
    length_fmt_u [of "bool_u v" 0] unat_8_less [of b] unat_16_less [of h] unat_32_less [of w]
    bool_u_less [of v]
  by simp_all

lemma length_fmt_sword:
  "length (fmt_d (sint (b :: i8))) \<le> 4"
  "length (fmt_d (sint (h :: i16))) \<le> 6"
  "length (fmt_d (sint (w :: i32))) \<le> 11"
proof -
  have "\<bar>sint b\<bar> < 10 ^ Suc 2" "\<bar>sint h\<bar> < 10 ^ Suc 4" "\<bar>sint w\<bar> < 10 ^ Suc 9"
    using sint_bounds(1,2) [of b] sint_bounds(3,4) [of h] sint_bounds(5,6) [of w] by simp_all
  then show "length (fmt_d (sint b)) \<le> 4" "length (fmt_d (sint h)) \<le> 6"
    "length (fmt_d (sint w)) \<le> 11"
    using length_fmt_d [of "sint b" 2] length_fmt_d [of "sint h" 4] length_fmt_d [of "sint w" 9]
    by simp_all
qed

lemma length_fmt_version: "length (fmt_d LORA_PROTOCOL_VERSION) = 1"
  by (simp add: aks_config fmt_d_def dec_digits.simps)

lemma length_tel_line: "length (tel_line seq d) \<le> 108"
proof -
  have "sum_list (map length (''TEL'' # tel_fields seq d)) \<le> 3 + 85"
    unfolding tel_fields_def
    using length_fmt_version
      length_fmt_word(3) [of seq] length_fmt_word(2) [of "TEL_motorRpm d"]
      length_fmt_sword(2) [of "TEL_motorTorqueFeedback d"]
      length_fmt_word(1) [of "TEL_motorErrorFlags d"]
      length_fmt_word(4) [of "TEL_motorDataValid d"]
      length_fmt_word(4) [of "TEL_motorTimeoutActive d"]
      length_fmt_word(2) [of "TEL_bmsCellVoltageMaxDeciMv d"]
      length_fmt_word(2) [of "TEL_bmsCellVoltageMinDeciMv d"]
      length_fmt_sword(1) [of "TEL_bmsTempHighestC d"]
      length_fmt_sword(1) [of "TEL_bmsTempLowestC d"]
      length_fmt_word(1) [of "TEL_bmsSystemState d"]
      length_fmt_word(2) [of "TEL_bmsPackVoltageDeciV d"]
      length_fmt_sword(3) [of "TEL_bmsCurrentCentiMa d"]
      length_fmt_word(2) [of "TEL_bmsSocHundredths d"]
      length_fmt_word(4) [of "TEL_bmsDataValid d"]
      length_fmt_word(3) [of "TEL_timestampMs d"]
      length_fmt_word(2) [of "TEL_speedKmhX10 d"]
    by simp
  moreover have "length (tel_fields seq d) = 18"
    by (simp add: tel_fields_def)
  ultimately show ?thesis
    using length_join [of "''TEL'' # tel_fields seq d" "CHR '',''"]
    by (simp add: tel_line_def)
qed

lemma tel_line_nonempty [simp]: "tel_line seq d \<noteq> []"
  by (simp add: tel_line_def)

text \<open>The whole of \<open>sendStatus\<close> on its three live branches.\<close>

lemma sendStatus_not_initialized:
  "\<not> TEL_isInitialized t \<Longrightarrow> sendStatus written d t = (t, None)"
  by (simp add: sendStatus_def)

lemma sendStatus_initialized:
  assumes "TEL_isInitialized t"
  shows "sendStatus written d t =
    ((if written < 0 then t else t\<lparr>TEL_sequenceCounter := TEL_sequenceCounter t + 1\<rparr>),
     Some (tel_line (TEL_sequenceCounter t) d))"
proof -
  have "length (tel_line (TEL_sequenceCounter t) d) < TEL_PAYLOAD_SIZE"
    using length_tel_line [of "TEL_sequenceCounter t" d] by (simp add: aks_config)
  with assms show ?thesis
    by (simp add: sendStatus_def snprintf_fits)
qed

lemma sendStatus_keeps_initialized [simp]:
  "TEL_isInitialized (fst (sendStatus written d t)) = TEL_isInitialized t"
  by (cases "TEL_isInitialized t")
    (simp_all add: sendStatus_not_initialized sendStatus_initialized)

section \<open>Properties\<close>

text \<open>A run of transmissions, each with what the UART returned for it.\<close>

definition send_all :: "(int \<times> TelemetryData) list \<Rightarrow> Telemetry \<Rightarrow> Telemetry" where
  "send_all ws t = fold (\<lambda>(w, d) t. fst (sendStatus w d t)) ws t"

lemma send_all_counter:
  "TEL_isInitialized t \<Longrightarrow>
   TEL_sequenceCounter (send_all ws t) =
     TEL_sequenceCounter t + of_nat (length (filter (\<lambda>(w, d). 0 \<le> w) ws))"
  by (induction ws arbitrary: t) (auto simp: send_all_def sendStatus_initialized)

text \<open>
  C21: an initialised transmitter hands the UART the whole formatted line, for every snapshot and
  sequence number: at most 108 characters, so the 192-byte buffer never truncates it and the line
  end is always sent.
\<close>

lemma sent_line_is_complete:
  assumes "TEL_isInitialized t"
  shows "snd (sendStatus written d t) = Some (tel_line (TEL_sequenceCounter t) d) \<and>
    length (tel_line (TEL_sequenceCounter t) d) \<le> 108"
  using sendStatus_initialized [OF assms] length_tel_line by simp

lemma sent_line_is_complete_witness:
  "length (the (snd (sendStatus 0 makeTelemetryDataValid (snd (Telemetry_begin Telemetry_new)))))
     \<le> 108"
  using sent_line_is_complete [of "snd (Telemetry_begin Telemetry_new)" 0 makeTelemetryDataValid]
  by (simp add: Telemetry_begin_def)

text \<open>
  After \<open>begin\<close>, the sequence counter is the number of packets the UART accepted, modulo
  \<open>2\<^sup>3\<^sup>2\<close>: a failed write does not consume a number and no accepted packet shares one.
\<close>

lemma sequence_counts_accepted_packets:
  "TEL_sequenceCounter (send_all ws (snd (Telemetry_begin t))) =
     of_nat (length (filter (\<lambda>(w, d). 0 \<le> w) ws))"
  by (subst send_all_counter) (simp_all add: Telemetry_begin_def)

end
