(* ===== verification/Uks_Frame.thy ===== *)
theory Uks_Frame
  imports Telemetry
begin

text \<open>
  The receiving side of the telemetry contract: \<open>parse_uks_frame\<close> of
  \<open>tools/e2e/contract.py\<close>, the repository's transcription of the ground station's
  \<open>Decode_Line\<close>. A frame is rejected as a whole when one field is malformed or out of range.
  The theory proves what the line of \<^const>\<open>tel_line\<close> decodes to, so the sanitiser's guarantee
  is stated against the receiver's own rules.
\<close>

section \<open>The contract\<close>

datatype UksRejection = parse_fail | bad_tag | bad_version | range_fail

definition TOKEN_COUNT :: nat where
  [aks_config]: "TOKEN_COUNT = 19"

definition TEL_RPM_MAX :: int where
  [aks_config]: "TEL_RPM_MAX = 20000"

definition U32_MAX :: int where
  [aks_config]: "U32_MAX = 4294967295"

text \<open>\<open>FIELD_RANGES\<close> in the order of \<open>FIELD_ORDER\<close>.\<close>

definition FIELD_RANGES :: "(string \<times> int \<times> int) list" where
  "FIELD_RANGES = [
     (''ver'', 0, 255), (''seq'', 0, U32_MAX), (''rpm'', 0, 65535),
     (''torque'', - 32768, 32767), (''motor_err'', 0, 255),
     (''motor_valid'', 0, 1), (''motor_timeout'', 0, 1),
     (''cell_vmax'', 0, 65535), (''cell_vmin'', 0, 65535),
     (''temp_h'', - 128, 127), (''temp_l'', - 128, 127),
     (''sys_state'', 1, 4), (''pack_v'', 0, 65535),
     (''current'', - 2147483647, 2147483647), (''soc'', 0, 10000),
     (''bms_valid'', 0, 1), (''ts_ms'', 0, U32_MAX), (''spd_x10'', 0, 3000)]"

section \<open>The decoder\<close>

definition is_strict_int_token :: "string \<Rightarrow> bool \<Rightarrow> bool" where
  "is_strict_int_token tok allow_sign =
     (if tok = [] then False
      else
        let body = (if allow_sign \<and> hd tok \<in> {CHR ''-'', CHR ''+''} then tl tok else tok)
        in if body = [] then False else list_all is_digit body)"

text \<open>Python's \<open>int(tok)\<close> on a token the test above let through.\<close>

definition py_int :: "string \<Rightarrow> int" where
  "py_int tok = (case tok of
       [] \<Rightarrow> 0
     | c # cs \<Rightarrow> if c = CHR ''-'' then - int (dec_value cs)
                else if c = CHR ''+'' then int (dec_value cs)
                else int (dec_value tok))"

fun parse_fields ::
  "(string \<times> int \<times> int) list \<Rightarrow> string list \<Rightarrow> (string \<times> int) list option" where
  "parse_fields ((name, lo, hi) # rs) (tok # toks) =
     (if \<not> is_strict_int_token tok (lo < 0) then None
      else
        let v = py_int tok
        in if v < lo \<or> hi < v then None
           else map_option (Cons (name, v)) (parse_fields rs toks))"
| "parse_fields _ _ = Some []"

definition parse_uks_frame :: "string \<Rightarrow> UksRejection + (string \<times> int) list" where
  "parse_uks_frame line =
     (let raw = rstrip [CHR 0x0D, CHR 0x0A] line;
          fields = split_on (CHR '','') raw
      in if length fields \<noteq> TOKEN_COUNT then Inl parse_fail
         else if hd fields \<noteq> ''TEL'' then Inl bad_tag
         else (case parse_fields FIELD_RANGES (tl fields) of
             None \<Rightarrow> Inl parse_fail
           | Some values \<Rightarrow>
               if map_of values ''ver'' \<noteq> Some LORA_PROTOCOL_VERSION then Inl bad_version
               else if TEL_RPM_MAX < the (map_of values ''rpm'') then Inl range_fail
               else Inr values))"

section \<open>Tokens the firmware prints\<close>

lemma strict_token_fmt_u [simp]: "is_strict_int_token (fmt_u n) s"
proof -
  have d: "list_all is_digit (fmt_u n)"
    by (auto simp: list_all_iff dest: set_fmt_u)
  have "is_digit (hd (fmt_u n))"
    by (rule set_fmt_u [OF hd_in_set]) simp
  then have "hd (fmt_u n) \<notin> {CHR ''-'', CHR ''+''}"
    by (auto simp: is_digit_def)
  with d show ?thesis
    by (simp add: is_strict_int_token_def)
qed

lemma py_int_digits: "s \<noteq> [] \<Longrightarrow> list_all is_digit s \<Longrightarrow> py_int s = int (dec_value s)"
  by (cases s) (auto simp: py_int_def digit_not_special)

lemma py_int_fmt_u [simp]: "py_int (fmt_u n) = int n"
proof -
  have "list_all is_digit (fmt_u n)"
    by (auto simp: list_all_iff dest: set_fmt_u)
  then have "py_int (fmt_u n) = int (dec_value (fmt_u n))"
    by (simp add: py_int_digits)
  then show ?thesis by (simp add: fmt_u_def)
qed

lemma fmt_d_nonneg: "0 \<le> i \<Longrightarrow> fmt_d i = fmt_u (nat i)"
  by (simp add: fmt_d_def fmt_u_def)

lemma strict_token_fmt_d [simp]: "is_strict_int_token (fmt_d i) True"
proof (cases "0 \<le> i")
  case True
  then show ?thesis by (simp add: fmt_d_nonneg)
next
  case False
  then show ?thesis
    by (auto simp: fmt_d_def is_strict_int_token_def list_all_iff dest: dec_digits_are_digits)
qed

lemma py_int_fmt_d [simp]: "py_int (fmt_d i) = i"
proof (cases "0 \<le> i")
  case True
  then show ?thesis by (simp add: fmt_d_nonneg)
next
  case False
  then show ?thesis by (simp add: fmt_d_def py_int_def)
qed

lemma comma_notin_fmt [simp]:
  "CHR '','' \<notin> set (fmt_u n)" "CHR '','' \<notin> set (fmt_d i)"
  by (auto dest!: set_fmt_u set_fmt_d simp: is_digit_def)

lemma tel_fields_no_comma: "list_all (\<lambda>w. CHR '','' \<notin> set w) (''TEL'' # tel_fields seq d)"
  by (simp add: tel_fields_def)

lemma length_tel_fields [simp]: "length (tel_fields seq d) = 18"
  by (simp add: tel_fields_def)

lemma last_join: "ws \<noteq> [] \<Longrightarrow> last ws \<noteq> [] \<Longrightarrow> last (join sep ws) = last (last ws)"
proof (induction sep ws rule: join.induct)
  case (3 sep w v ws)
  then show ?case by (cases ws) auto
qed simp_all

lemma join_nonempty: "ws \<noteq> [] \<Longrightarrow> last ws \<noteq> [] \<Longrightarrow> join sep ws \<noteq> []"
  by (induction sep ws rule: join.induct) auto

lemma split_tel_line:
  "split_on (CHR '','') (rstrip [CHR 0x0D, CHR 0x0A] (tel_line seq d)) = ''TEL'' # tel_fields seq d"
proof -
  let ?ws = "''TEL'' # tel_fields seq d"
  have last: "last ?ws = fmt_u (unat (TEL_speedKmhX10 d))"
    by (simp add: tel_fields_def)
  then have "last (join (CHR '','') ?ws) = last (fmt_u (unat (TEL_speedKmhX10 d)))"
    by (subst last_join) simp_all
  moreover have "is_digit (last (fmt_u (unat (TEL_speedKmhX10 d))))"
    by (rule set_fmt_u [OF last_in_set]) simp
  ultimately have "last (join (CHR '','') ?ws) \<notin> set [CHR 0x0D, CHR 0x0A]"
    by (auto simp: is_digit_def)
  moreover have "join (CHR '','') ?ws \<noteq> []"
    by (rule join_nonempty) (simp, simp only: last fmt_nonempty not_False_eq_True)
  ultimately have "rstrip [CHR 0x0D, CHR 0x0A] (tel_line seq d) = join (CHR '','') ?ws"
    unfolding tel_line_def by (intro rstrip_append) simp_all
  then show ?thesis
    using split_on_join [OF _ tel_fields_no_comma] by simp
qed

section \<open>What a transmitted line decodes to\<close>

definition tel_values :: "u32 \<Rightarrow> TelemetryData \<Rightarrow> (string \<times> int) list" where
  "tel_values seq d = [
     (''ver'', LORA_PROTOCOL_VERSION),
     (''seq'', uint seq),
     (''rpm'', uint (TEL_motorRpm d)),
     (''torque'', sint (TEL_motorTorqueFeedback d)),
     (''motor_err'', uint (TEL_motorErrorFlags d)),
     (''motor_valid'', int (bool_u (TEL_motorDataValid d))),
     (''motor_timeout'', int (bool_u (TEL_motorTimeoutActive d))),
     (''cell_vmax'', uint (TEL_bmsCellVoltageMaxDeciMv d)),
     (''cell_vmin'', uint (TEL_bmsCellVoltageMinDeciMv d)),
     (''temp_h'', sint (TEL_bmsTempHighestC d)),
     (''temp_l'', sint (TEL_bmsTempLowestC d)),
     (''sys_state'', uint (TEL_bmsSystemState d)),
     (''pack_v'', uint (TEL_bmsPackVoltageDeciV d)),
     (''current'', sint (TEL_bmsCurrentCentiMa d)),
     (''soc'', uint (TEL_bmsSocHundredths d)),
     (''bms_valid'', int (bool_u (TEL_bmsDataValid d))),
     (''ts_ms'', uint (TEL_timestampMs d)),
     (''spd_x10'', uint (TEL_speedKmhX10 d))]"

text \<open>The four fields whose machine type is wider than the receiver's range.\<close>

definition uks_in_range :: "TelemetryData \<Rightarrow> bool" where
  "uks_in_range d \<longleftrightarrow>
     1 \<le> uint (TEL_bmsSystemState d) \<and> uint (TEL_bmsSystemState d) \<le> 4 \<and>
     uint (TEL_bmsSocHundredths d) \<le> 10000 \<and>
     - 2147483647 \<le> sint (TEL_bmsCurrentCentiMa d) \<and>
     uint (TEL_speedKmhX10 d) \<le> 3000"

lemma uint_word_bounds:
  "uint (b :: u8) \<le> 255" "uint (h :: u16) \<le> 65535" "uint (w :: u32) \<le> U32_MAX"
  using unsigned_less [of b, where ?'a = int] unsigned_less [of h, where ?'a = int]
    unsigned_less [of w, where ?'a = int]
  by (simp_all add: aks_config)

lemma bool_u_le_1: "int (bool_u b) \<le> 1"
  by (simp add: bool_u_def)

lemma version_token:
  "is_strict_int_token (fmt_d LORA_PROTOCOL_VERSION) s"
  "py_int (fmt_d LORA_PROTOCOL_VERSION) = LORA_PROTOCOL_VERSION"
  by (simp_all add: fmt_d_nonneg aks_config)

lemma parse_fields_Cons:
  "is_strict_int_token tok (lo < 0) \<Longrightarrow>
   parse_fields ((name, lo, hi) # rs) (tok # toks) =
     (if py_int tok < lo \<or> hi < py_int tok then None
      else map_option (Cons (name, py_int tok)) (parse_fields rs toks))"
  by simp

lemma parse_tel_fields:
  "parse_fields FIELD_RANGES (tel_fields seq d) =
     (if uks_in_range d then Some (tel_values seq d) else None)"
proof -
  have signed: "- 32768 \<le> sint (TEL_motorTorqueFeedback d)"
    "sint (TEL_motorTorqueFeedback d) \<le> 32767"
    "- 128 \<le> sint (TEL_bmsTempHighestC d)" "sint (TEL_bmsTempHighestC d) \<le> 127"
    "- 128 \<le> sint (TEL_bmsTempLowestC d)" "sint (TEL_bmsTempLowestC d) \<le> 127"
    "sint (TEL_bmsCurrentCentiMa d) \<le> 2147483647"
    by (simp_all only: sint_bounds)
  have unsigned: "uint seq \<le> U32_MAX" "uint (TEL_motorRpm d) \<le> 65535"
    "uint (TEL_motorErrorFlags d) \<le> 255"
    "uint (TEL_bmsCellVoltageMaxDeciMv d) \<le> 65535"
    "uint (TEL_bmsCellVoltageMinDeciMv d) \<le> 65535"
    "uint (TEL_bmsPackVoltageDeciV d) \<le> 65535"
    "uint (TEL_timestampMs d) \<le> U32_MAX"
    by (simp_all only: uint_word_bounds)
  have bools: "int (bool_u (TEL_motorDataValid d)) \<le> 1"
    "int (bool_u (TEL_motorTimeoutActive d)) \<le> 1"
    "int (bool_u (TEL_bmsDataValid d)) \<le> 1"
    by (simp_all only: bool_u_le_1)
  have version: "0 \<le> LORA_PROTOCOL_VERSION" "LORA_PROTOCOL_VERSION \<le> 255"
    by (simp_all add: LORA_PROTOCOL_VERSION_def)
  show ?thesis
    unfolding FIELD_RANGES_def tel_fields_def tel_values_def uks_in_range_def
    using signed unsigned bools version
    by (simp add: version_token not_less Let_def)
qed

lemma parse_uks_frame_tel_line_gen:
  "parse_uks_frame (tel_line seq d) =
     (if \<not> uks_in_range d then Inl parse_fail
      else if 20000 < uint (TEL_motorRpm d) then Inl range_fail
      else Inr (tel_values seq d))"
proof -
  have ver: "map_of (tel_values seq d) ''ver'' = Some LORA_PROTOCOL_VERSION"
    and rpm: "map_of (tel_values seq d) ''rpm'' = Some (uint (TEL_motorRpm d))"
    by (simp_all add: tel_values_def)
  show ?thesis
    by (simp add: parse_uks_frame_def split_tel_line parse_tel_fields ver rpm
        TOKEN_COUNT_def TEL_RPM_MAX_def Let_def)
qed

lemma uks_in_range_sanitized:
  "uks_in_range (sanitizeForUplink d) \<longleftrightarrow> uint (TEL_speedKmhX10 d) \<le> 3000"
proof -
  let ?s = "sanitizeSystemState (TEL_bmsSystemState d)" and ?q = "sanitizeSoc (TEL_bmsSocHundredths d)"
  have "1 \<le> int (unat ?s)" "int (unat ?s) \<le> 4" "int (unat ?q) \<le> 10000"
    using sanitizeSystemState_range [of "TEL_bmsSystemState d"]
      sanitizeSoc_range [of "TEL_bmsSocHundredths d"] by linarith+
  then show ?thesis
    using sanitizeCurrent_range [of "TEL_bmsCurrentCentiMa d"]
    by (simp add: uks_in_range_def sanitizeForUplink_def)
qed

lemma uks_line:
  "parse_uks_frame (tel_line seq (sanitizeForUplink d)) =
     (if 3000 < uint (TEL_speedKmhX10 d) then Inl parse_fail
      else if 20000 < uint (TEL_motorRpm d) then Inl range_fail
      else Inr (tel_values seq (sanitizeForUplink d)))"
  unfolding parse_uks_frame_tel_line_gen uks_in_range_sanitized
  by (simp add: sanitizeForUplink_def)

section \<open>Property\<close>

text \<open>
  The ground station decodes the line of a sanitised snapshot to exactly the values the
  firmware put in, provided the speed is at most 300.0 km/h and the motor speed at most
  20000 rpm. Those two fields, which the sanitiser does not bound, are also the only ones that can
  cost the whole frame.
\<close>

lemma sanitized_line_decodes:
  "parse_uks_frame (tel_line seq (sanitizeForUplink d)) =
     (if 3000 < uint (TEL_speedKmhX10 d) then Inl parse_fail
      else if 20000 < uint (TEL_motorRpm d) then Inl range_fail
      else Inr (tel_values seq (sanitizeForUplink d)))"
  by (rule uks_line)

end
