(* ===== verification/Can_Parse.thy ===== *)
theory Can_Parse
  imports Telemetry
begin

text \<open>
  The pure CAN payload parsers of \<open>lib/CanParse/CanParse.cpp\<close>: one function per frame, each
  a map from a received frame and the output struct to the output struct, or \<open>None\<close> where the
  code returns \<open>false\<close> and leaves the output alone. Also the pack-voltage threshold test and the
  two freshness predicates on the wrapping tick counter.
\<close>

unbundle bit_operations_syntax

section \<open>Frames and parsed records\<close>

text \<open>
  The fields of \<open>twai_message_t\<close> that the firmware reads. \<open>data\<close> is the C array of eight bytes,
  whatever the length code says.
\<close>

record twai_message_t =
  MSG_identifier :: u32
  MSG_extd :: bool
  MSG_data_length_code :: u8
  MSG_data :: "u8 list"

record MotorStatus =
  MS_rpm :: u16
  MS_torqueFeedback :: i16
  MS_errorFlags :: u8
  MS_isValid :: bool

definition MotorStatus_zero :: MotorStatus where
  "MotorStatus_zero =
     \<lparr>MS_rpm = 0, MS_torqueFeedback = 0, MS_errorFlags = 0, MS_isValid = False\<rparr>"

record ChargerCommand =
  CC_chargeVoltageSetpointDeciV :: u16
  CC_chargeCurrentSetpointDeciA :: u16

definition ChargerCommand_zero :: ChargerCommand where
  "ChargerCommand_zero =
     \<lparr>CC_chargeVoltageSetpointDeciV = 0, CC_chargeCurrentSetpointDeciA = 0\<rparr>"

abbreviation byte :: "twai_message_t \<Rightarrow> nat \<Rightarrow> u8" where
  "byte m i \<equiv> MSG_data m ! i"

abbreviation dlc :: "twai_message_t \<Rightarrow> nat" where
  "dlc m \<equiv> unat (MSG_data_length_code m)"

section \<open>The parsers\<close>

definition parseMotorStatus :: "twai_message_t \<Rightarrow> MotorStatus \<Rightarrow> MotorStatus option" where
  "parseMotorStatus m out =
     (if dlc m < 4 then None
      else Some (out\<lparr>MS_rpm := be16 (byte m 0) (byte m 1),
                     MS_torqueFeedback := be16 (byte m 2) (byte m 3),
                     MS_errorFlags := (if 5 \<le> dlc m then byte m 4 else 0),
                     MS_isValid := True\<rparr>))"

definition parseLbBmsE000 :: "twai_message_t \<Rightarrow> TelemetryData \<Rightarrow> TelemetryData option" where
  "parseLbBmsE000 m out =
     (if dlc m < 8 then None
      else
        let raw_current = (be16 (byte m 0) (byte m 1) :: i16)
        in Some (out\<lparr>TEL_bmsCurrentCentiMa := (scast raw_current :: i32) * 10,
                     TEL_bmsPackVoltageDeciV := be16 (byte m 2) (byte m 3),
                     TEL_bmsSocHundredths := be16 (byte m 4) (byte m 5),
                     TEL_bmsDataValid := True\<rparr>))"

definition parseCharger1806E5F4 ::
  "twai_message_t \<Rightarrow> ChargerCommand \<Rightarrow> ChargerCommand option" where
  "parseCharger1806E5F4 m out =
     (if dlc m < 4 then None
      else Some (out\<lparr>CC_chargeVoltageSetpointDeciV := be16 (byte m 0) (byte m 1),
                     CC_chargeCurrentSetpointDeciA := be16 (byte m 2) (byte m 3)\<rparr>))"

definition parseLbBmsE001 :: "twai_message_t \<Rightarrow> TelemetryData \<Rightarrow> TelemetryData option" where
  "parseLbBmsE001 m out =
     (if dlc m < 8 then None
      else
        let t1 = (byte m 6 :: i8); t2 = (byte m 7 :: i8)
        in Some (out\<lparr>TEL_bmsTempHighestC := (if sint t2 \<le> sint t1 then t1 else t2),
                     TEL_bmsTempLowestC := (if sint t1 \<le> sint t2 then t1 else t2)\<rparr>))"

text \<open>The frames whose meaning is not known yet: accepted when not empty, never decoded.\<close>

definition parseLbBmsE002 :: "twai_message_t \<Rightarrow> TelemetryData \<Rightarrow> TelemetryData option" where
  "parseLbBmsE002 m out = (if 0 < dlc m then Some out else None)"

definition parseLbBmsE003 :: "twai_message_t \<Rightarrow> TelemetryData \<Rightarrow> TelemetryData option" where
  "parseLbBmsE003 m out = (if 0 < dlc m then Some out else None)"

definition parseLbBmsE004 :: "twai_message_t \<Rightarrow> TelemetryData \<Rightarrow> TelemetryData option" where
  "parseLbBmsE004 m out = (if 0 < dlc m then Some out else None)"

definition parseLbBmsE005 :: "twai_message_t \<Rightarrow> TelemetryData \<Rightarrow> TelemetryData option" where
  "parseLbBmsE005 m out = (if 0 < dlc m then Some out else None)"

definition parseLbBmsE032 :: "twai_message_t \<Rightarrow> TelemetryData \<Rightarrow> TelemetryData option" where
  "parseLbBmsE032 m out = (if 0 < dlc m then Some out else None)"

definition parseLbBmsE033 :: "twai_message_t \<Rightarrow> TelemetryData \<Rightarrow> TelemetryData option" where
  "parseLbBmsE033 m out = (if 0 < dlc m then Some out else None)"

section \<open>Thresholds and freshness\<close>

datatype BmsPackVoltageFault = BPVF_NONE | BPVF_UNDERVOLTAGE | BPVF_OVERVOLTAGE

definition checkPackVoltageFault :: "u16 \<Rightarrow> u16 \<Rightarrow> u16 \<Rightarrow> BmsPackVoltageFault" where
  "checkPackVoltageFault packV criticalMin criticalMax =
     (if packV \<le> criticalMin then BPVF_UNDERVOLTAGE
      else if criticalMax \<le> packV then BPVF_OVERVOLTAGE
      else BPVF_NONE)"

definition isMotorStatusTimedOut ::
  "bool \<Rightarrow> bool \<Rightarrow> TickType_t \<Rightarrow> TickType_t \<Rightarrow> TickType_t \<Rightarrow> bool" where
  "isMotorStatusTimedOut hasSeen lastValid now lastTick timeoutTicks =
     (if \<not> hasSeen \<or> \<not> lastValid then False else timeoutTicks \<le> now - lastTick)"

definition isBmsStatusTimedOut ::
  "bool \<Rightarrow> bool \<Rightarrow> TickType_t \<Rightarrow> TickType_t \<Rightarrow> TickType_t \<Rightarrow> bool" where
  "isBmsStatusTimedOut hasSeen lastValid now lastTick timeoutTicks =
     (if \<not> hasSeen \<or> \<not> lastValid then False else timeoutTicks \<le> now - lastTick)"

section \<open>Lemmas\<close>

text \<open>The scaling of the current cannot overflow 32 bits.\<close>

lemma sint_scaled_current: "sint ((scast (r :: i16) :: i32) * 10) = 10 * sint r"
proof -
  have b: "- 32768 \<le> sint r" "sint r \<le> 32767"
    by (rule sint_bounds)+
  have s: "sint (scast r :: i32) = sint r"
    using b by (simp add: signed_scast_eq signed_take_bit_int_eq_self_iff)
  have "signed_take_bit 31 (sint r * 10) = sint r * 10"
    by (rule signed_take_bit_int_eq_self) (use b in simp_all)
  then show ?thesis
    using s by (simp add: sint_word_ariths)
qed

lemma checkPackVoltageFault_eq:
  "checkPackVoltageFault v lo hi = BPVF_UNDERVOLTAGE \<longleftrightarrow> v \<le> lo"
  "checkPackVoltageFault v lo hi = BPVF_OVERVOLTAGE \<longleftrightarrow> lo < v \<and> hi \<le> v"
  "checkPackVoltageFault v lo hi = BPVF_NONE \<longleftrightarrow> lo < v \<and> v < hi"
  by (auto simp: checkPackVoltageFault_def not_le)

text \<open>The age of a reading is right across one wrap of the tick counter.\<close>

lemma tick_age: "t + n - t = (n :: TickType_t)"
  by simp

text \<open>A frame that carries a motor status, and what it is read back as.\<close>

definition motor_frame :: "u16 \<Rightarrow> i16 \<Rightarrow> u8 \<Rightarrow> twai_message_t" where
  "motor_frame rpm torque flags = \<lparr>
     MSG_identifier = 0x200, MSG_extd = False, MSG_data_length_code = 8,
     MSG_data = [hi8 rpm, lo8 rpm, hi8 torque, lo8 torque, flags, 0, 0, 0]\<rparr>"

lemma parseMotorStatus_motor_frame:
  "parseMotorStatus (motor_frame rpm torque flags) out =
     Some \<lparr>MS_rpm = rpm, MS_torqueFeedback = torque, MS_errorFlags = flags, MS_isValid = True\<rparr>"
  by (cases out) (simp add: parseMotorStatus_def motor_frame_def)

lemma parseMotorStatus_None: "parseMotorStatus m out = None \<longleftrightarrow> dlc m < 4"
  by (simp add: parseMotorStatus_def)

lemma parseLbBmsE000_None: "parseLbBmsE000 m out = None \<longleftrightarrow> dlc m < 8"
  by (simp add: parseLbBmsE000_def Let_def)

lemma parseCharger_None: "parseCharger1806E5F4 m out = None \<longleftrightarrow> dlc m < 4"
  by (simp add: parseCharger1806E5F4_def)

lemma parseLbBmsE001_None: "parseLbBmsE001 m out = None \<longleftrightarrow> dlc m < 8"
  by (simp add: parseLbBmsE001_def Let_def)

text \<open>Whatever the byte order, the higher of the two temperatures is the one reported first.\<close>

lemma parseLbBmsE001_Some:
  "parseLbBmsE001 m out = Some d \<Longrightarrow>
     sint (TEL_bmsTempHighestC d) = max (sint (byte m 6)) (sint (byte m 7)) \<and>
     sint (TEL_bmsTempLowestC d) = min (sint (byte m 6)) (sint (byte m 7)) \<and>
     d\<lparr>TEL_bmsTempHighestC := TEL_bmsTempHighestC out,
        TEL_bmsTempLowestC := TEL_bmsTempLowestC out\<rparr> = out"
  by (auto simp: parseLbBmsE001_def Let_def max_def min_def split: if_splits)

end
