(* ===== verification/Can_Manager.thy ===== *)
theory Can_Manager
  imports Can_Parse
begin

text \<open>
  The CAN receiver (\<open>lib/CanManager/CanManager.cpp\<close>): the shared motor, BMS and charger state,
  one handler per frame, the dispatcher \<open>processRxMessages\<close> and the three freshness updates.
  Operations are state transformers; what they do to the outside world (the fault callback, calls
  of the TWAI driver, log lines) is the list of \<open>can_out\<close> they return. Results of driver calls
  and readings of the tick counter are inputs, and so is \<open>pdMS_TO_TICKS\<close> (\<open>ms\<close>). The mutex only
  matters for being there or not: each operation is one critical section.
\<close>

section \<open>Configuration\<close>

definition CAN_ID_MOTOR_STATUS :: u32 where [aks_config]: "CAN_ID_MOTOR_STATUS = 0x200"
definition CAN_ID_LB_BMS_E000 :: u32 where [aks_config]: "CAN_ID_LB_BMS_E000 = 0xE000"
definition CAN_ID_LB_BMS_E001 :: u32 where [aks_config]: "CAN_ID_LB_BMS_E001 = 0xE001"
definition CAN_ID_LB_BMS_E002 :: u32 where [aks_config]: "CAN_ID_LB_BMS_E002 = 0xE002"
definition CAN_ID_LB_BMS_E003 :: u32 where [aks_config]: "CAN_ID_LB_BMS_E003 = 0xE003"
definition CAN_ID_LB_BMS_E004 :: u32 where [aks_config]: "CAN_ID_LB_BMS_E004 = 0xE004"
definition CAN_ID_LB_BMS_E005 :: u32 where [aks_config]: "CAN_ID_LB_BMS_E005 = 0xE005"
definition CAN_ID_LB_BMS_E032 :: u32 where [aks_config]: "CAN_ID_LB_BMS_E032 = 0xE032"
definition CAN_ID_LB_BMS_E033 :: u32 where [aks_config]: "CAN_ID_LB_BMS_E033 = 0xE033"
definition CAN_ID_LB_CHARGER_CMD :: u32 where [aks_config]: "CAN_ID_LB_CHARGER_CMD = 0x1806E5F4"
definition CAN_ID_LB_STD_0x000 :: u32 where [aks_config]: "CAN_ID_LB_STD_0x000 = 0"

definition CAN_MOTOR_STATUS_TIMEOUT_MS :: u32 where
  [aks_config]: "CAN_MOTOR_STATUS_TIMEOUT_MS = 500"

definition CAN_BMS_STATUS_TIMEOUT_MS :: u32 where
  [aks_config]: "CAN_BMS_STATUS_TIMEOUT_MS = 500"

definition CAN_CHARGER_TIMEOUT_MS :: u32 where
  [aks_config]: "CAN_CHARGER_TIMEOUT_MS = 2000"

definition BMS_CRITICAL_MIN_PACK_VOLTAGE_DECI_V :: u16 where
  [aks_config]: "BMS_CRITICAL_MIN_PACK_VOLTAGE_DECI_V = 600"

definition BMS_CRITICAL_MAX_PACK_VOLTAGE_DECI_V :: u16 where
  [aks_config]: "BMS_CRITICAL_MAX_PACK_VOLTAGE_DECI_V = 876"

section \<open>State and effects\<close>

datatype CAN_Event = CE_NONE | CE_FAULT_DETECTED

datatype can_log =
    LogBegin string
  | LogBusOff
  | LogBusRecovered
  | LogRxError
  | LogUnknownId u32
  | LogTooShort string
  | LogNoMutex string
  | LogPackVoltage bool u16
  | LogFlags string u8
  | LogRaw u32 string
  | LogMotorTimeout
  | LogBmsTimeout
  | LogChargerStale

datatype can_out =
    EventCallback CAN_Event
  | twai_initiate_recovery
  | twai_start
  | twai_driver_uninstall
  | CanLog can_log

record CanManager =
  CM_isInitialized :: bool
  CM_mutex :: bool
  CM_motorStatus :: MotorStatus
  CM_telemetryData :: TelemetryData
  CM_lastMotorStatusTick :: TickType_t
  CM_hasSeenMotorStatus :: bool
  CM_motorTimeoutLogged :: bool
  CM_busOffLogged :: bool
  CM_busRecoveredLogged :: bool
  CM_lastBmsE000Tick :: TickType_t
  CM_hasSeen_BmsE000 :: bool
  CM_bmsE000Valid :: bool
  CM_bmsTimeoutLogged :: bool
  CM_bmsPackFaultFlags :: u8
  CM_chargerCommand :: ChargerCommand
  CM_lastChargerTick :: TickType_t
  CM_hasSeenCharger :: bool
  CM_chargerValid :: bool
  CM_chargerStaleLogged :: bool
  CM_eventCallback :: bool

definition CanManager_new :: CanManager where
  "CanManager_new = \<lparr>
     CM_isInitialized = False, CM_mutex = False,
     CM_motorStatus = MotorStatus_zero, CM_telemetryData = TelemetryData_zero,
     CM_lastMotorStatusTick = 0, CM_hasSeenMotorStatus = False, CM_motorTimeoutLogged = False,
     CM_busOffLogged = False, CM_busRecoveredLogged = False,
     CM_lastBmsE000Tick = 0, CM_hasSeen_BmsE000 = False, CM_bmsE000Valid = False,
     CM_bmsTimeoutLogged = False, CM_bmsPackFaultFlags = 0,
     CM_chargerCommand = ChargerCommand_zero, CM_lastChargerTick = 0,
     CM_hasSeenCharger = False, CM_chargerValid = False, CM_chargerStaleLogged = False,
     CM_eventCallback = False\<rparr>"

definition setEventCallback :: "bool \<Rightarrow> CanManager \<Rightarrow> CanManager" where
  "setEventCallback callback c = c\<lparr>CM_eventCallback := callback\<rparr>"

text \<open>The three inputs are the success of mutex creation, driver installation and start.\<close>

definition CanManager_begin ::
  "bool \<Rightarrow> bool \<Rightarrow> bool \<Rightarrow> CanManager \<Rightarrow> bool \<times> CanManager \<times> can_out list" where
  "CanManager_begin mutex_ok install_ok start_ok c =
     (if CM_isInitialized c then (True, c, [])
      else if \<not> mutex_ok then
        (False, c\<lparr>CM_mutex := False\<rparr>, [CanLog (LogBegin ''Failed to create mutex'')])
      else if \<not> install_ok then
        (False, c\<lparr>CM_mutex := False\<rparr>, [CanLog (LogBegin ''twai_driver_install failed'')])
      else if \<not> start_ok then
        (False, c\<lparr>CM_mutex := False\<rparr>,
         [twai_start, CanLog (LogBegin ''twai_start failed''), twai_driver_uninstall])
      else
        (True, c\<lparr>CM_mutex := True, CM_isInitialized := True\<rparr>,
         [twai_start, CanLog (LogBegin ''CAN initialized at 500kbps'')]))"

definition getMotorStatus :: "CanManager \<Rightarrow> MotorStatus" where
  "getMotorStatus c = CM_motorStatus c"

definition getTelemetryData :: "CanManager \<Rightarrow> TelemetryData" where
  "getTelemetryData c = CM_telemetryData c"

definition getChargerCommand :: "CanManager \<Rightarrow> ChargerCommand \<times> bool" where
  "getChargerCommand c =
     (if \<not> CM_mutex c then (CM_chargerCommand c, False)
      else (CM_chargerCommand c, CM_chargerValid c))"

section \<open>Handlers\<close>

definition notifyFaultIfNeeded :: "u8 \<Rightarrow> u8 \<Rightarrow> string \<Rightarrow> CanManager \<Rightarrow> can_out list" where
  "notifyFaultIfNeeded previous current source c =
     (if current = 0 \<or> current = previous then []
      else CanLog (LogFlags source current)
           # (if CM_eventCallback c then [EventCallback CE_FAULT_DETECTED] else []))"

definition handleMotorStatus ::
  "TickType_t \<Rightarrow> twai_message_t \<Rightarrow> CanManager \<Rightarrow> CanManager \<times> can_out list" where
  "handleMotorStatus now m c =
     (case parseMotorStatus m MotorStatus_zero of
        None \<Rightarrow> (c, [CanLog (LogTooShort ''Motor'')])
      | Some parsed \<Rightarrow>
          if \<not> CM_mutex c then (c, [CanLog (LogNoMutex ''Motor'')])
          else
            let previous = MS_errorFlags (CM_motorStatus c);
                c' = c\<lparr>
                  CM_motorStatus := parsed,
                  CM_lastMotorStatusTick := now,
                  CM_hasSeenMotorStatus := True,
                  CM_motorTimeoutLogged := False,
                  CM_telemetryData := (CM_telemetryData c)\<lparr>
                    TEL_motorRpm := MS_rpm parsed,
                    TEL_motorErrorFlags := MS_errorFlags parsed,
                    TEL_motorDataValid := MS_isValid parsed,
                    TEL_motorTimeoutActive := False\<rparr>\<rparr>
            in (c', notifyFaultIfNeeded previous (MS_errorFlags parsed) ''Motor'' c'))"

definition packFaultFlags :: "u16 \<Rightarrow> u8" where
  "packFaultFlags packV =
     (let f = checkPackVoltageFault packV BMS_CRITICAL_MIN_PACK_VOLTAGE_DECI_V
                BMS_CRITICAL_MAX_PACK_VOLTAGE_DECI_V
      in (if f = BPVF_UNDERVOLTAGE then 1 else 0) OR (if f = BPVF_OVERVOLTAGE then 2 else 0))"

definition handleLbBmsE000 ::
  "TickType_t \<Rightarrow> twai_message_t \<Rightarrow> CanManager \<Rightarrow> CanManager \<times> can_out list" where
  "handleLbBmsE000 now m c =
     (if \<not> CM_mutex c then (c, [CanLog (LogNoMutex ''E000'')])
      else case parseLbBmsE000 m TelemetryData_zero of
        None \<Rightarrow> (c, [CanLog (LogTooShort ''E000'')])
      | Some parsed \<Rightarrow>
          let newFlags = packFaultFlags (TEL_bmsPackVoltageDeciV parsed);
              previous = CM_bmsPackFaultFlags c;
              c' = c\<lparr>
                CM_telemetryData := (CM_telemetryData c)\<lparr>
                  TEL_bmsPackVoltageDeciV := TEL_bmsPackVoltageDeciV parsed,
                  TEL_bmsCurrentCentiMa := TEL_bmsCurrentCentiMa parsed,
                  TEL_bmsSocHundredths := TEL_bmsSocHundredths parsed,
                  TEL_bmsDataValid := True,
                  TEL_bmsTimeoutActive := False\<rparr>,
                CM_lastBmsE000Tick := now,
                CM_hasSeen_BmsE000 := True,
                CM_bmsE000Valid := True,
                CM_bmsTimeoutLogged := False,
                CM_bmsPackFaultFlags := newFlags\<rparr>
          in (c',
              (if newFlags \<noteq> 0 \<and> newFlags \<noteq> previous
               then [CanLog (LogPackVoltage (newFlags AND 1 \<noteq> 0) (TEL_bmsPackVoltageDeciV parsed))]
               else [])
              @ notifyFaultIfNeeded previous newFlags ''BMS packV'' c'))"

definition handleLbBmsE001 ::
  "twai_message_t \<Rightarrow> CanManager \<Rightarrow> CanManager \<times> can_out list" where
  "handleLbBmsE001 m c =
     (if \<not> CM_mutex c then (c, [CanLog (LogNoMutex ''E001'')])
      else case parseLbBmsE001 m TelemetryData_zero of
        None \<Rightarrow> (c, [CanLog (LogTooShort ''E001'')])
      | Some parsed \<Rightarrow>
          (c\<lparr>CM_telemetryData := (CM_telemetryData c)\<lparr>
               TEL_bmsTempHighestC := TEL_bmsTempHighestC parsed,
               TEL_bmsTempLowestC := TEL_bmsTempLowestC parsed\<rparr>\<rparr>, []))"

definition handleCharger1806E5F4 ::
  "TickType_t \<Rightarrow> twai_message_t \<Rightarrow> CanManager \<Rightarrow> CanManager \<times> can_out list" where
  "handleCharger1806E5F4 now m c =
     (if \<not> CM_mutex c then (c, [CanLog (LogNoMutex ''Charger'')])
      else case parseCharger1806E5F4 m ChargerCommand_zero of
        None \<Rightarrow> (c, [CanLog (LogTooShort ''Charger'')])
      | Some parsed \<Rightarrow>
          (c\<lparr>CM_chargerCommand := parsed,
             CM_lastChargerTick := now,
             CM_hasSeenCharger := True,
             CM_chargerValid := True,
             CM_chargerStaleLogged := False\<rparr>, []))"

definition handleLbBmsStub :: "twai_message_t \<Rightarrow> u32 \<Rightarrow> can_out list" where
  "handleLbBmsStub m canId =
     (if dlc m = 0 then []
      else [CanLog (LogRaw canId
              (concat (map (\<lambda>i. fmt_02X (byte m i) @ '' '') [0..<min (dlc m) 8])))])"

section \<open>Freshness updates\<close>

definition updateMotorStatusValidity ::
  "(u32 \<Rightarrow> TickType_t) \<Rightarrow> TickType_t \<Rightarrow> CanManager \<Rightarrow> CanManager \<times> can_out list" where
  "updateMotorStatusValidity ms now c =
     (if \<not> CM_mutex c then (c, [])
      else if isMotorStatusTimedOut (CM_hasSeenMotorStatus c) (MS_isValid (CM_motorStatus c)) now
                (CM_lastMotorStatusTick c) (ms CAN_MOTOR_STATUS_TIMEOUT_MS)
      then (c\<lparr>CM_motorStatus := (CM_motorStatus c)\<lparr>MS_isValid := False\<rparr>,
              CM_telemetryData := (CM_telemetryData c)\<lparr>
                TEL_motorDataValid := False, TEL_motorTimeoutActive := True\<rparr>,
              CM_motorTimeoutLogged := True\<rparr>,
            if CM_motorTimeoutLogged c then [] else [CanLog LogMotorTimeout])
      else (c, []))"

definition updateBmsValidity ::
  "(u32 \<Rightarrow> TickType_t) \<Rightarrow> TickType_t \<Rightarrow> CanManager \<Rightarrow> CanManager \<times> can_out list" where
  "updateBmsValidity ms now c =
     (if \<not> CM_mutex c then (c, [])
      else
        let valid = (if isBmsStatusTimedOut (CM_hasSeen_BmsE000 c) (CM_bmsE000Valid c) now
                          (CM_lastBmsE000Tick c) (ms CAN_BMS_STATUS_TIMEOUT_MS)
                     then False else CM_bmsE000Valid c);
            c1 = c\<lparr>CM_bmsE000Valid := valid\<rparr>
        in if valid then (c1, [])
           else
             let c2 = c1\<lparr>CM_telemetryData := (CM_telemetryData c1)\<lparr>TEL_bmsDataValid := False\<rparr>\<rparr>
             in if \<not> CM_hasSeen_BmsE000 c then (c2, [])
                else (c2\<lparr>CM_telemetryData := (CM_telemetryData c2)\<lparr>TEL_bmsTimeoutActive := True\<rparr>,
                         CM_bmsTimeoutLogged := True\<rparr>,
                      if CM_bmsTimeoutLogged c then [] else [CanLog LogBmsTimeout]))"

definition updateChargerValidity ::
  "(u32 \<Rightarrow> TickType_t) \<Rightarrow> TickType_t \<Rightarrow> CanManager \<Rightarrow> CanManager \<times> can_out list" where
  "updateChargerValidity ms now c =
     (if \<not> CM_mutex c then (c, [])
      else if isBmsStatusTimedOut (CM_hasSeenCharger c) (CM_chargerValid c) now
                (CM_lastChargerTick c) (ms CAN_CHARGER_TIMEOUT_MS)
      then (c\<lparr>CM_chargerValid := False, CM_chargerStaleLogged := True\<rparr>,
            if CM_chargerStaleLogged c then [] else [CanLog LogChargerStale])
      else (c, []))"

section \<open>Dispatch\<close>

definition dispatchFrame ::
  "TickType_t \<Rightarrow> twai_message_t \<Rightarrow> CanManager \<Rightarrow> CanManager \<times> can_out list" where
  "dispatchFrame now m c =
     (let i = MSG_identifier m
      in if MSG_extd m then
           if i = CAN_ID_LB_BMS_E000 then handleLbBmsE000 now m c
           else if i = CAN_ID_LB_CHARGER_CMD then handleCharger1806E5F4 now m c
           else if i = CAN_ID_LB_BMS_E001 then handleLbBmsE001 m c
           else if i \<in> {CAN_ID_LB_BMS_E002, CAN_ID_LB_BMS_E003, CAN_ID_LB_BMS_E004,
                       CAN_ID_LB_BMS_E005, CAN_ID_LB_BMS_E032, CAN_ID_LB_BMS_E033}
                then (c, handleLbBmsStub m i)
           else (c, [CanLog (LogUnknownId i)])
         else
           if i = CAN_ID_MOTOR_STATUS then handleMotorStatus now m c
           else if i = CAN_ID_LB_STD_0x000 then (c, handleLbBmsStub m i)
           else (c, [CanLog (LogUnknownId i)]))"

text \<open>
  What one \<open>twai_receive(&msg, 0)\<close> returns: a frame (with the tick at which it is handled),
  \<open>ESP_ERR_TIMEOUT\<close>, or another error.
\<close>

datatype twai_rx = RxFrame TickType_t twai_message_t | RxTimeout | RxError

text \<open>The receive loop with its bound as first argument; an exhausted input is an empty queue.\<close>

fun rx_loop :: "nat \<Rightarrow> twai_rx list \<Rightarrow> CanManager \<Rightarrow> CanManager \<times> can_out list" where
  "rx_loop 0 rx c = (c, [])"
| "rx_loop (Suc n) [] c = (c, [])"
| "rx_loop (Suc n) (RxTimeout # rx) c = (c, [])"
| "rx_loop (Suc n) (RxError # rx) c = (c, [CanLog LogRxError])"
| "rx_loop (Suc n) (RxFrame now m # rx) c =
     (let (c1, o1) = dispatchFrame now m c;
          (c2, o2) = rx_loop n rx c1
      in (c2, o1 @ o2))"

definition CAN_MAX_FRAMES :: nat where
  [aks_config]: "CAN_MAX_FRAMES = 5"

text \<open>\<open>alerts\<close> is \<open>None\<close> unless \<open>twai_read_alerts\<close> succeeds; else the two alert bits.\<close>

definition handleAlerts ::
  "(bool \<times> bool) option \<Rightarrow> CanManager \<Rightarrow> CanManager \<times> can_out list" where
  "handleAlerts alerts c =
     (case alerts of
        None \<Rightarrow> (c, [])
      | Some (bus_off, recovered) \<Rightarrow>
          let (c1, o1) =
                (if bus_off then
                   (if CM_busOffLogged c then c
                    else c\<lparr>CM_busOffLogged := True, CM_busRecoveredLogged := False\<rparr>,
                    (if CM_busOffLogged c then [] else [CanLog LogBusOff])
                    @ [twai_initiate_recovery])
                 else (c, []));
              (c2, o2) =
                (if recovered then
                   (if CM_busRecoveredLogged c1 then c1
                    else c1\<lparr>CM_busRecoveredLogged := True, CM_busOffLogged := False\<rparr>,
                    (if CM_busRecoveredLogged c1 then [] else [CanLog LogBusRecovered])
                    @ [twai_start])
                 else (c1, []))
          in (c2, o1 @ o2))"

definition updateValidities ::
  "(u32 \<Rightarrow> TickType_t) \<Rightarrow> TickType_t \<times> TickType_t \<times> TickType_t \<Rightarrow> CanManager
     \<Rightarrow> CanManager \<times> can_out list" where
  "updateValidities ms nows c =
     (case nows of (n1, n2, n3) \<Rightarrow>
        let (c1, o1) = updateMotorStatusValidity ms n1 c;
            (c2, o2) = updateBmsValidity ms n2 c1;
            (c3, o3) = updateChargerValidity ms n3 c2
        in (c3, o1 @ o2 @ o3))"

definition processRxMessages ::
  "(u32 \<Rightarrow> TickType_t) \<Rightarrow> (bool \<times> bool) option \<Rightarrow> twai_rx list
     \<Rightarrow> TickType_t \<times> TickType_t \<times> TickType_t \<Rightarrow> CanManager \<Rightarrow> CanManager \<times> can_out list" where
  "processRxMessages ms alerts rx nows c =
     (if \<not> CM_isInitialized c then (c, [])
      else
        let (c1, o1) = handleAlerts alerts c;
            (c2, o2) = rx_loop CAN_MAX_FRAMES rx c1;
            (c3, o3) = updateValidities ms nows c2
        in (c3, o1 @ o2 @ o3))"

end
