(* ===== verification/Freshness.thy ===== *)
theory Freshness
  imports Aks_Prelude
begin

text \<open>
  The interface of a data source with a deadline: a state that accepts some of the frames it is
  fed, remembers the tick of the last accepted one, and is polled with the current tick, on which
  it drops its validity when the last accepted frame is too old. The CAN receiver provides it
  three times (motor status, BMS frame 0xE000, charger command).
\<close>

datatype ('m, 'p) monitor_event = Rx TickType_t 'm | Check 'p

fun monitor_step ::
  "(TickType_t \<Rightarrow> 'm \<Rightarrow> 's \<Rightarrow> 's) \<Rightarrow> ('p \<Rightarrow> 's \<Rightarrow> 's) \<Rightarrow> ('m, 'p) monitor_event \<Rightarrow> 's \<Rightarrow> 's" where
  "monitor_step feed poll (Rx n m) s = feed n m s"
| "monitor_step feed poll (Check p) s = poll p s"

locale freshness_monitor =
  fixes inv :: "'s \<Rightarrow> bool"
    and valid :: "'s \<Rightarrow> bool"
    and last_tick :: "'s \<Rightarrow> TickType_t"
    and accepts :: "'m \<Rightarrow> bool"
    and feed :: "TickType_t \<Rightarrow> 'm \<Rightarrow> 's \<Rightarrow> 's"
    and poll :: "'p \<Rightarrow> 's \<Rightarrow> 's"
    and now :: "'p \<Rightarrow> TickType_t"
    and timeout :: TickType_t
  assumes inv_feed: "inv s \<Longrightarrow> inv (feed n m s)"
    and inv_poll: "inv s \<Longrightarrow> inv (poll p s)"
    and feed_valid: "inv s \<Longrightarrow> valid (feed n m s) \<longleftrightarrow> accepts m \<or> valid s"
    and feed_last: "inv s \<Longrightarrow> last_tick (feed n m s) = (if accepts m then n else last_tick s)"
    and poll_valid: "inv s \<Longrightarrow> valid (poll p s) \<longleftrightarrow> valid s \<and> now p - last_tick s < timeout"
    and poll_last: "inv s \<Longrightarrow> last_tick (poll p s) = last_tick s"
begin

abbreviation step :: "('m, 'p) monitor_event \<Rightarrow> 's \<Rightarrow> 's" where
  "step \<equiv> monitor_step feed poll"

abbreviation quiet :: "('m, 'p) monitor_event list \<Rightarrow> bool" where
  "quiet es \<equiv> (\<forall>n m. Rx n m \<in> set es \<longrightarrow> \<not> accepts m)"

lemma inv_step: "inv s \<Longrightarrow> inv (step e s)"
  by (cases e) (simp_all add: inv_feed inv_poll)

lemma inv_run: "inv s \<Longrightarrow> inv (fold step es s)"
  by (induction es arbitrary: s) (simp_all add: inv_step)

lemma quiet_last: "inv s \<Longrightarrow> quiet es \<Longrightarrow> last_tick (fold step es s) = last_tick s"
proof (induction es arbitrary: s)
  case (Cons e es)
  have "last_tick (step e s) = last_tick s"
    using Cons.prems by (cases e) (auto simp: feed_last poll_last)
  moreover have "quiet es"
    using Cons.prems(2) by (meson list.set_intros(2))
  ultimately show ?case
    using Cons.IH [of "step e s"] Cons.prems(1) by (simp add: inv_step)
qed simp

lemma quiet_valid:
  "inv s \<Longrightarrow> quiet es \<Longrightarrow>
   valid (fold step es s) \<longleftrightarrow>
     valid s \<and> (\<forall>p. Check p \<in> set es \<longrightarrow> now p - last_tick s < timeout)"
proof (induction es arbitrary: s)
  case (Cons e es)
  have q: "quiet es"
    using Cons.prems(2) by (meson list.set_intros(2))
  note IH = Cons.IH [OF inv_step [OF Cons.prems(1)] q, of e]
  show ?case
  proof (cases e)
    case (Rx n m)
    then have "\<not> accepts m" using Cons.prems(2) by simp
    then show ?thesis
      using IH Rx Cons.prems(1) by (simp add: feed_valid feed_last)
  next
    case (Check p)
    then show ?thesis
      using IH Cons.prems(1) by (auto simp: poll_valid poll_last)
  qed
qed simp

text \<open>
  After an accepted frame the source is valid exactly as long as every poll since came in time.
\<close>

lemma valid_after:
  assumes "inv s" "accepts m" "quiet es"
  shows "valid (fold step es (feed n m s)) \<longleftrightarrow>
    (\<forall>p. Check p \<in> set es \<longrightarrow> now p - n < timeout)"
  using assms quiet_valid [OF inv_feed [OF assms(1)], of es n m]
  by (simp add: feed_valid feed_last)

text \<open>A source that went stale stays so until the next accepted frame.\<close>

lemma stale_stays: "inv s \<Longrightarrow> quiet es \<Longrightarrow> \<not> valid s \<Longrightarrow> \<not> valid (fold step es s)"
  by (simp add: quiet_valid)

end

end
