(* ===== verification/Can_Safety.thy ===== *)
theory Can_Safety
  imports Can_Manager Freshness
begin

text \<open>
  What the CAN receiver guarantees: the invariant that ties the published telemetry to the
  receiver's private freshness state, its preservation by every operation, the three freshness
  monitors, and the edge-triggered fault notification.
\<close>

section \<open>The invariant\<close>

definition can_inv :: "CanManager \<Rightarrow> bool" where
  "can_inv c \<longleftrightarrow>
     (\<not> CM_mutex c \<longrightarrow> \<not> CM_isInitialized c) \<and>
     TEL_motorRpm (CM_telemetryData c) = MS_rpm (CM_motorStatus c) \<and>
     TEL_motorErrorFlags (CM_telemetryData c) = MS_errorFlags (CM_motorStatus c) \<and>
     TEL_motorDataValid (CM_telemetryData c) = MS_isValid (CM_motorStatus c) \<and>
     (MS_isValid (CM_motorStatus c) \<longrightarrow> CM_hasSeenMotorStatus c) \<and>
     TEL_motorTimeoutActive (CM_telemetryData c) =
       (CM_hasSeenMotorStatus c \<and> \<not> MS_isValid (CM_motorStatus c)) \<and>
     CM_motorTimeoutLogged c = TEL_motorTimeoutActive (CM_telemetryData c) \<and>
     TEL_bmsDataValid (CM_telemetryData c) = CM_bmsE000Valid c \<and>
     (CM_bmsE000Valid c \<longrightarrow> CM_hasSeen_BmsE000 c) \<and>
     TEL_bmsTimeoutActive (CM_telemetryData c) =
       (CM_hasSeen_BmsE000 c \<and> \<not> CM_bmsE000Valid c) \<and>
     CM_bmsTimeoutLogged c = TEL_bmsTimeoutActive (CM_telemetryData c) \<and>
     CM_bmsPackFaultFlags c =
       (if CM_hasSeen_BmsE000 c
        then packFaultFlags (TEL_bmsPackVoltageDeciV (CM_telemetryData c)) else 0) \<and>
     (CM_chargerValid c \<longrightarrow> CM_hasSeenCharger c) \<and>
     CM_chargerStaleLogged c = (CM_hasSeenCharger c \<and> \<not> CM_chargerValid c)"

text \<open>The telemetry fields no CAN frame ever fills.\<close>

definition never_written :: "TelemetryData \<Rightarrow> bool" where
  "never_written d \<longleftrightarrow>
     TEL_motorTorqueFeedback d = 0 \<and>
     TEL_bmsCellVoltageMaxDeciMv d = 0 \<and> TEL_bmsCellVoltageMinDeciMv d = 0 \<and>
     TEL_bmsSystemState d = 0 \<and> TEL_timestampMs d = 0 \<and> TEL_speedKmhX10 d = 0"

named_theorems can_ops "definitions of the receiver's operations"

declare handleMotorStatus_def [can_ops] handleLbBmsE000_def [can_ops] handleLbBmsE001_def [can_ops]
  handleCharger1806E5F4_def [can_ops] updateMotorStatusValidity_def [can_ops]
  updateBmsValidity_def [can_ops] updateChargerValidity_def [can_ops]

lemmas can_parsers = parseMotorStatus_def parseLbBmsE000_def parseLbBmsE001_def
  parseCharger1806E5F4_def

lemma inv_new: "can_inv CanManager_new"
  by (simp add: can_inv_def CanManager_new_def MotorStatus_zero_def TelemetryData_zero_def)

lemma inv_begin: "can_inv c \<Longrightarrow> can_inv (fst (snd (CanManager_begin m i s c)))"
  by (auto simp: can_inv_def CanManager_begin_def)

lemma inv_setEventCallback: "can_inv c \<Longrightarrow> can_inv (setEventCallback b c)"
  by (simp add: can_inv_def setEventCallback_def)

lemma inv_handleMotorStatus: "can_inv c \<Longrightarrow> can_inv (fst (handleMotorStatus n m c))"
  by (simp add: can_inv_def handleMotorStatus_def parseMotorStatus_def Let_def)

lemma inv_handleLbBmsE000: "can_inv c \<Longrightarrow> can_inv (fst (handleLbBmsE000 n m c))"
  by (simp add: can_inv_def handleLbBmsE000_def parseLbBmsE000_def Let_def)

lemma inv_handleLbBmsE001: "can_inv c \<Longrightarrow> can_inv (fst (handleLbBmsE001 m c))"
  by (simp add: can_inv_def handleLbBmsE001_def parseLbBmsE001_def Let_def)

lemma inv_handleCharger: "can_inv c \<Longrightarrow> can_inv (fst (handleCharger1806E5F4 n m c))"
  by (simp add: can_inv_def handleCharger1806E5F4_def parseCharger1806E5F4_def)

lemma inv_updateMotor: "can_inv c \<Longrightarrow> can_inv (fst (updateMotorStatusValidity ms n c))"
  by (simp add: can_inv_def updateMotorStatusValidity_def isMotorStatusTimedOut_def)

lemma inv_updateBms: "can_inv c \<Longrightarrow> can_inv (fst (updateBmsValidity ms n c))"
  by (auto simp: can_inv_def updateBmsValidity_def isBmsStatusTimedOut_def Let_def)

lemma inv_updateCharger: "can_inv c \<Longrightarrow> can_inv (fst (updateChargerValidity ms n c))"
  by (simp add: can_inv_def updateChargerValidity_def isBmsStatusTimedOut_def)

lemmas inv_handlers = inv_handleMotorStatus inv_handleLbBmsE000 inv_handleLbBmsE001
  inv_handleCharger

lemma inv_dispatch: "can_inv c \<Longrightarrow> can_inv (fst (dispatchFrame n m c))"
  by (simp add: dispatchFrame_def Let_def inv_handlers)

lemma inv_validities: "can_inv c \<Longrightarrow> can_inv (fst (updateValidities ms ns c))"
  by (simp add: updateValidities_def case_prod_beta Let_def inv_updateMotor inv_updateBms
      inv_updateCharger split: prod.split)

lemma inv_alerts: "can_inv c \<Longrightarrow> can_inv (fst (handleAlerts a c))"
  by (auto simp: can_inv_def handleAlerts_def Let_def split: option.split prod.split)

text \<open>The receive loop through the projections, with an induction rule to match.\<close>

lemma rx_loop_frame [simp]:
  "rx_loop (Suc n) (RxFrame now m # rx) c =
     (fst (rx_loop n rx (fst (dispatchFrame now m c))),
      snd (dispatchFrame now m c) @ snd (rx_loop n rx (fst (dispatchFrame now m c))))"
  by (simp add: case_prod_beta Let_def)

declare rx_loop.simps(5) [simp del]

lemma rx_loop_induct [case_names zero empty timeout error frame]:
  assumes "\<And>rx c. P 0 rx c" "\<And>n c. P (Suc n) [] c"
    and "\<And>n rx c. P (Suc n) (RxTimeout # rx) c" "\<And>n rx c. P (Suc n) (RxError # rx) c"
    and "\<And>n now m rx c. P n rx (fst (dispatchFrame now m c)) \<Longrightarrow> P (Suc n) (RxFrame now m # rx) c"
  shows "P n rx c"
proof (induction n rx c rule: rx_loop.induct)
  case (5 n now m rx c)
  have "P n rx (fst (dispatchFrame now m c))"
    by (rule 5) (simp_all add: prod_eq_iff)
  then show ?case by (rule assms(5))
qed (rule assms)+

lemma inv_rx_loop: "can_inv c \<Longrightarrow> can_inv (fst (rx_loop n rx c))"
  by (induction n rx c rule: rx_loop_induct) (simp_all add: inv_dispatch)

lemma inv_process: "can_inv c \<Longrightarrow> can_inv (fst (processRxMessages ms a rx ns c))"
  by (simp add: processRxMessages_def case_prod_beta Let_def inv_alerts inv_rx_loop inv_validities)

section \<open>What the operations leave alone\<close>

lemma motor_frame_rule [simp]:
  "CM_mutex (fst (handleMotorStatus n m c)) = CM_mutex c"
  "CM_eventCallback (fst (handleMotorStatus n m c)) = CM_eventCallback c"
  "CM_bmsPackFaultFlags (fst (handleMotorStatus n m c)) = CM_bmsPackFaultFlags c"
  "TEL_bmsDataValid (CM_telemetryData (fst (handleMotorStatus n m c))) =
     TEL_bmsDataValid (CM_telemetryData c)"
  "CM_lastBmsE000Tick (fst (handleMotorStatus n m c)) = CM_lastBmsE000Tick c"
  "CM_chargerValid (fst (handleMotorStatus n m c)) = CM_chargerValid c"
  "CM_lastChargerTick (fst (handleMotorStatus n m c)) = CM_lastChargerTick c"
  by (simp_all add: handleMotorStatus_def Let_def split: option.split)

lemma e000_frame_rule [simp]:
  "CM_mutex (fst (handleLbBmsE000 n m c)) = CM_mutex c"
  "CM_eventCallback (fst (handleLbBmsE000 n m c)) = CM_eventCallback c"
  "CM_motorStatus (fst (handleLbBmsE000 n m c)) = CM_motorStatus c"
  "TEL_motorDataValid (CM_telemetryData (fst (handleLbBmsE000 n m c))) =
     TEL_motorDataValid (CM_telemetryData c)"
  "CM_lastMotorStatusTick (fst (handleLbBmsE000 n m c)) = CM_lastMotorStatusTick c"
  "CM_chargerValid (fst (handleLbBmsE000 n m c)) = CM_chargerValid c"
  "CM_lastChargerTick (fst (handleLbBmsE000 n m c)) = CM_lastChargerTick c"
  by (simp_all add: handleLbBmsE000_def Let_def split: option.split)

lemma e001_frame_rule [simp]:
  "CM_mutex (fst (handleLbBmsE001 m c)) = CM_mutex c"
  "CM_eventCallback (fst (handleLbBmsE001 m c)) = CM_eventCallback c"
  "CM_motorStatus (fst (handleLbBmsE001 m c)) = CM_motorStatus c"
  "CM_bmsPackFaultFlags (fst (handleLbBmsE001 m c)) = CM_bmsPackFaultFlags c"
  "TEL_motorDataValid (CM_telemetryData (fst (handleLbBmsE001 m c))) =
     TEL_motorDataValid (CM_telemetryData c)"
  "TEL_bmsDataValid (CM_telemetryData (fst (handleLbBmsE001 m c))) =
     TEL_bmsDataValid (CM_telemetryData c)"
  "CM_lastMotorStatusTick (fst (handleLbBmsE001 m c)) = CM_lastMotorStatusTick c"
  "CM_lastBmsE000Tick (fst (handleLbBmsE001 m c)) = CM_lastBmsE000Tick c"
  "CM_chargerValid (fst (handleLbBmsE001 m c)) = CM_chargerValid c"
  "CM_lastChargerTick (fst (handleLbBmsE001 m c)) = CM_lastChargerTick c"
  by (simp_all add: handleLbBmsE001_def split: option.split)

lemma charger_frame_rule [simp]:
  "CM_mutex (fst (handleCharger1806E5F4 n m c)) = CM_mutex c"
  "CM_eventCallback (fst (handleCharger1806E5F4 n m c)) = CM_eventCallback c"
  "CM_motorStatus (fst (handleCharger1806E5F4 n m c)) = CM_motorStatus c"
  "CM_bmsPackFaultFlags (fst (handleCharger1806E5F4 n m c)) = CM_bmsPackFaultFlags c"
  "CM_telemetryData (fst (handleCharger1806E5F4 n m c)) = CM_telemetryData c"
  "CM_lastMotorStatusTick (fst (handleCharger1806E5F4 n m c)) = CM_lastMotorStatusTick c"
  "CM_lastBmsE000Tick (fst (handleCharger1806E5F4 n m c)) = CM_lastBmsE000Tick c"
  by (simp_all add: handleCharger1806E5F4_def split: option.split)

text \<open>The four frames that are decoded, and the rest, which touch no state.\<close>

datatype frame_kind = FK_motor | FK_e000 | FK_e001 | FK_charger | FK_other

definition frame_kind_of :: "twai_message_t \<Rightarrow> frame_kind" where
  "frame_kind_of m =
     (if \<not> MSG_extd m then
        if MSG_identifier m = CAN_ID_MOTOR_STATUS then FK_motor else FK_other
      else if MSG_identifier m = CAN_ID_LB_BMS_E000 then FK_e000
      else if MSG_identifier m = CAN_ID_LB_CHARGER_CMD then FK_charger
      else if MSG_identifier m = CAN_ID_LB_BMS_E001 then FK_e001
      else FK_other)"

lemma frame_kind_ids:
  "frame_kind_of m = FK_motor \<Longrightarrow> \<not> MSG_extd m \<and> MSG_identifier m = CAN_ID_MOTOR_STATUS"
  "frame_kind_of m = FK_e000 \<Longrightarrow> MSG_extd m \<and> MSG_identifier m = CAN_ID_LB_BMS_E000"
  "frame_kind_of m = FK_charger \<Longrightarrow> MSG_extd m \<and> MSG_identifier m = CAN_ID_LB_CHARGER_CMD"
  "frame_kind_of m = FK_e001 \<Longrightarrow> MSG_extd m \<and> MSG_identifier m = CAN_ID_LB_BMS_E001"
  by (simp_all add: frame_kind_of_def split: if_split_asm)

lemma can_ids_distinct:
  "CAN_ID_LB_CHARGER_CMD \<noteq> CAN_ID_LB_BMS_E000" "CAN_ID_LB_BMS_E001 \<noteq> CAN_ID_LB_BMS_E000"
  "CAN_ID_LB_BMS_E001 \<noteq> CAN_ID_LB_CHARGER_CMD"
  by (simp_all add: CAN_ID_LB_CHARGER_CMD_def CAN_ID_LB_BMS_E000_def CAN_ID_LB_BMS_E001_def)

lemma dispatch_kind:
  "frame_kind_of m = FK_motor \<Longrightarrow> dispatchFrame n m c = handleMotorStatus n m c"
  "frame_kind_of m = FK_e000 \<Longrightarrow> dispatchFrame n m c = handleLbBmsE000 n m c"
  "frame_kind_of m = FK_charger \<Longrightarrow> dispatchFrame n m c = handleCharger1806E5F4 n m c"
  "frame_kind_of m = FK_e001 \<Longrightarrow> dispatchFrame n m c = handleLbBmsE001 m c"
  by (drule frame_kind_ids, simp only: dispatchFrame_def Let_def can_ids_distinct
      simp_thms if_True if_False)+

lemma stub_no_event: "EventCallback e \<notin> set (handleLbBmsStub m i)"
  by (simp add: handleLbBmsStub_def)

lemma dispatch_other:
  "frame_kind_of m = FK_other \<Longrightarrow>
     fst (dispatchFrame n m c) = c \<and> EventCallback e \<notin> set (snd (dispatchFrame n m c))"
  unfolding dispatchFrame_def frame_kind_of_def Let_def
  by (cases "MSG_extd m"; cases "MSG_identifier m = CAN_ID_LB_BMS_E000";
      cases "MSG_identifier m = CAN_ID_LB_CHARGER_CMD";
      cases "MSG_identifier m = CAN_ID_LB_BMS_E001";
      cases "MSG_identifier m = CAN_ID_MOTOR_STATUS") (simp_all add: stub_no_event)

lemma dispatch_other_state: "frame_kind_of m = FK_other \<Longrightarrow> fst (dispatchFrame n m c) = c"
  by (simp add: dispatch_other)

lemmas dispatch_kinds = dispatch_kind dispatch_other_state

lemma mutex_dispatch [simp]:
  "CM_mutex (fst (dispatchFrame n m c)) = CM_mutex c"
  "CM_eventCallback (fst (dispatchFrame n m c)) = CM_eventCallback c"
  by (cases "frame_kind_of m"; simp add: dispatch_kinds)+

lemma mutex_updates [simp]:
  "CM_mutex (fst (updateMotorStatusValidity ms n c)) = CM_mutex c"
  "CM_mutex (fst (updateBmsValidity ms n c)) = CM_mutex c"
  "CM_mutex (fst (updateChargerValidity ms n c)) = CM_mutex c"
  by (simp_all add: can_ops Let_def)

lemma mutex_validities [simp]: "CM_mutex (fst (updateValidities ms ns c)) = CM_mutex c"
  by (simp add: updateValidities_def case_prod_beta Let_def)

lemma fst_updateValidities:
  "fst (updateValidities ms ns c) =
     fst (updateChargerValidity ms (snd (snd ns))
       (fst (updateBmsValidity ms (fst (snd ns)) (fst (updateMotorStatusValidity ms (fst ns) c)))))"
  by (simp add: updateValidities_def case_prod_beta Let_def)

lemma never_written_handlers:
  assumes "never_written (CM_telemetryData c)"
  shows "never_written (CM_telemetryData (fst (handleMotorStatus n m c)))"
    "never_written (CM_telemetryData (fst (handleLbBmsE000 n m c)))"
    "never_written (CM_telemetryData (fst (handleLbBmsE001 m c)))"
    "never_written (CM_telemetryData (fst (handleCharger1806E5F4 n m c)))"
    "never_written (CM_telemetryData (fst (updateMotorStatusValidity ms n c)))"
    "never_written (CM_telemetryData (fst (updateBmsValidity ms n c)))"
    "never_written (CM_telemetryData (fst (updateChargerValidity ms n c)))"
  using assms by (simp_all add: can_ops Let_def never_written_def split: option.split)

lemma never_written_dispatch:
  "never_written (CM_telemetryData c) \<Longrightarrow>
   never_written (CM_telemetryData (fst (dispatchFrame n m c)))"
  by (cases "frame_kind_of m") (simp_all add: dispatch_kinds never_written_handlers)

lemma never_written_validities:
  "never_written (CM_telemetryData c) \<Longrightarrow>
   never_written (CM_telemetryData (fst (updateValidities ms ns c)))"
  by (simp add: fst_updateValidities never_written_handlers)

lemma never_written_rx_loop:
  "never_written (CM_telemetryData c) \<Longrightarrow>
   never_written (CM_telemetryData (fst (rx_loop n rx c)))"
  by (induction n rx c rule: rx_loop_induct) (simp_all add: never_written_dispatch)

lemma telemetry_alerts [simp]:
  "CM_telemetryData (fst (handleAlerts a c)) = CM_telemetryData c"
  "CM_mutex (fst (handleAlerts a c)) = CM_mutex c"
  "CM_eventCallback (fst (handleAlerts a c)) = CM_eventCallback c"
  "CM_bmsPackFaultFlags (fst (handleAlerts a c)) = CM_bmsPackFaultFlags c"
  by (simp_all add: handleAlerts_def Let_def split: option.split prod.split)

lemma never_written_process:
  "never_written (CM_telemetryData c) \<Longrightarrow>
   never_written (CM_telemetryData (fst (processRxMessages ms a rx ns c)))"
  by (simp add: processRxMessages_def case_prod_beta Let_def never_written_rx_loop
      never_written_validities)

section \<open>The three freshness monitors\<close>

definition can_live :: "CanManager \<Rightarrow> bool" where
  "can_live c \<longleftrightarrow> can_inv c \<and> CM_mutex c"

definition can_feed :: "TickType_t \<Rightarrow> twai_message_t \<Rightarrow> CanManager \<Rightarrow> CanManager" where
  "can_feed n m c = fst (dispatchFrame n m c)"

definition can_poll ::
  "(u32 \<Rightarrow> TickType_t) \<Rightarrow> TickType_t \<times> TickType_t \<times> TickType_t \<Rightarrow> CanManager \<Rightarrow> CanManager" where
  "can_poll ms ns c = fst (updateValidities ms ns c)"

definition accepts_motor :: "twai_message_t \<Rightarrow> bool" where
  "accepts_motor m \<longleftrightarrow> frame_kind_of m = FK_motor \<and> 4 \<le> dlc m"

definition accepts_bms :: "twai_message_t \<Rightarrow> bool" where
  "accepts_bms m \<longleftrightarrow> frame_kind_of m = FK_e000 \<and> 8 \<le> dlc m"

definition accepts_charger :: "twai_message_t \<Rightarrow> bool" where
  "accepts_charger m \<longleftrightarrow> frame_kind_of m = FK_charger \<and> 4 \<le> dlc m"

lemmas can_monitor_defs = can_live_def can_feed_def can_poll_def

lemmas can_validity_defs = can_ops Let_def can_inv_def isMotorStatusTimedOut_def
  isBmsStatusTimedOut_def not_le

text \<open>What each freshness update does to the three sources.\<close>

lemma update_ticks [simp]:
  "CM_lastMotorStatusTick (fst (updateMotorStatusValidity ms n c)) = CM_lastMotorStatusTick c"
  "CM_lastMotorStatusTick (fst (updateBmsValidity ms n c)) = CM_lastMotorStatusTick c"
  "CM_lastMotorStatusTick (fst (updateChargerValidity ms n c)) = CM_lastMotorStatusTick c"
  "CM_lastBmsE000Tick (fst (updateMotorStatusValidity ms n c)) = CM_lastBmsE000Tick c"
  "CM_lastBmsE000Tick (fst (updateBmsValidity ms n c)) = CM_lastBmsE000Tick c"
  "CM_lastBmsE000Tick (fst (updateChargerValidity ms n c)) = CM_lastBmsE000Tick c"
  "CM_lastChargerTick (fst (updateMotorStatusValidity ms n c)) = CM_lastChargerTick c"
  "CM_lastChargerTick (fst (updateBmsValidity ms n c)) = CM_lastChargerTick c"
  "CM_lastChargerTick (fst (updateChargerValidity ms n c)) = CM_lastChargerTick c"
  by (simp_all add: can_ops Let_def)

lemma update_others [simp]:
  "TEL_motorDataValid (CM_telemetryData (fst (updateBmsValidity ms n c))) =
     TEL_motorDataValid (CM_telemetryData c)"
  "CM_telemetryData (fst (updateChargerValidity ms n c)) = CM_telemetryData c"
  "TEL_bmsDataValid (CM_telemetryData (fst (updateMotorStatusValidity ms n c))) =
     TEL_bmsDataValid (CM_telemetryData c)"
  "CM_chargerValid (fst (updateMotorStatusValidity ms n c)) = CM_chargerValid c"
  "CM_chargerValid (fst (updateBmsValidity ms n c)) = CM_chargerValid c"
  by (simp_all add: can_ops Let_def)

lemma updateMotor_valid:
  "can_live c \<Longrightarrow> TEL_motorDataValid (CM_telemetryData (fst (updateMotorStatusValidity ms n c))) \<longleftrightarrow>
     TEL_motorDataValid (CM_telemetryData c) \<and>
     n - CM_lastMotorStatusTick c < ms CAN_MOTOR_STATUS_TIMEOUT_MS"
  by (auto simp: can_live_def can_inv_def updateMotorStatusValidity_def isMotorStatusTimedOut_def
      not_le)

lemma updateBms_valid:
  "can_live c \<Longrightarrow> TEL_bmsDataValid (CM_telemetryData (fst (updateBmsValidity ms n c))) \<longleftrightarrow>
     TEL_bmsDataValid (CM_telemetryData c) \<and>
     n - CM_lastBmsE000Tick c < ms CAN_BMS_STATUS_TIMEOUT_MS"
  by (auto simp: can_live_def can_inv_def updateBmsValidity_def isBmsStatusTimedOut_def
      not_le Let_def)

lemma updateCharger_valid:
  "can_live c \<Longrightarrow> CM_chargerValid (fst (updateChargerValidity ms n c)) \<longleftrightarrow>
     CM_chargerValid c \<and> n - CM_lastChargerTick c < ms CAN_CHARGER_TIMEOUT_MS"
  by (auto simp: can_live_def can_inv_def updateChargerValidity_def isBmsStatusTimedOut_def not_le)

lemma live_updates:
  "can_live c \<Longrightarrow> can_live (fst (updateMotorStatusValidity ms n c))"
  "can_live c \<Longrightarrow> can_live (fst (updateBmsValidity ms n c))"
  "can_live c \<Longrightarrow> can_live (fst (updateChargerValidity ms n c))"
  "can_live c \<Longrightarrow> can_live (can_feed n m c)"
  "can_live c \<Longrightarrow> can_live (can_poll ms ns c)"
  by (simp_all add: can_monitor_defs inv_updateMotor inv_updateBms inv_updateCharger inv_dispatch
      inv_validities)

text \<open>What a dispatched frame does to the three sources.\<close>

lemma handler_motor:
  "CM_mutex c \<Longrightarrow> TEL_motorDataValid (CM_telemetryData (fst (handleMotorStatus n m c))) \<longleftrightarrow>
     4 \<le> dlc m \<or> TEL_motorDataValid (CM_telemetryData c)"
  "CM_mutex c \<Longrightarrow> CM_lastMotorStatusTick (fst (handleMotorStatus n m c)) =
     (if 4 \<le> dlc m then n else CM_lastMotorStatusTick c)"
  by (simp_all add: handleMotorStatus_def parseMotorStatus_def Let_def)

lemma handler_bms:
  "CM_mutex c \<Longrightarrow> TEL_bmsDataValid (CM_telemetryData (fst (handleLbBmsE000 n m c))) \<longleftrightarrow>
     8 \<le> dlc m \<or> TEL_bmsDataValid (CM_telemetryData c)"
  "CM_mutex c \<Longrightarrow> CM_lastBmsE000Tick (fst (handleLbBmsE000 n m c)) =
     (if 8 \<le> dlc m then n else CM_lastBmsE000Tick c)"
  by (simp_all add: handleLbBmsE000_def parseLbBmsE000_def Let_def)

lemma handler_charger:
  "CM_mutex c \<Longrightarrow> CM_chargerValid (fst (handleCharger1806E5F4 n m c)) \<longleftrightarrow>
     4 \<le> dlc m \<or> CM_chargerValid c"
  "CM_mutex c \<Longrightarrow> CM_lastChargerTick (fst (handleCharger1806E5F4 n m c)) =
     (if 4 \<le> dlc m then n else CM_lastChargerTick c)"
  by (simp_all add: handleCharger1806E5F4_def parseCharger1806E5F4_def)

lemma feed_motor:
  "can_live c \<Longrightarrow> TEL_motorDataValid (CM_telemetryData (can_feed n m c)) \<longleftrightarrow>
     accepts_motor m \<or> TEL_motorDataValid (CM_telemetryData c)"
  "can_live c \<Longrightarrow> CM_lastMotorStatusTick (can_feed n m c) =
     (if accepts_motor m then n else CM_lastMotorStatusTick c)"
  unfolding can_monitor_defs accepts_motor_def
  by (cases "frame_kind_of m"; simp add: dispatch_kinds handler_motor)+

lemma feed_bms:
  "can_live c \<Longrightarrow> TEL_bmsDataValid (CM_telemetryData (can_feed n m c)) \<longleftrightarrow>
     accepts_bms m \<or> TEL_bmsDataValid (CM_telemetryData c)"
  "can_live c \<Longrightarrow> CM_lastBmsE000Tick (can_feed n m c) =
     (if accepts_bms m then n else CM_lastBmsE000Tick c)"
  unfolding can_monitor_defs accepts_bms_def
  by (cases "frame_kind_of m"; simp add: dispatch_kinds handler_bms)+

lemma feed_charger:
  "can_live c \<Longrightarrow> CM_chargerValid (can_feed n m c) \<longleftrightarrow> accepts_charger m \<or> CM_chargerValid c"
  "can_live c \<Longrightarrow> CM_lastChargerTick (can_feed n m c) =
     (if accepts_charger m then n else CM_lastChargerTick c)"
  unfolding can_monitor_defs accepts_charger_def
  by (cases "frame_kind_of m"; simp add: dispatch_kinds handler_charger)+

text \<open>A source once seen stays seen.\<close>

lemma seen_dispatch:
  "CM_hasSeen_BmsE000 c \<Longrightarrow> CM_hasSeen_BmsE000 (fst (handleMotorStatus n m c))"
  "CM_hasSeen_BmsE000 c \<Longrightarrow> CM_hasSeen_BmsE000 (fst (handleLbBmsE000 n m c))"
  "CM_hasSeen_BmsE000 c \<Longrightarrow> CM_hasSeen_BmsE000 (fst (handleLbBmsE001 m c))"
  "CM_hasSeen_BmsE000 c \<Longrightarrow> CM_hasSeen_BmsE000 (fst (handleCharger1806E5F4 n m c))"
  "CM_hasSeen_BmsE000 c \<Longrightarrow> CM_hasSeen_BmsE000 (fst (updateMotorStatusValidity ms n c))"
  "CM_hasSeen_BmsE000 c \<Longrightarrow> CM_hasSeen_BmsE000 (fst (updateBmsValidity ms n c))"
  "CM_hasSeen_BmsE000 c \<Longrightarrow> CM_hasSeen_BmsE000 (fst (updateChargerValidity ms n c))"
  by (simp_all add: can_ops Let_def split: option.split)

lemma seen_step:
  "CM_hasSeen_BmsE000 c \<Longrightarrow> CM_hasSeen_BmsE000 (monitor_step can_feed (can_poll ms) e c)"
proof (cases e)
  case (Rx n m)
  assume "CM_hasSeen_BmsE000 c"
  with Rx show ?thesis
    by (cases "frame_kind_of m") (simp_all add: can_feed_def dispatch_kinds seen_dispatch)
qed (simp add: can_poll_def fst_updateValidities seen_dispatch)

lemma seen_stays:
  "CM_hasSeen_BmsE000 c \<Longrightarrow> CM_hasSeen_BmsE000 (fold (monitor_step can_feed (can_poll ms)) es c)"
  by (induction es arbitrary: c) (simp_all add: seen_step)

lemmas poll_simps = can_poll_def fst_updateValidities

interpretation motor: freshness_monitor can_live
  "\<lambda>c. TEL_motorDataValid (CM_telemetryData c)" CM_lastMotorStatusTick accepts_motor
  can_feed "can_poll ms" fst "ms CAN_MOTOR_STATUS_TIMEOUT_MS"
  by standard (simp_all add: live_updates feed_motor poll_simps updateMotor_valid)

interpretation bms: freshness_monitor can_live
  "\<lambda>c. TEL_bmsDataValid (CM_telemetryData c)" CM_lastBmsE000Tick accepts_bms
  can_feed "can_poll ms" "\<lambda>p. fst (snd p)" "ms CAN_BMS_STATUS_TIMEOUT_MS"
  by standard (simp_all add: live_updates feed_bms poll_simps updateBms_valid)

interpretation charger: freshness_monitor can_live
  CM_chargerValid CM_lastChargerTick accepts_charger
  can_feed "can_poll ms" "\<lambda>p. snd (snd p)" "ms CAN_CHARGER_TIMEOUT_MS"
  by standard (simp_all add: live_updates feed_charger poll_simps updateCharger_valid)

section \<open>Fault notification\<close>

abbreviation fault_event :: can_out where
  "fault_event \<equiv> EventCallback CE_FAULT_DETECTED"

lemma notify_event:
  "EventCallback e \<in> set (notifyFaultIfNeeded prev cur src c) \<longleftrightarrow>
     e = CE_FAULT_DETECTED \<and> CM_eventCallback c \<and> cur \<noteq> 0 \<and> cur \<noteq> prev"
  by (auto simp: notifyFaultIfNeeded_def)

lemma motor_event:
  "EventCallback e \<in> set (snd (handleMotorStatus n m c)) \<longleftrightarrow>
     e = CE_FAULT_DETECTED \<and> CM_eventCallback c \<and> CM_mutex c \<and> 5 \<le> dlc m \<and>
     byte m 4 \<noteq> 0 \<and> byte m 4 \<noteq> MS_errorFlags (CM_motorStatus c)"
  by (auto simp: handleMotorStatus_def parseMotorStatus_def Let_def notify_event)

lemma e000_event:
  "EventCallback e \<in> set (snd (handleLbBmsE000 n m c)) \<longleftrightarrow>
     e = CE_FAULT_DETECTED \<and> CM_eventCallback c \<and> CM_mutex c \<and> 8 \<le> dlc m \<and>
     packFaultFlags (be16 (byte m 2) (byte m 3)) \<noteq> 0 \<and>
     packFaultFlags (be16 (byte m 2) (byte m 3)) \<noteq> CM_bmsPackFaultFlags c"
  by (auto simp: handleLbBmsE000_def parseLbBmsE000_def Let_def notify_event)

lemma quiet_handlers:
  "EventCallback e \<notin> set (snd (handleLbBmsE001 m c))"
  "EventCallback e \<notin> set (snd (handleCharger1806E5F4 n m c))"
  "EventCallback e \<notin> set (snd (updateMotorStatusValidity ms n c))"
  "EventCallback e \<notin> set (snd (updateBmsValidity ms n c))"
  "EventCallback e \<notin> set (snd (updateChargerValidity ms n c))"
  by (simp_all add: can_ops Let_def split: option.split)

lemma e000_flags:
  "CM_mutex c \<Longrightarrow> CM_bmsPackFaultFlags (fst (handleLbBmsE000 n m c)) =
     (if 8 \<le> dlc m then packFaultFlags (be16 (byte m 2) (byte m 3)) else CM_bmsPackFaultFlags c)"
  by (simp add: handleLbBmsE000_def parseLbBmsE000_def Let_def)

lemma flags_no_mutex: "\<not> CM_mutex c \<Longrightarrow>
    CM_bmsPackFaultFlags (fst (handleLbBmsE000 n m c)) = CM_bmsPackFaultFlags c"
  by (simp add: handleLbBmsE000_def)

lemma packFaultFlags_cases:
  "packFaultFlags v = (if v \<le> 600 then 1 else if 876 \<le> v then 2 else 0)"
  by (auto simp: packFaultFlags_def checkPackVoltageFault_def Let_def aks_config)

text \<open>A change of the pack flags to a fault value is always announced.\<close>

lemma dispatch_flags_event:
  "CM_eventCallback c \<Longrightarrow>
   CM_bmsPackFaultFlags (fst (dispatchFrame n m c)) \<notin> {0, CM_bmsPackFaultFlags c} \<Longrightarrow>
   fault_event \<in> set (snd (dispatchFrame n m c))"
  by (cases "frame_kind_of m"; cases "CM_mutex c")
    (auto simp: dispatch_kinds e000_event e000_flags flags_no_mutex split: if_splits)

lemma rx_loop_flags_event:
  "CM_eventCallback c \<Longrightarrow>
   CM_bmsPackFaultFlags (fst (rx_loop n rx c)) \<notin> {0, CM_bmsPackFaultFlags c} \<Longrightarrow>
   fault_event \<in> set (snd (rx_loop n rx c))"
proof (induction n rx c rule: rx_loop_induct)
  case (frame n now m rx c)
  show ?case
  proof (cases "CM_bmsPackFaultFlags (fst (dispatchFrame now m c)) \<in> {0, CM_bmsPackFaultFlags c}")
    case True
    then show ?thesis using frame by auto
  next
    case False
    then show ?thesis using frame.prems(1) dispatch_flags_event by auto
  qed
qed auto

lemma flags_validities [simp]:
  "CM_bmsPackFaultFlags (fst (updateMotorStatusValidity ms n c)) = CM_bmsPackFaultFlags c"
  "CM_bmsPackFaultFlags (fst (updateBmsValidity ms n c)) = CM_bmsPackFaultFlags c"
  "CM_bmsPackFaultFlags (fst (updateChargerValidity ms n c)) = CM_bmsPackFaultFlags c"
  by (simp_all add: can_ops Let_def)

text \<open>The receive loop reads at most its bound.\<close>

lemma rx_loop_take: "rx_loop n (take n rx) c = rx_loop n rx c"
  by (induction n rx c rule: rx_loop_induct) simp_all

text \<open>A whole call as a trace of the monitors' events.\<close>

fun monitor_events :: "nat \<Rightarrow> twai_rx list \<Rightarrow> (twai_message_t, 'p) monitor_event list" where
  "monitor_events (Suc n) (RxFrame now m # rx) = Rx now m # monitor_events n rx"
| "monitor_events _ _ = []"

lemma fst_rx_loop: "fst (rx_loop n rx c) = fold (monitor_step can_feed poll) (monitor_events n rx) c"
  by (induction n rx c rule: rx_loop_induct) (simp_all add: can_feed_def)

lemma fst_processRxMessages:
  "CM_isInitialized c \<Longrightarrow>
   fst (processRxMessages ms a rx ns c) =
     fold (monitor_step can_feed (can_poll ms)) (monitor_events CAN_MAX_FRAMES rx @ [Check ns])
       (fst (handleAlerts a c))"
  by (simp add: processRxMessages_def case_prod_beta Let_def
      fst_rx_loop [of _ _ _ "can_poll ms"] can_poll_def)

section \<open>Running the receiver\<close>

text \<open>The receiver after \<open>setEventCallback\<close> and \<open>begin\<close>, as \<open>app_main\<close> sets it up.\<close>

definition can_boot :: "bool \<Rightarrow> bool \<Rightarrow> bool \<Rightarrow> CanManager" where
  "can_boot mutex_ok install_ok start_ok =
     fst (snd (CanManager_begin mutex_ok install_ok start_ok (setEventCallback True CanManager_new)))"

type_synonym can_call = "(bool \<times> bool) option \<times> twai_rx list \<times> (TickType_t \<times> TickType_t \<times> TickType_t)"

definition can_run :: "(u32 \<Rightarrow> TickType_t) \<Rightarrow> can_call list \<Rightarrow> CanManager \<Rightarrow> CanManager" where
  "can_run ms calls c = fold (\<lambda>(a, rx, ns) c. fst (processRxMessages ms a rx ns c)) calls c"

lemma can_run_induct:
  assumes "P c" "\<And>c a rx ns. P c \<Longrightarrow> P (fst (processRxMessages ms a rx ns c))"
  shows "P (can_run ms calls c)"
  using assms(1) unfolding can_run_def
  by (induction calls arbitrary: c) (auto intro: assms(2))

lemma inv_boot: "can_inv (can_boot m i s)"
  by (simp add: can_boot_def inv_begin inv_setEventCallback inv_new)

lemma never_written_boot: "never_written (CM_telemetryData (can_boot m i s))"
  by (simp add: can_boot_def CanManager_begin_def setEventCallback_def CanManager_new_def
      never_written_def TelemetryData_zero_def)

lemma boot_simps [simp]:
  "CM_mutex (can_boot True True True)" "CM_isInitialized (can_boot True True True)"
  "CM_eventCallback (can_boot m i s)" "CM_bmsPackFaultFlags (can_boot m i s) = 0"
  "CM_hasSeen_BmsE000 (can_boot m i s) = False"
  by (simp_all add: can_boot_def CanManager_begin_def setEventCallback_def CanManager_new_def)

lemma live_boot: "can_live (can_boot True True True)"
  by (simp add: can_live_def inv_boot)

section \<open>Properties\<close>

text \<open>
  Whatever frames, errors, alerts and ticks the receiver is given after start-up, the
  published telemetry agrees with the receiver's own freshness state: a source is valid only
  after a frame of it was seen, its timeout flag is set exactly when it was seen and is no longer
  valid, the warning was logged exactly in that case, and the pack fault flags are those of the
  published pack voltage.
\<close>

lemma can_state_consistent: "can_inv (can_run ms calls (can_boot m i s))"
  by (rule can_run_induct) (simp_all add: inv_boot inv_process)

text \<open>
  No CAN traffic can fill the torque, the cell voltages, the BMS system state, the timestamp
  or the speed of the published telemetry; they stay zero.
\<close>

lemma can_never_written: "never_written (getTelemetryData (can_run ms calls (can_boot m i s)))"
  unfolding getTelemetryData_def
  by (rule can_run_induct) (simp_all add: never_written_boot never_written_process)

text \<open>
  C18: after an accepted motor frame at tick \<open>n\<close>, and with any other frames handled in between,
  the motor data is published as valid exactly as long as every freshness check so far came less
  than the motor timeout after \<open>n\<close> (in wrapping tick arithmetic).
\<close>

lemma motor_valid_exactly_while_fresh:
  assumes "can_live c" "accepts_motor m"
    and "\<forall>k f. Rx k f \<in> set es \<longrightarrow> \<not> accepts_motor f"
  shows "TEL_motorDataValid (getTelemetryData
      (fold (monitor_step can_feed (can_poll ms)) es (fst (dispatchFrame n m c)))) \<longleftrightarrow>
    (\<forall>p. Check p \<in> set es \<longrightarrow> fst p - n < ms CAN_MOTOR_STATUS_TIMEOUT_MS)"
  using motor.valid_after [OF assms] by (simp add: getTelemetryData_def can_feed_def)

definition motor_msg :: twai_message_t where
  "motor_msg = motor_frame 3000 0 0"

lemma accepts_motor_msg: "accepts_motor motor_msg"
  by (simp add: accepts_motor_def frame_kind_of_def motor_msg_def motor_frame_def aks_config)

lemma motor_valid_exactly_while_fresh_witness:
  "\<not> TEL_motorDataValid (getTelemetryData
      (fold (monitor_step can_feed (can_poll (\<lambda>ms. ms div 10)))
        [Check (51, 51, 51), Check (9, 9, 9)]
        (fst (dispatchFrame 0xFFFFFFF0 motor_msg (can_boot True True True)))))"
  by (subst motor_valid_exactly_while_fresh [OF live_boot accepts_motor_msg])
    (auto simp: CAN_MOTOR_STATUS_TIMEOUT_MS_def intro: exI [of _ "51 :: u32"])

text \<open>
  The BMS timeout flag that the VCU treats as critical comes up after an accepted BMS frame at
  tick \<open>n\<close> exactly when some later freshness check found the frame at least the BMS timeout old.
\<close>

lemma bms_timeout_exactly_when_stale:
  assumes "can_live c" "accepts_bms m"
    and "\<forall>k f. Rx k f \<in> set es \<longrightarrow> \<not> accepts_bms f"
  shows "TEL_bmsTimeoutActive (getTelemetryData
      (fold (monitor_step can_feed (can_poll ms)) es (fst (dispatchFrame n m c)))) \<longleftrightarrow>
    (\<exists>p. Check p \<in> set es \<and> ms CAN_BMS_STATUS_TIMEOUT_MS \<le> fst (snd p) - n)"
proof -
  let ?c = "fold (monitor_step can_feed (can_poll ms)) es (can_feed n m c)"
  have "can_live ?c"
    by (rule bms.inv_run [OF bms.inv_feed [OF assms(1)]])
  moreover have "CM_hasSeen_BmsE000 (can_feed n m c)"
    using live_updates(4) [OF assms(1), of n m] feed_bms(1) [OF assms(1), of n m] assms(2)
    by (simp add: can_live_def can_inv_def)
  then have "CM_hasSeen_BmsE000 ?c"
    by (rule seen_stays)
  ultimately show ?thesis
    using bms.valid_after [OF assms, of ms n]
    by (auto simp: can_live_def can_inv_def getTelemetryData_def can_feed_def not_less)
qed

definition bms_frame :: "i16 \<Rightarrow> u16 \<Rightarrow> u16 \<Rightarrow> twai_message_t" where
  "bms_frame current packV soc = \<lparr>
     MSG_identifier = 0xE000, MSG_extd = True, MSG_data_length_code = 8,
     MSG_data = [hi8 current, lo8 current, hi8 packV, lo8 packV, hi8 soc, lo8 soc, 0, 0]\<rparr>"

lemma accepts_bms_frame: "accepts_bms (bms_frame i v s)"
  by (simp add: accepts_bms_def frame_kind_of_def bms_frame_def aks_config)

lemma bms_timeout_exactly_when_stale_witness:
  "TEL_bmsTimeoutActive (getTelemetryData
      (fold (monitor_step can_feed (can_poll (\<lambda>ms. ms div 10)))
        [Check (0, 49, 0), Rx 30 motor_msg, Check (0, 50, 0)]
        (fst (dispatchFrame 0 (bms_frame 0 768 8000) (can_boot True True True)))))"
  by (subst bms_timeout_exactly_when_stale [OF live_boot accepts_bms_frame])
    (auto simp: CAN_BMS_STATUS_TIMEOUT_MS_def accepts_bms_def frame_kind_of_def motor_msg_def
      motor_frame_def intro: exI [of _ "0 :: u32"])



text \<open>
  The charger frame, every unknown frame and every undecoded BMS frame are harmless: they
  change neither the published telemetry nor the motor status and raise no fault event.
\<close>

lemma charger_and_unknown_frames_harmless:
  assumes "frame_kind_of m \<in> {FK_charger, FK_other}"
  shows "getTelemetryData (fst (dispatchFrame n m c)) = getTelemetryData c \<and>
    getMotorStatus (fst (dispatchFrame n m c)) = getMotorStatus c \<and>
    EventCallback e \<notin> set (snd (dispatchFrame n m c))"
  using assms
  by (auto simp: getTelemetryData_def getMotorStatus_def dispatch_kind quiet_handlers
      dispatch_other dispatch_other_state)

definition charger_frame :: "u16 \<Rightarrow> u16 \<Rightarrow> twai_message_t" where
  "charger_frame v i = \<lparr>
     MSG_identifier = 0x1806E5F4, MSG_extd = True, MSG_data_length_code = 8,
     MSG_data = [hi8 v, lo8 v, hi8 i, lo8 i, 0, 0, 0, 0]\<rparr>"

lemma charger_and_unknown_frames_harmless_witness:
  "getTelemetryData (fst (dispatchFrame 7 (charger_frame 876 50) (can_boot True True True))) =
     getTelemetryData (can_boot True True True)"
  using charger_and_unknown_frames_harmless
    [of "charger_frame 876 50" 7 "can_boot True True True" CE_FAULT_DETECTED]
  by (simp add: frame_kind_of_def charger_frame_def aks_config)

text \<open>
  One call reads at most five frames from the driver: the sixth and later waiting frames have
  no influence on it.
\<close>

lemma at_most_five_frames:
  "processRxMessages ms a rx ns c = processRxMessages ms a (take 5 rx) ns c"
  using rx_loop_take [of 5] by (simp add: processRxMessages_def CAN_MAX_FRAMES_def)

end
