(* ===== verification/Contactors.thy ===== *)
theory Contactors
  imports Aks_Prelude
begin

text \<open>
  The interface between the vehicle state machine and the relay driver: a bank of ten contactors
  that can be closed or opened as a whole. \<open>VcuLogic\<close> is the client; \<open>RelayManager\<close> and the
  test double \<open>fake_relay_manager\<close> are the providers.
\<close>

definition RELAY_TOTAL_CHANNELS :: nat where
  [aks_config]: "RELAY_TOTAL_CHANNELS = 10"

datatype relay_cmd = AllOn | AllOff (silent: bool)

fun exec_cmd :: "('r \<Rightarrow> 'r) \<Rightarrow> (bool \<Rightarrow> 'r \<Rightarrow> 'r) \<Rightarrow> relay_cmd \<Rightarrow> 'r \<Rightarrow> 'r" where
  "exec_cmd all_on all_off AllOn r = all_on r"
| "exec_cmd all_on all_off (AllOff s) r = all_off s r"

locale contactor_bank =
  fixes inv :: "'r \<Rightarrow> bool"
    and all_on :: "'r \<Rightarrow> 'r"
    and all_off :: "bool \<Rightarrow> 'r \<Rightarrow> 'r"
    and closed :: "'r \<Rightarrow> nat \<Rightarrow> bool"
  assumes inv_on: "inv r \<Longrightarrow> inv (all_on r)"
    and inv_off: "inv r \<Longrightarrow> inv (all_off s r)"
    and on_closed: "inv r \<Longrightarrow> i < RELAY_TOTAL_CHANNELS \<Longrightarrow> closed (all_on r) i"
    and off_open: "inv r \<Longrightarrow> i < RELAY_TOTAL_CHANNELS \<Longrightarrow> \<not> closed (all_off s r) i"
begin

abbreviation exec :: "relay_cmd list \<Rightarrow> 'r \<Rightarrow> 'r" where
  "exec \<equiv> fold (exec_cmd all_on all_off)"

lemma inv_exec: "inv r \<Longrightarrow> inv (exec cmds r)"
proof (induction cmds arbitrary: r)
  case (Cons c cs)
  then show ?case by (cases c) (simp_all add: inv_on inv_off)
qed simp

text \<open>The last command of a sequence decides the state of every contactor.\<close>

lemma closed_exec:
  assumes "inv r" "i < RELAY_TOTAL_CHANNELS"
  shows "closed (exec cmds r) i \<longleftrightarrow>
    (if cmds = [] then closed r i else last cmds = AllOn)"
proof (cases cmds rule: rev_cases)
  case (snoc cs c)
  have "inv (exec cs r)"
    using assms(1) by (rule inv_exec)
  then show ?thesis
    using snoc assms(2) by (cases c) (simp_all add: on_closed off_open)
qed simp

end

end
