(* ===== verification/Event_Queue.thy ===== *)
theory Event_Queue
  imports Aks_Prelude
begin

text \<open>
  The FreeRTOS queue as \<open>VcuLogic\<close> relies on it: a bounded first-in first-out buffer whose send
  fails, without blocking, when it is full. The provider in the repository is the stand-in the
  native tests link (\<open>test/test_native_vcu_logic/fake_freertos.cpp\<close>).
\<close>

section \<open>The interface\<close>

text \<open>Sending, with the queue unchanged when it is full.\<close>

definition queue_offer :: "('e \<Rightarrow> 'q \<Rightarrow> 'q option) \<Rightarrow> 'e \<Rightarrow> 'q \<Rightarrow> 'q" where
  "queue_offer send e q = (case send e q of None \<Rightarrow> q | Some q' \<Rightarrow> q')"

text \<open>The loop that receives until the queue is empty; \<open>None\<close> if that never happens.\<close>

partial_function (option) queue_drain :: "('q \<Rightarrow> ('e \<times> 'q) option) \<Rightarrow> 'q \<Rightarrow> 'q option" where
  "queue_drain recv q = (case recv q of None \<Rightarrow> Some q | Some (e, q') \<Rightarrow> queue_drain recv q')"

locale event_queue =
  fixes send :: "'e \<Rightarrow> 'q \<Rightarrow> 'q option"
    and recv :: "'q \<Rightarrow> ('e \<times> 'q) option"
    and contents :: "'q \<Rightarrow> 'e list"
    and capacity :: nat
    and inv :: "'q \<Rightarrow> bool"
  assumes send_room: "inv q \<Longrightarrow> length (contents q) < capacity \<Longrightarrow>
      \<exists>q'. send e q = Some q' \<and> contents q' = contents q @ [e] \<and> inv q'"
    and send_full: "inv q \<Longrightarrow> capacity \<le> length (contents q) \<Longrightarrow> send e q = None"
    and recv_empty: "inv q \<Longrightarrow> contents q = [] \<Longrightarrow> recv q = None"
    and recv_item: "inv q \<Longrightarrow> contents q = e # es \<Longrightarrow>
      \<exists>q'. recv q = Some (e, q') \<and> contents q' = es \<and> inv q'"
begin

abbreviation offer :: "'e \<Rightarrow> 'q \<Rightarrow> 'q" where
  "offer \<equiv> queue_offer send"

lemma offer_inv: "inv q \<Longrightarrow> inv (offer e q)"
  using send_room [of q e] send_full [of q e] by (cases "length (contents q) < capacity")
    (auto simp: queue_offer_def not_less)

lemma contents_offer:
  "inv q \<Longrightarrow> contents (offer e q) =
     (if length (contents q) < capacity then contents q @ [e] else contents q)"
  using send_room [of q e] send_full [of q e] by (auto simp: queue_offer_def not_less)

lemma recv_cases:
  assumes "inv q"
  obtains "recv q = None" "contents q = []"
  | e q' where "recv q = Some (e, q')" "contents q = e # contents q'" "inv q'"
proof (cases "contents q")
  case Nil
  then show ?thesis using recv_empty [OF assms] that(1) by blast
next
  case (Cons e es)
  then show ?thesis using recv_item [OF assms] that(2) by metis
qed

text \<open>The drain loop ends and leaves the queue empty.\<close>

lemma drain_ends: "inv q \<Longrightarrow> \<exists>q'. queue_drain recv q = Some q' \<and> contents q' = [] \<and> inv q'"
proof (induction "contents q" arbitrary: q)
  case Nil
  then show ?case by (subst queue_drain.simps) (simp add: recv_empty)
next
  case (Cons e es)
  obtain q1 where q1: "recv q = Some (e, q1)" "contents q1 = es" "inv q1"
    using recv_item [OF Cons.prems Cons.hyps(2) [symmetric]] by blast
  from Cons.hyps(1) [of q1] q1 show ?case by (subst queue_drain.simps) simp
qed

text \<open>No event is invented, and the queue never exceeds its capacity.\<close>

lemma offers_bounded:
  "inv q \<Longrightarrow> length (contents q) \<le> capacity \<Longrightarrow>
   length (contents (fold offer es q)) \<le> capacity \<and>
   set (contents (fold offer es q)) \<subseteq> set (contents q) \<union> set es \<and> inv (fold offer es q)"
proof (induction es arbitrary: q)
  case (Cons e es)
  have "length (contents (offer e q)) \<le> capacity"
    "set (contents (offer e q)) \<subseteq> insert e (set (contents q))"
    using Cons.prems by (auto simp: contents_offer)
  with Cons.IH [OF offer_inv [OF Cons.prems(1)], of e] show ?case by auto
qed simp

end

section \<open>The stand-in of the native tests\<close>

record 'e fake_queue =
  FQ_queue :: "'e list"
  FQ_capacity :: nat

definition fake_xQueueCreate :: "nat \<Rightarrow> 'e fake_queue" where
  "fake_xQueueCreate n = \<lparr>FQ_queue = [], FQ_capacity = n\<rparr>"

definition fake_xQueueSend :: "'e \<Rightarrow> 'e fake_queue \<Rightarrow> 'e fake_queue option" where
  "fake_xQueueSend e q =
     (if FQ_capacity q \<le> length (FQ_queue q) then None
      else Some (q\<lparr>FQ_queue := FQ_queue q @ [e]\<rparr>))"

definition fake_xQueueReceive :: "'e fake_queue \<Rightarrow> ('e \<times> 'e fake_queue) option" where
  "fake_xQueueReceive q =
     (case FQ_queue q of [] \<Rightarrow> None | e # es \<Rightarrow> Some (e, q\<lparr>FQ_queue := es\<rparr>))"

definition VCU_QUEUE_LENGTH :: nat where
  [aks_config]: "VCU_QUEUE_LENGTH = 8"

interpretation fake_freertos: event_queue fake_xQueueSend fake_xQueueReceive FQ_queue
  VCU_QUEUE_LENGTH "\<lambda>q. FQ_capacity q = VCU_QUEUE_LENGTH"
  by standard (auto simp: fake_xQueueSend_def fake_xQueueReceive_def not_le)

end
