(* ===== verification/Vcu_Logic.thy ===== *)
theory Vcu_Logic
  imports Can_Manager Contactors Event_Queue
begin

text \<open>
  The vehicle control unit (\<open>src/VcuLogic.h\<close>, \<open>src/VcuLogic.cpp\<close>): the safety predicates on a
  telemetry snapshot and the state machine that \<open>vTask_VCU\<close> runs every 20 ms. A step returns the
  new state and what it does, in order: contactor commands and log lines. The FreeRTOS queue is a
  parameter (\<open>send\<close>, \<open>recv\<close>); the state is polymorphic in the queue.
\<close>

unbundle bit_operations_syntax

section \<open>Safety predicates\<close>

datatype VcuState = VS_INIT | VS_IDLE | VS_READY | VS_DRIVE | VS_EMERGENCY_STOP | VS_FAULT

datatype VcuEvent =
  VE_NONE | VE_START_REQUEST | VE_DRIVE_ENABLE | VE_EMERGENCY_STOP | VE_FAULT_DETECTED | VE_RESET

definition BMS_WARN_MIN_PACK_VOLTAGE_DECI_V :: u16 where
  [aks_config]: "BMS_WARN_MIN_PACK_VOLTAGE_DECI_V = 720"

definition BMS_WARN_MAX_PACK_VOLTAGE_DECI_V :: u16 where
  [aks_config]: "BMS_WARN_MAX_PACK_VOLTAGE_DECI_V = 852"

definition BMS_WARN_MAX_CHARGE_CURRENT_CENTI_MA :: int where
  [aks_config]: "BMS_WARN_MAX_CHARGE_CURRENT_CENTI_MA = 90000"

definition BMS_CRITICAL_MAX_CHARGE_CURRENT_CENTI_MA :: int where
  [aks_config]: "BMS_CRITICAL_MAX_CHARGE_CURRENT_CENTI_MA = 100000"

definition BMS_WARN_MAX_DISCHARGE_CURRENT_CENTI_MA :: int where
  [aks_config]: "BMS_WARN_MAX_DISCHARGE_CURRENT_CENTI_MA = 900000"

definition BMS_CRITICAL_MAX_DISCHARGE_CURRENT_CENTI_MA :: int where
  [aks_config]: "BMS_CRITICAL_MAX_DISCHARGE_CURRENT_CENTI_MA = 1500000"

definition isCurrentCritical :: "i32 \<Rightarrow> bool" where
  "isCurrentCritical i \<longleftrightarrow>
     BMS_CRITICAL_MAX_CHARGE_CURRENT_CENTI_MA \<le> sint i \<or>
     sint i \<le> - BMS_CRITICAL_MAX_DISCHARGE_CURRENT_CENTI_MA"

definition isCurrentWarning :: "i32 \<Rightarrow> bool" where
  "isCurrentWarning i \<longleftrightarrow>
     BMS_WARN_MAX_CHARGE_CURRENT_CENTI_MA \<le> sint i \<or>
     sint i \<le> - BMS_WARN_MAX_DISCHARGE_CURRENT_CENTI_MA"

definition hasWarningCondition :: "TelemetryData \<Rightarrow> bool" where
  "hasWarningCondition d =
     (if \<not> TEL_bmsDataValid d then False
      else TEL_bmsPackVoltageDeciV d \<le> BMS_WARN_MIN_PACK_VOLTAGE_DECI_V \<or>
           BMS_WARN_MAX_PACK_VOLTAGE_DECI_V \<le> TEL_bmsPackVoltageDeciV d)"

definition hasCriticalCondition :: "TelemetryData \<Rightarrow> VcuState \<Rightarrow> bool" where
  "hasCriticalCondition d st =
     (if TEL_motorErrorFlags d \<noteq> 0 \<or> TEL_bmsDataValid d \<and> TEL_bmsSystemState d = 4 then True
      else if TEL_motorTimeoutActive d \<and> st \<noteq> VS_IDLE then True
      else if TEL_bmsTimeoutActive d \<and> st \<noteq> VS_IDLE then True
      else if \<not> TEL_bmsDataValid d then False
      else TEL_bmsPackVoltageDeciV d \<le> BMS_CRITICAL_MIN_PACK_VOLTAGE_DECI_V \<or>
           BMS_CRITICAL_MAX_PACK_VOLTAGE_DECI_V \<le> TEL_bmsPackVoltageDeciV d)"

definition isResetInterlockSatisfied :: "TelemetryData \<Rightarrow> VcuState \<Rightarrow> bool" where
  "isResetInterlockSatisfied d st =
     (if TEL_motorErrorFlags d \<noteq> 0 \<or> TEL_bmsDataValid d \<and> TEL_bmsSystemState d = 4 then False
      else if hasCriticalCondition d st then False
      else True)"

section \<open>State\<close>

definition TASK_PERIOD_MS :: u32 where
  [aks_config]: "TASK_PERIOD_MS = 20"

definition VCU_CONTACTOR_OPEN_DELAY_MS :: u32 where
  [aks_config]: "VCU_CONTACTOR_OPEN_DELAY_MS = 20"

datatype vcu_log =
    LogQueueFailed
  | LogMutexFailed
  | LogTransition VcuState VcuState
  | LogCritical
  | LogWarning
  | LogResetRejected
  | LogReady
  | LogStopPhase VcuState
  | LogStopActive VcuState
  | LogDropped VcuEvent

datatype vcu_act = Relay relay_cmd | VcuLog vcu_log

record 'q Vcu =
  VCU_state :: VcuState
  VCU_eventQueue :: "'q option"
  VCU_stateTimer :: u32
  VCU_latestData :: TelemetryData
  VCU_warningLogged :: bool
  VCU_dataMutex :: bool
  VCU_eStopPending :: bool
  VCU_relaysOpenedInEstop :: bool
  VCU_relaysOpenedInFault :: bool
  VCU_lastEstopLogMs :: u32
  VCU_lastFaultLogMs :: u32

definition Vcu_new :: "'q Vcu" where
  "Vcu_new = \<lparr>
     VCU_state = VS_INIT, VCU_eventQueue = None, VCU_stateTimer = 0,
     VCU_latestData = TelemetryData_zero, VCU_warningLogged = False, VCU_dataMutex = False,
     VCU_eStopPending = False, VCU_relaysOpenedInEstop = False,
     VCU_relaysOpenedInFault = False, VCU_lastEstopLogMs = 0, VCU_lastFaultLogMs = 0\<rparr>"

section \<open>Operations\<close>

definition transitionTo :: "VcuState \<Rightarrow> 'q Vcu \<Rightarrow> 'q Vcu \<times> vcu_act list" where
  "transitionTo next v =
     (let v1 = v\<lparr>VCU_state := next, VCU_stateTimer := 0\<rparr>;
          v2 = (if next = VS_EMERGENCY_STOP then
                  v1\<lparr>VCU_relaysOpenedInEstop := False, VCU_lastEstopLogMs := - 1000\<rparr>
                else if next = VS_FAULT then
                  v1\<lparr>VCU_relaysOpenedInFault := False, VCU_lastFaultLogMs := - 1000\<rparr>
                else v1)
      in (v2, [VcuLog (LogTransition (VCU_state v) next)]))"

text \<open>\<open>queue\<close> and \<open>mutex_ok\<close> are what \<open>xQueueCreate\<close> and \<open>xSemaphoreCreateMutex\<close> deliver.\<close>

definition vcu_init :: "'q option \<Rightarrow> bool \<Rightarrow> 'q Vcu \<Rightarrow> 'q Vcu \<times> vcu_act list" where
  "vcu_init queue mutex_ok v =
     (let v1 = v\<lparr>VCU_eventQueue := queue\<rparr>
      in if queue = None then (v1, [VcuLog LogQueueFailed])
         else
           let v2 = v1\<lparr>VCU_dataMutex := mutex_ok\<rparr>
           in if \<not> mutex_ok then (v2, [VcuLog LogMutexFailed])
              else
                let (v3, acts) = transitionTo VS_IDLE v2
                in (v3, Relay (AllOff False) # acts))"

definition postEvent ::
  "(VcuEvent \<Rightarrow> 'q \<Rightarrow> 'q option) \<Rightarrow> VcuEvent \<Rightarrow> 'q Vcu \<Rightarrow> 'q Vcu \<times> vcu_act list" where
  "postEvent send e v =
     (case VCU_eventQueue v of
        None \<Rightarrow> (v, [])
      | Some q \<Rightarrow>
          if e = VE_EMERGENCY_STOP then (v\<lparr>VCU_eStopPending := True\<rparr>, [])
          else (case send e q of
              None \<Rightarrow> (v, [VcuLog (LogDropped e)])
            | Some q' \<Rightarrow> (v\<lparr>VCU_eventQueue := Some q'\<rparr>, [])))"

definition setTelemetryData :: "TelemetryData \<Rightarrow> 'q Vcu \<Rightarrow> 'q Vcu" where
  "setTelemetryData d v = (if \<not> VCU_dataMutex v then v else v\<lparr>VCU_latestData := d\<rparr>)"

definition getState :: "'q Vcu \<Rightarrow> VcuState" where
  "getState v = VCU_state v"

definition getTelemetrySnapshot :: "'q Vcu \<Rightarrow> TelemetryData" where
  "getTelemetrySnapshot v = VCU_latestData v"

definition pollEvent ::
  "('q \<Rightarrow> (VcuEvent \<times> 'q) option) \<Rightarrow> 'q Vcu \<Rightarrow> (VcuEvent \<times> 'q Vcu) option" where
  "pollEvent recv v =
     (case VCU_eventQueue v of
        None \<Rightarrow> None
      | Some q \<Rightarrow> (case recv q of
            None \<Rightarrow> None
          | Some (e, q') \<Rightarrow> Some (e, v\<lparr>VCU_eventQueue := Some q'\<rparr>)))"

section \<open>Periodic state logic\<close>

definition handleIdle :: "'q Vcu \<Rightarrow> 'q Vcu \<times> vcu_act list" where
  [simp]: "handleIdle v = (v, [])"

definition handleReady :: "'q Vcu \<Rightarrow> 'q Vcu \<times> vcu_act list" where
  "handleReady v =
     (v, if VCU_stateTimer v \<le> TASK_PERIOD_MS then [Relay AllOn, VcuLog LogReady] else [])"

definition handleDrive :: "'q Vcu \<Rightarrow> 'q Vcu \<times> vcu_act list" where
  [simp]: "handleDrive v = (v, [])"

definition handleEmergencyStop :: "'q Vcu \<Rightarrow> 'q Vcu \<times> vcu_act list" where
  "handleEmergencyStop v =
     (let t = VCU_stateTimer v;
          phase = (if t \<le> TASK_PERIOD_MS then [VcuLog (LogStopPhase VS_EMERGENCY_STOP)] else []);
          due = (1000 \<le> t - VCU_lastEstopLogMs v);
          open_now = (VCU_CONTACTOR_OPEN_DELAY_MS \<le> t \<and> \<not> VCU_relaysOpenedInEstop v);
          reassert = (VCU_CONTACTOR_OPEN_DELAY_MS \<le> t \<and> VCU_relaysOpenedInEstop v \<and> due);
          v1 = (if open_now then v\<lparr>VCU_relaysOpenedInEstop := True\<rparr> else v);
          v2 = (if due then v1\<lparr>VCU_lastEstopLogMs := t\<rparr> else v1)
      in (v2, phase
              @ (if open_now then [Relay (AllOff False)]
                 else if reassert then [Relay (AllOff True)] else [])
              @ (if due then [VcuLog (LogStopActive VS_EMERGENCY_STOP)] else [])))"

definition handleFault :: "'q Vcu \<Rightarrow> 'q Vcu \<times> vcu_act list" where
  "handleFault v =
     (let t = VCU_stateTimer v;
          phase = (if t \<le> TASK_PERIOD_MS then [VcuLog (LogStopPhase VS_FAULT)] else []);
          due = (1000 \<le> t - VCU_lastFaultLogMs v);
          open_now = (VCU_CONTACTOR_OPEN_DELAY_MS \<le> t \<and> \<not> VCU_relaysOpenedInFault v);
          reassert = (VCU_CONTACTOR_OPEN_DELAY_MS \<le> t \<and> VCU_relaysOpenedInFault v \<and> due);
          v1 = (if open_now then v\<lparr>VCU_relaysOpenedInFault := True\<rparr> else v);
          v2 = (if due then v1\<lparr>VCU_lastFaultLogMs := t\<rparr> else v1)
      in (v2, phase
              @ (if open_now then [Relay (AllOff False)]
                 else if reassert then [Relay (AllOff True)] else [])
              @ (if due then [VcuLog (LogStopActive VS_FAULT)] else [])))"

definition periodic :: "'q Vcu \<Rightarrow> 'q Vcu \<times> vcu_act list" where
  "periodic v =
     (case VCU_state v of
        VS_IDLE \<Rightarrow> handleIdle v
      | VS_READY \<Rightarrow> handleReady v
      | VS_DRIVE \<Rightarrow> handleDrive v
      | VS_EMERGENCY_STOP \<Rightarrow> handleEmergencyStop v
      | VS_FAULT \<Rightarrow> handleFault v
      | _ \<Rightarrow> (v, []))"

section \<open>The task step\<close>

definition andThen ::
  "'q Vcu \<times> vcu_act list \<Rightarrow> ('q Vcu \<Rightarrow> 'q Vcu \<times> vcu_act list) \<Rightarrow> 'q Vcu \<times> vcu_act list" where
  "andThen p f = (let (v, acts) = p; (v', acts') = f v in (v', acts @ acts'))"

definition updateWarning :: "'q Vcu \<Rightarrow> 'q Vcu \<times> vcu_act list" where
  "updateWarning v =
     (if hasWarningCondition (getTelemetrySnapshot v) then
        if \<not> VCU_warningLogged v then (v\<lparr>VCU_warningLogged := True\<rparr>, [VcuLog LogWarning])
        else (v, [])
      else (v\<lparr>VCU_warningLogged := False\<rparr>, []))"

text \<open>What the step does with a polled event, the rest of the step included.\<close>

definition handleEvent :: "VcuEvent \<Rightarrow> 'q Vcu \<Rightarrow> 'q Vcu \<times> vcu_act list" where
  "handleEvent e v =
     (if e = VE_EMERGENCY_STOP then transitionTo VS_EMERGENCY_STOP v
      else if e = VE_FAULT_DETECTED then transitionTo VS_FAULT v
      else if e = VE_RESET \<and> VCU_state v \<in> {VS_FAULT, VS_EMERGENCY_STOP} then
        if \<not> isResetInterlockSatisfied (getTelemetrySnapshot v) (VCU_state v)
        then (v, [VcuLog LogResetRejected])
        else transitionTo VS_IDLE v
      else andThen
        (case VCU_state v of
           VS_IDLE \<Rightarrow> if e = VE_START_REQUEST then transitionTo VS_READY v else (v, [])
         | VS_READY \<Rightarrow> if e = VE_DRIVE_ENABLE then transitionTo VS_DRIVE v else (v, [])
         | _ \<Rightarrow> (v, []))
        periodic)"

definition vcu_run :: "('q \<Rightarrow> (VcuEvent \<times> 'q) option) \<Rightarrow> 'q Vcu \<Rightarrow> 'q Vcu \<times> vcu_act list" where
  "vcu_run recv v =
     (let v1 = v\<lparr>VCU_stateTimer := VCU_stateTimer v + TASK_PERIOD_MS\<rparr>;
          pending = VCU_eStopPending v1;
          v2 = v1\<lparr>VCU_eStopPending := False\<rparr>
      in if pending \<and> VCU_state v2 \<noteq> VS_EMERGENCY_STOP then transitionTo VS_EMERGENCY_STOP v2
         else if VCU_state v2 \<in> {VS_IDLE, VS_READY, VS_DRIVE} \<and>
                 hasCriticalCondition (getTelemetrySnapshot v2) (VCU_state v2)
         then andThen (v2, [VcuLog LogCritical]) (transitionTo VS_FAULT)
         else andThen (updateWarning v2)
           (\<lambda>v3. case pollEvent recv v3 of
               None \<Rightarrow> periodic v3
             | Some (e, v4) \<Rightarrow> handleEvent e v4))"

section \<open>Traces\<close>

text \<open>What the other tasks and the scheduler do to the unit, in the order they do it.\<close>

datatype vcu_input = Post VcuEvent | Data TelemetryData | Step

fun vcu_input_step ::
  "(VcuEvent \<Rightarrow> 'q \<Rightarrow> 'q option) \<Rightarrow> ('q \<Rightarrow> (VcuEvent \<times> 'q) option) \<Rightarrow> vcu_input \<Rightarrow> 'q Vcu
     \<Rightarrow> 'q Vcu \<times> vcu_act list" where
  "vcu_input_step send recv (Post e) v = postEvent send e v"
| "vcu_input_step send recv (Data d) v = (setTelemetryData d v, [])"
| "vcu_input_step send recv Step v = vcu_run recv v"

fun vcu_trace ::
  "(VcuEvent \<Rightarrow> 'q \<Rightarrow> 'q option) \<Rightarrow> ('q \<Rightarrow> (VcuEvent \<times> 'q) option) \<Rightarrow> vcu_input list \<Rightarrow> 'q Vcu
     \<Rightarrow> 'q Vcu \<times> vcu_act list" where
  "vcu_trace send recv [] v = (v, [])"
| "vcu_trace send recv (i # is) v = andThen (vcu_input_step send recv i v) (vcu_trace send recv is)"

end
