(* ===== verification/Relay_Manager.thy ===== *)
theory Relay_Manager
  imports Contactors
begin

text \<open>
  The relay driver \<open>lib/RelayManager/RelayManager.cpp\<close>: ten active-low relays behind an MCP23S17
  port expander on SPI. An operation returns its new state and the register writes it sends, in
  order. The expander itself is a small register file (\<open>chip\<close>) that the writes are applied to,
  with the reset values the driver's comments rely on: all pins inputs, all latches low.
\<close>

unbundle bit_operations_syntax

section \<open>Registers and state\<close>

definition MCP23S17_IODIRA :: u8 where [aks_config]: "MCP23S17_IODIRA = 0x00"
definition MCP23S17_IODIRB :: u8 where [aks_config]: "MCP23S17_IODIRB = 0x01"
definition MCP23S17_OLATA :: u8 where [aks_config]: "MCP23S17_OLATA = 0x14"
definition MCP23S17_OLATB :: u8 where [aks_config]: "MCP23S17_OLATB = 0x15"

datatype relay_out = SpiWrite u8 u8 | RelayLog string

record RelayManager =
  RM_relayState :: u16
  RM_spiDev :: bool
  RM_initialized :: bool

definition RelayManager_new :: RelayManager where
  "RelayManager_new = \<lparr>RM_relayState = 0, RM_spiDev = False, RM_initialized = False\<rparr>"

section \<open>Operations\<close>

text \<open>The native tests go back to the first state between two tests.\<close>

definition RelayManager_resetForTest :: "RelayManager \<Rightarrow> RelayManager" where
  "RelayManager_resetForTest r =
     r\<lparr>RM_relayState := 0, RM_initialized := False, RM_spiDev := False\<rparr>"

lemma resetForTest_new: "RelayManager_resetForTest r = RelayManager_new"
  by (cases r) (simp add: RelayManager_resetForTest_def RelayManager_new_def)

definition writeRegister :: "u8 \<Rightarrow> u8 \<Rightarrow> RelayManager \<Rightarrow> relay_out list" where
  "writeRegister reg v r = (if \<not> RM_spiDev r then [] else [SpiWrite reg v])"

text \<open>The inputs are the results of \<open>spi_bus_initialize\<close> and \<open>spi_bus_add_device\<close>.\<close>

definition RelayManager_begin ::
  "bool \<Rightarrow> bool \<Rightarrow> RelayManager \<Rightarrow> bool \<times> RelayManager \<times> relay_out list" where
  "RelayManager_begin bus_ok dev_ok r =
     (if \<not> bus_ok then (False, r, [RelayLog ''SPI bus init failed''])
      else if \<not> dev_ok then (False, r, [RelayLog ''SPI device add failed''])
      else
        let r1 = r\<lparr>RM_spiDev := True\<rparr>
        in (True, r1\<lparr>RM_relayState := 0, RM_initialized := True\<rparr>,
            writeRegister MCP23S17_OLATA 0xFF r1 @ writeRegister MCP23S17_OLATB 0xFF r1 @
            writeRegister MCP23S17_IODIRA 0x00 r1 @ writeRegister MCP23S17_IODIRB 0x00 r1 @
            [RelayLog ''initialized'']))"

definition writeLatches :: "u16 \<Rightarrow> RelayManager \<Rightarrow> relay_out list" where
  "writeLatches hw r =
     writeRegister MCP23S17_OLATA (lo8 hw) r @ writeRegister MCP23S17_OLATB (hi8 hw) r"

definition setRelay :: "u8 \<Rightarrow> bool \<Rightarrow> RelayManager \<Rightarrow> RelayManager \<times> relay_out list" where
  "setRelay channel state r =
     (if \<not> RM_initialized r \<or> RELAY_TOTAL_CHANNELS \<le> unat channel
      then (r, [RelayLog ''setRelay: invalid call''])
      else
        let bitmask = push_bit (unat channel) (1 :: u16);
            s = (if state then RM_relayState r OR bitmask else RM_relayState r AND NOT bitmask);
            r1 = r\<lparr>RM_relayState := s\<rparr>
        in (r1, writeLatches (NOT s) r1))"

definition allOn :: "RelayManager \<Rightarrow> RelayManager \<times> relay_out list" where
  "allOn r =
     (if \<not> RM_initialized r then (r, [RelayLog ''allOn called before begin()''])
      else
        let r1 = r\<lparr>RM_relayState := push_bit RELAY_TOTAL_CHANNELS 1 - 1\<rparr>
        in (r1, writeLatches (NOT (RM_relayState r1)) r1 @ [RelayLog ''All contactors closed'']))"

definition allOff :: "bool \<Rightarrow> RelayManager \<Rightarrow> RelayManager \<times> relay_out list" where
  "allOff silently r =
     (let r1 = r\<lparr>RM_relayState := 0\<rparr>
      in (r1, writeRegister MCP23S17_OLATA 0xFF r1 @ writeRegister MCP23S17_OLATB 0xFF r1
              @ (if silently then [] else [RelayLog ''All relays de-energized''])))"

definition getRelayState :: "u8 \<Rightarrow> RelayManager \<Rightarrow> bool" where
  "getRelayState channel r =
     (if RELAY_TOTAL_CHANNELS \<le> unat channel then False
      else drop_bit (unat channel) (RM_relayState r) AND 1 \<noteq> 0)"

section \<open>The port expander\<close>

record chip =
  IODIR :: u16
  OLAT :: u16

definition chip_reset :: chip where
  "chip_reset = \<lparr>IODIR = 0xFFFF, OLAT = 0\<rparr>"

fun chip_write :: "relay_out \<Rightarrow> chip \<Rightarrow> chip" where
  "chip_write (SpiWrite reg v) k =
     (if reg = MCP23S17_IODIRA then k\<lparr>IODIR := be16 (hi8 (IODIR k)) v\<rparr>
      else if reg = MCP23S17_IODIRB then k\<lparr>IODIR := be16 v (lo8 (IODIR k))\<rparr>
      else if reg = MCP23S17_OLATA then k\<lparr>OLAT := be16 (hi8 (OLAT k)) v\<rparr>
      else if reg = MCP23S17_OLATB then k\<lparr>OLAT := be16 v (lo8 (OLAT k))\<rparr>
      else k)"
| "chip_write (RelayLog _) k = k"

text \<open>A relay is energised when its pin is an output and driven low.\<close>

definition energised :: "chip \<Rightarrow> nat \<Rightarrow> bool" where
  "energised k i \<longleftrightarrow> i < 16 \<and> \<not> bit (IODIR k) i \<and> \<not> bit (OLAT k) i"

section \<open>The driver together with the expander\<close>

definition attach ::
  "RelayManager \<times> relay_out list \<Rightarrow> chip \<Rightarrow> RelayManager \<times> chip" where
  "attach ro k = (fst ro, fold chip_write (snd ro) k)"

definition bank_set :: "u8 \<Rightarrow> bool \<Rightarrow> RelayManager \<times> chip \<Rightarrow> RelayManager \<times> chip" where
  "bank_set ch b rk = attach (setRelay ch b (fst rk)) (snd rk)"

definition bank_on :: "RelayManager \<times> chip \<Rightarrow> RelayManager \<times> chip" where
  "bank_on rk = attach (allOn (fst rk)) (snd rk)"

definition bank_off :: "bool \<Rightarrow> RelayManager \<times> chip \<Rightarrow> RelayManager \<times> chip" where
  "bank_off s rk = attach (allOff s (fst rk)) (snd rk)"

definition bank_closed :: "RelayManager \<times> chip \<Rightarrow> nat \<Rightarrow> bool" where
  "bank_closed rk i = energised (snd rk) i"

text \<open>
  The driver is up, the pins are outputs, the latches hold the complement of the logical state,
  and no bit above the ten channels is set.
\<close>

definition bank_inv :: "RelayManager \<times> chip \<Rightarrow> bool" where
  "bank_inv rk \<longleftrightarrow>
     RM_spiDev (fst rk) \<and> RM_initialized (fst rk) \<and>
     IODIR (snd rk) = 0 \<and> OLAT (snd rk) = NOT (RM_relayState (fst rk)) \<and>
     RM_relayState (fst rk) AND 0xFC00 = 0"

lemmas bank_defs = bank_set_def bank_on_def bank_off_def attach_def writeLatches_def
  writeRegister_def

lemma mcp_registers:
  "MCP23S17_OLATA \<noteq> MCP23S17_IODIRA" "MCP23S17_OLATA \<noteq> MCP23S17_IODIRB"
  "MCP23S17_OLATB \<noteq> MCP23S17_IODIRA" "MCP23S17_OLATB \<noteq> MCP23S17_IODIRB"
  "MCP23S17_OLATB \<noteq> MCP23S17_OLATA" "MCP23S17_IODIRB \<noteq> MCP23S17_IODIRA"
  by (simp_all add: MCP23S17_OLATA_def MCP23S17_OLATB_def MCP23S17_IODIRA_def MCP23S17_IODIRB_def)

lemma write_latches:
  "RM_spiDev r \<Longrightarrow> fold chip_write (writeLatches hw r) k = k\<lparr>OLAT := hw\<rparr>"
  by (simp add: writeLatches_def writeRegister_def mcp_registers)

lemma be16_FF: "be16 0xFF 0xFF = 0xFFFF"
  by (simp add: be16_add)

lemma high_bits_clear: "(x :: u16) AND 0xFC00 = 0 \<Longrightarrow> 10 \<le> i \<Longrightarrow> i < 16 \<Longrightarrow> \<not> bit x i"
proof
  assume *: "x AND 0xFC00 = 0" "10 \<le> i" "i < 16" and b: "bit x i"
  have "i \<in> {10, 11, 12, 13, 14, 15}" using *(2,3) by auto
  then have "bit (0xFC00 :: u16) i"
    by (auto simp: bit_iff_odd_drop_bit drop_bit_eq_div)
  with b have "bit (x AND 0xFC00) i" by (simp add: bit_and_iff)
  with *(1) show False by simp
qed

lemma allOff_latches:
  "RM_spiDev r \<Longrightarrow> fold chip_write (snd (allOff s r)) k = k\<lparr>OLAT := 0xFFFF\<rparr>"
  by (simp add: allOff_def Let_def writeRegister_def mcp_registers be16_FF)

lemma bank_inv_on: "bank_inv rk \<Longrightarrow> bank_inv (bank_on rk)"
  by (simp add: bank_inv_def bank_on_def attach_def allOn_def Let_def write_latches aks_config)

lemma bank_inv_off: "bank_inv rk \<Longrightarrow> bank_inv (bank_off s rk)"
  unfolding bank_inv_def bank_off_def attach_def
  by (simp add: allOff_latches) (simp add: allOff_def Let_def)

lemma mask_above:
  fixes x :: u16
  assumes "x AND 0xFC00 = 0" "n < 10"
  shows "(x OR push_bit n 1) AND 0xFC00 = 0" "(x AND NOT (push_bit n 1)) AND 0xFC00 = 0"
proof -
  have "n \<in> {0, 1, 2, 3, 4, 5, 6, 7, 8, 9}" using assms(2) by auto
  then have "push_bit n (1 :: u16) AND 0xFC00 = 0" by auto
  with assms(1) show "(x OR push_bit n 1) AND 0xFC00 = 0"
    by (simp add: bit.conj_disj_distrib2)
  have "(x AND NOT (push_bit n 1)) AND 0xFC00 = (x AND 0xFC00) AND NOT (push_bit n 1)"
    by (metis and.assoc and.commute)
  with assms(1) show "(x AND NOT (push_bit n 1)) AND 0xFC00 = 0"
    by simp
qed

lemma bank_inv_set: "bank_inv rk \<Longrightarrow> bank_inv (bank_set ch b rk)"
proof (cases "unat ch < RELAY_TOTAL_CHANNELS")
  case True
  assume "bank_inv rk"
  with True mask_above [of "RM_relayState (fst rk)" "unat ch"] show ?thesis
    by (simp add: bank_inv_def bank_set_def attach_def setRelay_def Let_def write_latches
        RELAY_TOTAL_CHANNELS_def)
qed (simp add: bank_inv_def bank_set_def attach_def setRelay_def)

text \<open>Under the invariant the pins are the logical state.\<close>

lemma energised_iff: "bank_inv rk \<Longrightarrow> energised (snd rk) i \<longleftrightarrow> bit (RM_relayState (fst rk)) i"
  by (auto simp: bank_inv_def energised_def bit_simps dest: bit_imp_le_length)

lemma getRelayState_bit:
  "getRelayState ch r \<longleftrightarrow> unat ch < RELAY_TOTAL_CHANNELS \<and> bit (RM_relayState r) (unat ch)"
  by (auto simp: getRelayState_def bit_iff_odd_drop_bit even_iff_mod_2_eq_zero and_one_eq)

lemma allOn_bits: "i < 10 \<Longrightarrow> bit (push_bit 10 (1 :: u16) - 1) i"
proof -
  assume "i < 10"
  moreover have "push_bit 10 (1 :: u16) - 1 = mask 10"
    by (simp add: mask_eq_exp_minus_1)
  ultimately show ?thesis by (simp only: bit_mask_iff) simp
qed

interpretation relay_bank: contactor_bank bank_inv bank_on bank_off bank_closed
proof
  fix rk i s
  assume inv: "bank_inv rk"
  then show "bank_inv (bank_on rk)" "bank_inv (bank_off s rk)"
    by (simp_all add: bank_inv_on bank_inv_off)
  assume i: "i < RELAY_TOTAL_CHANNELS"
  show "bank_closed (bank_on rk) i"
    using inv i allOn_bits [of i] energised_iff [OF bank_inv_on [OF inv], of i]
    by (simp add: bank_closed_def bank_on_def attach_def allOn_def Let_def bank_inv_def aks_config)
  show "\<not> bank_closed (bank_off s rk) i"
    using energised_iff [OF bank_inv_off [OF inv], of s i]
    by (simp add: bank_closed_def bank_off_def attach_def allOff_def Let_def)
qed

section \<open>The test double\<close>

text \<open>
  \<open>test/test_native_vcu_logic/fake_relay_manager.cpp\<close>, the double the state-machine tests link
  instead: no expander, sixteen channels, call counters.
\<close>

record fake_relay =
  FR_relayState :: u16
  FR_allOn_count :: nat
  FR_allOff_count :: nat
  FR_allOff_silent_count :: nat
  FR_setRelay_count :: nat

definition fake_setRelay :: "u8 \<Rightarrow> bool \<Rightarrow> fake_relay \<Rightarrow> fake_relay" where
  "fake_setRelay channel state r =
     (if 16 \<le> channel then r
      else r\<lparr>FR_relayState := (if state then FR_relayState r OR push_bit (unat channel) 1
               else FR_relayState r AND NOT (push_bit (unat channel) 1)),
             FR_setRelay_count := FR_setRelay_count r + 1\<rparr>)"

definition fake_allOn :: "fake_relay \<Rightarrow> fake_relay" where
  "fake_allOn r = r\<lparr>FR_relayState := 0x03FF, FR_allOn_count := FR_allOn_count r + 1\<rparr>"

definition fake_allOff :: "bool \<Rightarrow> fake_relay \<Rightarrow> fake_relay" where
  "fake_allOff s r = r\<lparr>FR_relayState := 0, FR_allOff_count := FR_allOff_count r + 1,
     FR_allOff_silent_count := FR_allOff_silent_count r + (if s then 1 else 0)\<rparr>"

definition fake_getRelayState :: "fake_relay \<Rightarrow> nat \<Rightarrow> bool" where
  "fake_getRelayState r channel =
     (if 16 \<le> channel then False else drop_bit channel (FR_relayState r) AND 1 \<noteq> 0)"

interpretation fake_bank: contactor_bank "\<lambda>_. True" fake_allOn fake_allOff fake_getRelayState
proof
  fix r :: fake_relay and i s
  assume "i < RELAY_TOTAL_CHANNELS"
  then show "fake_getRelayState (fake_allOn r) i"
    using allOn_bits [of i]
    by (simp add: fake_getRelayState_def fake_allOn_def aks_config bit_iff_odd_drop_bit
        even_iff_mod_2_eq_zero and_one_eq)
  show "\<not> fake_getRelayState (fake_allOff s r) i"
    by (simp add: fake_getRelayState_def fake_allOff_def)
qed simp_all

section \<open>Start-up and any sequence of operations\<close>

definition bank_boot :: "RelayManager \<times> chip" where
  "bank_boot = attach (snd (RelayManager_begin True True RelayManager_new)) chip_reset"

datatype relay_op = OpSet u8 bool | OpAllOn | OpAllOff bool

fun bank_op :: "relay_op \<Rightarrow> RelayManager \<times> chip \<Rightarrow> RelayManager \<times> chip" where
  "bank_op (OpSet ch b) rk = bank_set ch b rk"
| "bank_op OpAllOn rk = bank_on rk"
| "bank_op (OpAllOff s) rk = bank_off s rk"

lemma bank_inv_boot: "bank_inv bank_boot"
  by (simp add: bank_boot_def bank_inv_def attach_def RelayManager_begin_def RelayManager_new_def
      chip_reset_def writeRegister_def mcp_registers be16_FF be16_add hi8_def lo8_def Let_def
      aks_config)

lemma bank_inv_ops: "bank_inv rk \<Longrightarrow> bank_inv (fold bank_op ops rk)"
proof (induction ops arbitrary: rk)
  case (Cons op ops)
  then show ?case
    by (cases op) (simp_all add: bank_inv_set bank_inv_on bank_inv_off)
qed simp

lemma bank_inv_boot_ops: "bank_inv (fold bank_op ops bank_boot)"
  by (rule bank_inv_ops [OF bank_inv_boot])

lemma safe_not_energised: "IODIR k = 0xFFFF \<or> OLAT k = 0xFFFF \<Longrightarrow> \<not> energised k i"
proof -
  have "(0xFFFF :: u16) = - 1" by simp
  then have "i < 16 \<Longrightarrow> bit (0xFFFF :: u16) i" by (simp only: bit_minus_1_iff) simp
  moreover assume "IODIR k = 0xFFFF \<or> OLAT k = 0xFFFF"
  ultimately show ?thesis by (auto simp: energised_def)
qed

section \<open>Properties\<close>

text \<open>
  C20: after start-up and any sequence of relay operations, what \<open>getRelayState\<close> reports for a
  channel is exactly whether the expander energises that relay, and the six unused pins are never
  energised.
\<close>

lemma relay_state_is_hardware:
  "getRelayState ch (fst (fold bank_op ops bank_boot)) \<longleftrightarrow>
     energised (snd (fold bank_op ops bank_boot)) (unat ch) \<and> unat ch < 10"
  using energised_iff [OF bank_inv_boot_ops, of ops "unat ch"]
  by (auto simp: getRelayState_bit RELAY_TOTAL_CHANNELS_def)

text \<open>
  No relay fires during start-up: after every prefix of the register writes \<open>begin\<close> sends to
  a freshly reset expander, no relay is energised.
\<close>

lemma begin_never_energises:
  "\<not> energised (fold chip_write (take n (snd (snd (RelayManager_begin bus_ok dev_ok r)))) chip_reset) i"
proof (cases "bus_ok \<and> dev_ok")
  case True
  then show ?thesis
    by (intro safe_not_energised)
      (simp add: RelayManager_begin_def writeRegister_def take_Cons' mcp_registers chip_reset_def
        be16_FF Let_def)
next
  case False
  then show ?thesis
    by (intro safe_not_energised)
      (auto simp: RelayManager_begin_def take_Cons' chip_reset_def)
qed

text \<open>
  \<open>setRelay\<close> followed by \<open>getRelayState\<close> obeys the get-after-set law on the ten channels:
  the channel set reads back the value written, every other channel is unchanged, and a channel
  number of ten or more changes nothing.
\<close>

lemma get_after_set:
  "getRelayState c (fst (setRelay ch b (fst (fold bank_op ops bank_boot)))) \<longleftrightarrow>
     (if c = ch \<and> unat ch < 10 then b else getRelayState c (fst (fold bank_op ops bank_boot)))"
proof -
  have "RM_initialized (fst (fold bank_op ops bank_boot))"
    using bank_inv_boot_ops [of ops] by (simp add: bank_inv_def)
  then show ?thesis
    by (auto simp: getRelayState_bit setRelay_def Let_def bit_simps RELAY_TOTAL_CHANNELS_def
        not_le word_unat_eq_iff)
qed

end
