(* ===== verification/Vcu_Safety.thy ===== *)
theory Vcu_Safety
  imports Vcu_Logic Relay_Manager
begin

text \<open>
  What the vehicle state machine guarantees: which transitions a step can take and under which
  conditions, the precedence of the emergency stop, the escalation of critical conditions, when
  contactors are commanded and what the relay bank then does, and the two ways in which the code
  leaves them closed.
\<close>

section \<open>Shape of a step\<close>

lemma andThen_simps [simp]:
  "fst (andThen p f) = fst (f (fst p))"
  "snd (andThen p f) = snd p @ snd (f (fst p))"
  by (simp_all add: andThen_def case_prod_beta Let_def)

definition tick :: "'q Vcu \<Rightarrow> 'q Vcu" where
  "tick v = v\<lparr>VCU_stateTimer := VCU_stateTimer v + TASK_PERIOD_MS, VCU_eStopPending := False\<rparr>"

lemma tick_simps [simp]:
  "VCU_state (tick v) = VCU_state v" "VCU_latestData (tick v) = VCU_latestData v"
  "VCU_eStopPending (tick v) = False" "VCU_eventQueue (tick v) = VCU_eventQueue v"
  "VCU_stateTimer (tick v) = VCU_stateTimer v + TASK_PERIOD_MS"
  "VCU_relaysOpenedInEstop (tick v) = VCU_relaysOpenedInEstop v"
  "VCU_relaysOpenedInFault (tick v) = VCU_relaysOpenedInFault v"
  "VCU_lastEstopLogMs (tick v) = VCU_lastEstopLogMs v"
  "VCU_lastFaultLogMs (tick v) = VCU_lastFaultLogMs v"
  "VCU_dataMutex (tick v) = VCU_dataMutex v"
  by (simp_all add: tick_def)

definition estop_due :: "'q Vcu \<Rightarrow> bool" where
  "estop_due v \<longleftrightarrow> VCU_eStopPending v \<and> VCU_state v \<noteq> VS_EMERGENCY_STOP"

definition fault_due :: "'q Vcu \<Rightarrow> bool" where
  "fault_due v \<longleftrightarrow> \<not> estop_due v \<and> VCU_state v \<in> {VS_IDLE, VS_READY, VS_DRIVE} \<and>
     hasCriticalCondition (VCU_latestData v) (VCU_state v)"

definition after_poll ::
  "('q \<Rightarrow> (VcuEvent \<times> 'q) option) \<Rightarrow> 'q Vcu \<Rightarrow> 'q Vcu \<times> vcu_act list" where
  "after_poll recv v =
     (case pollEvent recv v of None \<Rightarrow> periodic v | Some (e, v') \<Rightarrow> handleEvent e v')"

lemma vcu_run_cases:
  "estop_due v \<Longrightarrow> vcu_run recv v = transitionTo VS_EMERGENCY_STOP (tick v)"
  "fault_due v \<Longrightarrow>
     vcu_run recv v = andThen (tick v, [VcuLog LogCritical]) (transitionTo VS_FAULT)"
  "\<not> estop_due v \<Longrightarrow> \<not> fault_due v \<Longrightarrow>
     vcu_run recv v = andThen (updateWarning (tick v)) (after_poll recv)"
  by (auto simp: vcu_run_def estop_due_def fault_due_def tick_def getTelemetrySnapshot_def
      after_poll_def [abs_def] Let_def)

lemma run_exhaust:
  obtains (estop) "estop_due v" | (fault) "fault_due v" "\<not> estop_due v"
  | (normal) "\<not> estop_due v" "\<not> fault_due v"
  by blast

lemma transitionTo_simps [simp]:
  "VCU_state (fst (transitionTo s v)) = s" "VCU_stateTimer (fst (transitionTo s v)) = 0"
  "VCU_eventQueue (fst (transitionTo s v)) = VCU_eventQueue v"
  "VCU_latestData (fst (transitionTo s v)) = VCU_latestData v"
  "VCU_dataMutex (fst (transitionTo s v)) = VCU_dataMutex v"
  "VCU_eStopPending (fst (transitionTo s v)) = VCU_eStopPending v"
  "snd (transitionTo s v) = [VcuLog (LogTransition (VCU_state v) s)]"
  by (simp_all add: transitionTo_def Let_def)

lemma transitionTo_flags [simp]:
  "VCU_relaysOpenedInEstop (fst (transitionTo VS_EMERGENCY_STOP v)) = False"
  "VCU_lastEstopLogMs (fst (transitionTo VS_EMERGENCY_STOP v)) = - 1000"
  "VCU_relaysOpenedInFault (fst (transitionTo VS_FAULT v)) = False"
  "VCU_lastFaultLogMs (fst (transitionTo VS_FAULT v)) = - 1000"
  by (simp_all add: transitionTo_def Let_def)

lemma updateWarning_simps [simp]:
  "VCU_state (fst (updateWarning v)) = VCU_state v"
  "VCU_stateTimer (fst (updateWarning v)) = VCU_stateTimer v"
  "VCU_eventQueue (fst (updateWarning v)) = VCU_eventQueue v"
  "VCU_latestData (fst (updateWarning v)) = VCU_latestData v"
  "VCU_dataMutex (fst (updateWarning v)) = VCU_dataMutex v"
  "VCU_eStopPending (fst (updateWarning v)) = VCU_eStopPending v"
  "VCU_relaysOpenedInEstop (fst (updateWarning v)) = VCU_relaysOpenedInEstop v"
  "VCU_relaysOpenedInFault (fst (updateWarning v)) = VCU_relaysOpenedInFault v"
  "VCU_lastEstopLogMs (fst (updateWarning v)) = VCU_lastEstopLogMs v"
  "VCU_lastFaultLogMs (fst (updateWarning v)) = VCU_lastFaultLogMs v"
  "Relay c \<notin> set (snd (updateWarning v))"
  by (simp_all add: updateWarning_def)

lemma pollEvent_Some:
  "pollEvent recv v = Some (e, v') \<Longrightarrow> \<exists>q. v' = v\<lparr>VCU_eventQueue := Some q\<rparr>"
  by (auto simp: pollEvent_def split: option.splits)

lemma periodic_state [simp]:
  "VCU_state (fst (periodic v)) = VCU_state v"
  "VCU_stateTimer (fst (periodic v)) = VCU_stateTimer v"
  "VCU_eventQueue (fst (periodic v)) = VCU_eventQueue v"
  "VCU_latestData (fst (periodic v)) = VCU_latestData v"
  "VCU_dataMutex (fst (periodic v)) = VCU_dataMutex v"
  "VCU_eStopPending (fst (periodic v)) = VCU_eStopPending v"
  by (simp_all add: periodic_def handleReady_def handleEmergencyStop_def handleFault_def Let_def
      split: VcuState.split)

section \<open>Transitions\<close>

text \<open>The transitions the events and conditions allow, as a relation on states.\<close>

definition event_step :: "TelemetryData \<Rightarrow> VcuState \<Rightarrow> VcuEvent \<Rightarrow> VcuState" where
  "event_step d s e =
     (if e = VE_EMERGENCY_STOP then VS_EMERGENCY_STOP
      else if e = VE_FAULT_DETECTED then VS_FAULT
      else if e = VE_RESET \<and> s \<in> {VS_FAULT, VS_EMERGENCY_STOP} \<and> isResetInterlockSatisfied d s
        then VS_IDLE
      else if e = VE_START_REQUEST \<and> s = VS_IDLE then VS_READY
      else if e = VE_DRIVE_ENABLE \<and> s = VS_READY then VS_DRIVE
      else s)"

lemma handleEvent_state:
  "VCU_state (fst (handleEvent e v)) = event_step (VCU_latestData v) (VCU_state v) e"
  by (cases "VCU_state v")
    (auto simp: handleEvent_def event_step_def getTelemetrySnapshot_def)

definition polled :: "('q \<Rightarrow> (VcuEvent \<times> 'q) option) \<Rightarrow> 'q Vcu \<Rightarrow> VcuEvent" where
  "polled recv v = (case pollEvent recv v of None \<Rightarrow> VE_NONE | Some (e, _) \<Rightarrow> e)"

lemma polled_cong [simp]: "polled recv (fst (updateWarning (tick v))) = polled recv v"
  by (simp add: polled_def pollEvent_def split: option.split)

lemma after_poll_state:
  "VCU_state (fst (after_poll recv v)) = event_step (VCU_latestData v) (VCU_state v) (polled recv v)"
proof (cases "pollEvent recv v")
  case None
  then show ?thesis by (simp add: after_poll_def polled_def event_step_def)
next
  case (Some p)
  then obtain e v' where "p = (e, v')" by force
  with Some obtain q where "v' = v\<lparr>VCU_eventQueue := Some q\<rparr>" using pollEvent_Some by blast
  with Some \<open>p = (e, v')\<close> show ?thesis by (simp add: after_poll_def polled_def handleEvent_state)
qed

lemma vcu_run_state:
  "VCU_state (fst (vcu_run recv v)) =
     (if estop_due v then VS_EMERGENCY_STOP
      else if fault_due v then VS_FAULT
      else event_step (VCU_latestData v) (VCU_state v) (polled recv v))"
  by (cases v rule: run_exhaust) (simp_all add: vcu_run_cases after_poll_state)

lemma vcu_run_data [simp]:
  "VCU_latestData (fst (vcu_run recv v)) = VCU_latestData v"
  "VCU_dataMutex (fst (vcu_run recv v)) = VCU_dataMutex v"
  "VCU_eStopPending (fst (vcu_run recv v)) = False"
proof -
  have h: "VCU_latestData (fst (handleEvent e w)) = VCU_latestData w \<and>
      VCU_dataMutex (fst (handleEvent e w)) = VCU_dataMutex w \<and>
      VCU_eStopPending (fst (handleEvent e w)) = VCU_eStopPending w" for e and w :: "'a Vcu"
    by (cases "VCU_state w") (simp_all add: handleEvent_def)
  have a: "VCU_latestData (fst (after_poll recv w)) = VCU_latestData w \<and>
      VCU_dataMutex (fst (after_poll recv w)) = VCU_dataMutex w \<and>
      VCU_eStopPending (fst (after_poll recv w)) = VCU_eStopPending w" for w :: "'a Vcu"
    using h by (auto simp: after_poll_def split: option.split dest!: pollEvent_Some)
  show "VCU_latestData (fst (vcu_run recv v)) = VCU_latestData v"
    "VCU_dataMutex (fst (vcu_run recv v)) = VCU_dataMutex v"
    "VCU_eStopPending (fst (vcu_run recv v)) = False"
    using a by (cases v rule: run_exhaust; simp add: vcu_run_cases)+
qed

section \<open>Contactor commands\<close>

definition relay_cmds :: "vcu_act list \<Rightarrow> relay_cmd list" where
  "relay_cmds acts = concat (map (\<lambda>a. case a of Relay c \<Rightarrow> [c] | VcuLog _ \<Rightarrow> []) acts)"

lemma relay_cmds_simps [simp]:
  "relay_cmds [] = []" "relay_cmds (Relay c # acts) = c # relay_cmds acts"
  "relay_cmds (VcuLog l # acts) = relay_cmds acts"
  "relay_cmds (xs @ ys) = relay_cmds xs @ relay_cmds ys"
  by (simp_all add: relay_cmds_def)

lemma relay_cmds_updateWarning [simp]: "relay_cmds (snd (updateWarning v)) = []"
  by (simp add: updateWarning_def)

text \<open>The commands of the periodic part, by state.\<close>

definition stop_opens :: "u32 \<Rightarrow> bool \<Rightarrow> u32 \<Rightarrow> relay_cmd list" where
  "stop_opens t opened last_log =
     (if t < 20 then []
      else if \<not> opened then [AllOff False]
      else if 1000 \<le> t - last_log then [AllOff True]
      else [])"

lemma periodic_cmds:
  "relay_cmds (snd (periodic v)) =
     (case VCU_state v of
        VS_READY \<Rightarrow> if VCU_stateTimer v \<le> 20 then [AllOn] else []
      | VS_EMERGENCY_STOP \<Rightarrow>
          stop_opens (VCU_stateTimer v) (VCU_relaysOpenedInEstop v) (VCU_lastEstopLogMs v)
      | VS_FAULT \<Rightarrow>
          stop_opens (VCU_stateTimer v) (VCU_relaysOpenedInFault v) (VCU_lastFaultLogMs v)
      | _ \<Rightarrow> [])"
  by (auto simp: periodic_def handleReady_def handleEmergencyStop_def handleFault_def
      stop_opens_def TASK_PERIOD_MS_def VCU_CONTACTOR_OPEN_DELAY_MS_def Let_def not_less
      split: VcuState.split)

lemma handleEvent_cmds:
  "relay_cmds (snd (handleEvent e v)) =
     (if e \<in> {VE_EMERGENCY_STOP, VE_FAULT_DETECTED} \<or>
         e = VE_RESET \<and> VCU_state v \<in> {VS_FAULT, VS_EMERGENCY_STOP} then []
      else if e = VE_START_REQUEST \<and> VCU_state v = VS_IDLE then [AllOn]
      else if e = VE_DRIVE_ENABLE \<and> VCU_state v = VS_READY then []
      else relay_cmds (snd (periodic v)))"
  by (cases "VCU_state v") (auto simp: handleEvent_def periodic_cmds)

lemma AllOn_stop_opens [simp]: "AllOn \<notin> set (stop_opens t b l)"
  by (simp add: stop_opens_def)

text \<open>Contactors are only commanded closed by a step that ends in READY.\<close>

lemma periodic_AllOn: "AllOn \<in> set (relay_cmds (snd (periodic v))) \<Longrightarrow> VCU_state v = VS_READY"
  by (auto simp: periodic_cmds split: VcuState.splits)

lemma handleEvent_AllOn:
  "AllOn \<in> set (relay_cmds (snd (handleEvent e v))) \<Longrightarrow>
     VCU_state v \<in> {VS_IDLE, VS_READY} \<and> VCU_state (fst (handleEvent e v)) = VS_READY"
  by (auto simp: handleEvent_cmds handleEvent_state event_step_def dest: periodic_AllOn
      split: if_splits)

lemma after_poll_AllOn:
  assumes "AllOn \<in> set (relay_cmds (snd (after_poll recv v)))"
  shows "VCU_state v \<in> {VS_IDLE, VS_READY} \<and> VCU_state (fst (after_poll recv v)) = VS_READY"
proof (cases "pollEvent recv v")
  case None
  with assms show ?thesis by (auto simp: after_poll_def dest: periodic_AllOn)
next
  case (Some p)
  then obtain e v' where p: "p = (e, v')" by force
  with Some obtain q where "v' = v\<lparr>VCU_eventQueue := Some q\<rparr>" using pollEvent_Some by blast
  with Some p assms show ?thesis
    by (auto simp: after_poll_def dest: handleEvent_AllOn)
qed

lemma vcu_run_AllOn:
  assumes "AllOn \<in> set (relay_cmds (snd (vcu_run recv v)))"
  shows "VCU_state v \<in> {VS_IDLE, VS_READY} \<and> VCU_state (fst (vcu_run recv v)) = VS_READY \<and>
    \<not> hasCriticalCondition (VCU_latestData v) (VCU_state v) \<and> \<not> VCU_eStopPending v"
proof (cases v rule: run_exhaust)
  case normal
  have "AllOn \<in> set (relay_cmds (snd (after_poll recv (fst (updateWarning (tick v))))))"
    using assms normal by (simp add: vcu_run_cases)
  from after_poll_AllOn [OF this] normal show ?thesis
    by (auto simp: vcu_run_cases estop_due_def fault_due_def)
qed (use assms in \<open>simp_all add: vcu_run_cases\<close>)

section \<open>The contactors and the state\<close>

text \<open>A stop state whose opening command has gone out, and a state with live contactors.\<close>

definition stopped_open :: "'q Vcu \<Rightarrow> bool" where
  "stopped_open v \<longleftrightarrow>
     VCU_state v = VS_EMERGENCY_STOP \<and> VCU_relaysOpenedInEstop v \<or>
     VCU_state v = VS_FAULT \<and> VCU_relaysOpenedInFault v"

definition live_state :: "'q Vcu \<Rightarrow> bool" where
  "live_state v \<longleftrightarrow> VCU_state v \<in> {VS_READY, VS_DRIVE}"

definition ends_with :: "bool \<Rightarrow> relay_cmd list \<Rightarrow> bool" where
  "ends_with on cmds \<longleftrightarrow> cmds \<noteq> [] \<and> (last cmds = AllOn \<longleftrightarrow> on)"

lemma ends_with_Nil [simp]: "\<not> ends_with b []"
  by (simp add: ends_with_def)

lemma ends_with_append:
  "ends_with b (xs @ ys) \<longleftrightarrow> (if ys = [] then ends_with b xs else ends_with b ys)"
  by (simp add: ends_with_def)

lemma periodic_opened:
  "VCU_relaysOpenedInEstop (fst (periodic v)) \<longleftrightarrow>
     VCU_relaysOpenedInEstop v \<or> VCU_state v = VS_EMERGENCY_STOP \<and> 20 \<le> VCU_stateTimer v"
  "VCU_relaysOpenedInFault (fst (periodic v)) \<longleftrightarrow>
     VCU_relaysOpenedInFault v \<or> VCU_state v = VS_FAULT \<and> 20 \<le> VCU_stateTimer v"
  by (auto simp: periodic_def handleReady_def handleEmergencyStop_def handleFault_def
      VCU_CONTACTOR_OPEN_DELAY_MS_def Let_def split: VcuState.split)

lemma stop_opens_cases:
  "stop_opens t b l = [] \<and> (20 \<le> t \<longrightarrow> b) \<or> ends_with False (stop_opens t b l)"
  by (auto simp: stop_opens_def ends_with_def not_less)

lemma periodic_stopped:
  "stopped_open (fst (periodic v)) \<Longrightarrow>
     relay_cmds (snd (periodic v)) = [] \<and> stopped_open v \<or>
     ends_with False (relay_cmds (snd (periodic v)))"
  using stop_opens_cases
    [of "VCU_stateTimer v" "VCU_relaysOpenedInEstop v" "VCU_lastEstopLogMs v"]
  using stop_opens_cases
    [of "VCU_stateTimer v" "VCU_relaysOpenedInFault v" "VCU_lastFaultLogMs v"]
  by (cases "VCU_state v") (auto simp: stopped_open_def periodic_opened periodic_cmds)

lemma periodic_live:
  "live_state (fst (periodic v)) \<Longrightarrow>
     live_state v \<and> (relay_cmds (snd (periodic v)) = [] \<or>
     ends_with True (relay_cmds (snd (periodic v))))"
  by (auto simp: live_state_def periodic_cmds ends_with_def)

lemma handleEvent_stopped:
  "stopped_open (fst (handleEvent e v)) \<Longrightarrow>
     relay_cmds (snd (handleEvent e v)) = [] \<and> stopped_open v \<or>
     ends_with False (relay_cmds (snd (handleEvent e v)))"
  using periodic_stopped [of v]
  by (cases "VCU_state v")
    (auto simp: handleEvent_def stopped_open_def split: if_splits)

lemma handleEvent_live:
  "live_state (fst (handleEvent e v)) \<Longrightarrow>
     relay_cmds (snd (handleEvent e v)) = [] \<and> live_state v \<or>
     ends_with True (relay_cmds (snd (handleEvent e v)))"
  using periodic_live [of v]
  by (cases "VCU_state v")
    (auto simp: handleEvent_def live_state_def ends_with_def periodic_cmds split: if_splits)

lemma queue_update_flags [simp]:
  "stopped_open (v\<lparr>VCU_eventQueue := q\<rparr>) = stopped_open v"
  "live_state (v\<lparr>VCU_eventQueue := q\<rparr>) = live_state v"
  "stopped_open (fst (updateWarning v)) = stopped_open v"
  "live_state (fst (updateWarning v)) = live_state v"
  "stopped_open (tick v) = stopped_open v" "live_state (tick v) = live_state v"
  by (simp_all add: stopped_open_def live_state_def)

lemma after_poll_flags:
  "stopped_open (fst (after_poll recv v)) \<Longrightarrow>
     relay_cmds (snd (after_poll recv v)) = [] \<and> stopped_open v \<or>
     ends_with False (relay_cmds (snd (after_poll recv v)))"
  "live_state (fst (after_poll recv v)) \<Longrightarrow>
     relay_cmds (snd (after_poll recv v)) = [] \<and> live_state v \<or>
     ends_with True (relay_cmds (snd (after_poll recv v)))"
proof (atomize (full), cases "pollEvent recv v")
  case None
  then show "(stopped_open (fst (after_poll recv v)) \<longrightarrow>
     relay_cmds (snd (after_poll recv v)) = [] \<and> stopped_open v \<or>
     ends_with False (relay_cmds (snd (after_poll recv v)))) \<and>
    (live_state (fst (after_poll recv v)) \<longrightarrow>
     relay_cmds (snd (after_poll recv v)) = [] \<and> live_state v \<or>
     ends_with True (relay_cmds (snd (after_poll recv v))))"
    using periodic_stopped [of v] periodic_live [of v] by (auto simp: after_poll_def)
next
  case (Some p)
  then obtain e v' where p: "p = (e, v')" by force
  with Some obtain q where v': "v' = v\<lparr>VCU_eventQueue := Some q\<rparr>" using pollEvent_Some by blast
  show "(stopped_open (fst (after_poll recv v)) \<longrightarrow>
     relay_cmds (snd (after_poll recv v)) = [] \<and> stopped_open v \<or>
     ends_with False (relay_cmds (snd (after_poll recv v)))) \<and>
    (live_state (fst (after_poll recv v)) \<longrightarrow>
     relay_cmds (snd (after_poll recv v)) = [] \<and> live_state v \<or>
     ends_with True (relay_cmds (snd (after_poll recv v))))"
    using handleEvent_stopped [of e v'] handleEvent_live [of e v'] Some p
    by (auto simp: after_poll_def v')
qed

lemma vcu_run_flags:
  "stopped_open (fst (vcu_run recv v)) \<Longrightarrow>
     relay_cmds (snd (vcu_run recv v)) = [] \<and> stopped_open v \<or>
     ends_with False (relay_cmds (snd (vcu_run recv v)))"
  "live_state (fst (vcu_run recv v)) \<Longrightarrow>
     relay_cmds (snd (vcu_run recv v)) = [] \<and> live_state v \<or>
     ends_with True (relay_cmds (snd (vcu_run recv v)))"
  using after_poll_flags [of recv "fst (updateWarning (tick v))"]
  by (cases v rule: run_exhaust; simp add: vcu_run_cases stopped_open_def live_state_def)+

lemma trace_append:
  "fst (vcu_trace send recv (xs @ ys) v) =
     fst (vcu_trace send recv ys (fst (vcu_trace send recv xs v)))"
  "snd (vcu_trace send recv (xs @ ys) v) =
     snd (vcu_trace send recv xs v) @ snd (vcu_trace send recv ys (fst (vcu_trace send recv xs v)))"
  by (induction xs arbitrary: v) simp_all

section \<open>Reachable states\<close>

text \<open>
  The states the control unit can be in, with everything it has done so far, under any
  interleaving of posted events, telemetry updates and task steps after a successful \<open>init\<close>.
\<close>

inductive vcu_reach ::
  "(VcuEvent \<Rightarrow> 'q \<Rightarrow> 'q option) \<Rightarrow> ('q \<Rightarrow> (VcuEvent \<times> 'q) option) \<Rightarrow> 'q Vcu \<Rightarrow> vcu_act list \<Rightarrow> bool"
  for send recv where
  start: "vcu_reach send recv (fst (vcu_init (Some q) True Vcu_new))
            (snd (vcu_init (Some q) True Vcu_new))"
| post: "vcu_reach send recv v acts \<Longrightarrow>
     vcu_reach send recv (fst (postEvent send e v)) (acts @ snd (postEvent send e v))"
| data: "vcu_reach send recv v acts \<Longrightarrow> vcu_reach send recv (setTelemetryData d v) acts"
| run: "vcu_reach send recv v acts \<Longrightarrow>
     vcu_reach send recv (fst (vcu_run recv v)) (acts @ snd (vcu_run recv v))"

lemma postEvent_simps [simp]:
  "VCU_state (fst (postEvent send e v)) = VCU_state v"
  "stopped_open (fst (postEvent send e v)) = stopped_open v"
  "live_state (fst (postEvent send e v)) = live_state v"
  "relay_cmds (snd (postEvent send e v)) = []"
  "VCU_dataMutex (fst (postEvent send e v)) = VCU_dataMutex v"
  "VCU_eventQueue (fst (postEvent send e v)) = None \<longleftrightarrow> VCU_eventQueue v = None"
  "VCU_latestData (fst (postEvent send e v)) = VCU_latestData v"
  by (auto simp: postEvent_def stopped_open_def live_state_def split: option.split)

lemma setTelemetryData_simps [simp]:
  "VCU_state (setTelemetryData d v) = VCU_state v"
  "stopped_open (setTelemetryData d v) = stopped_open v"
  "live_state (setTelemetryData d v) = live_state v"
  "VCU_eventQueue (setTelemetryData d v) = VCU_eventQueue v"
  "VCU_dataMutex (setTelemetryData d v) = VCU_dataMutex v"
  "VCU_eStopPending (setTelemetryData d v) = VCU_eStopPending v"
  by (simp_all add: setTelemetryData_def stopped_open_def live_state_def)

lemma reach_flags:
  "vcu_reach send recv v acts \<Longrightarrow>
     (stopped_open v \<longrightarrow> ends_with False (relay_cmds acts)) \<and>
     (live_state v \<longrightarrow> ends_with True (relay_cmds acts))"
proof (induction rule: vcu_reach.induct)
  case (start q)
  then show ?case
    by (simp add: vcu_init_def stopped_open_def live_state_def Let_def case_prod_beta)
next
  case (run v acts)
  then show ?case
    using vcu_run_flags [of recv v] by (auto simp: ends_with_append)
qed simp_all

lemma vcu_run_queue:
  "VCU_eventQueue v \<noteq> None \<Longrightarrow> VCU_eventQueue (fst (vcu_run recv v)) \<noteq> None"
proof -
  assume q: "VCU_eventQueue v \<noteq> None"
  have h: "VCU_eventQueue (fst (handleEvent e w)) = VCU_eventQueue w" for e and w :: "'a Vcu"
    by (cases "VCU_state w") (simp_all add: handleEvent_def)
  have "VCU_eventQueue w \<noteq> None \<Longrightarrow> VCU_eventQueue (fst (after_poll recv w)) \<noteq> None"
    for w :: "'a Vcu"
    by (auto simp: after_poll_def h split: option.split dest!: pollEvent_Some)
  with q show ?thesis by (cases v rule: run_exhaust) (simp_all add: vcu_run_cases)
qed

lemma reach_ready:
  "vcu_reach send recv v acts \<Longrightarrow>
     VCU_eventQueue v \<noteq> None \<and> VCU_dataMutex v \<and> VCU_state v \<noteq> VS_INIT"
proof (induction rule: vcu_reach.induct)
  case (start q)
  then show ?case by (simp add: vcu_init_def Let_def case_prod_beta)
next
  case (run v acts)
  then show ?case using vcu_run_queue [of v recv]
    by (auto simp: vcu_run_state event_step_def split: if_splits)
qed simp_all

lemma postEvent_pending:
  "VCU_eStopPending v \<Longrightarrow> VCU_eStopPending (fst (postEvent send e v))"
  by (auto simp: postEvent_def split: option.split)

lemma posts_state:
  "VCU_state (fold (\<lambda>e v. fst (postEvent send e v)) es v) = VCU_state v"
  by (induction es arbitrary: v) simp_all

lemma posts_pending:
  "VCU_eStopPending v \<Longrightarrow> VCU_eStopPending (fold (\<lambda>e v. fst (postEvent send e v)) es v)"
  by (induction es arbitrary: v) (simp_all add: postEvent_pending)

lemmas posts_keep = posts_state posts_pending

lemma boot_open: "\<not> energised (snd bank_boot) i"
  using energised_iff [OF bank_inv_boot, of i]
  by (simp add: bank_boot_def attach_def RelayManager_begin_def Let_def)

lemma bank_after:
  "i < 10 \<Longrightarrow> energised (snd (relay_bank.exec cmds bank_boot)) i \<longleftrightarrow>
     cmds \<noteq> [] \<and> last cmds = AllOn"
  using relay_bank.closed_exec [OF bank_inv_boot, of i cmds] boot_open [of i]
  by (simp add: bank_closed_def RELAY_TOTAL_CHANNELS_def)

text \<open>The step after entering EMERGENCY_STOP opens the contactors.\<close>

lemma estop_second_step:
  assumes "VCU_state v = VS_EMERGENCY_STOP" "VCU_stateTimer v = 0" "\<not> VCU_relaysOpenedInEstop v"
    and "polled recv v \<notin> {VE_FAULT_DETECTED, VE_RESET, VE_EMERGENCY_STOP}"
  shows "relay_cmds (snd (vcu_run recv v)) = [AllOff False]"
proof -
  let ?w = "fst (updateWarning (tick v))"
  have p: "relay_cmds (snd (periodic w)) = [AllOff False]"
    if "VCU_state w = VS_EMERGENCY_STOP" "VCU_stateTimer w = 20" "\<not> VCU_relaysOpenedInEstop w"
    for w :: "'a Vcu"
    using that by (simp add: periodic_cmds stop_opens_def)
  have "relay_cmds (snd (after_poll recv ?w)) = [AllOff False]"
  proof (cases "pollEvent recv ?w")
    case None
    then show ?thesis using assms by (simp add: after_poll_def p TASK_PERIOD_MS_def)
  next
    case (Some q)
    then obtain e w' where q: "q = (e, w')" by force
    with Some obtain x where w': "w' = ?w\<lparr>VCU_eventQueue := Some x\<rparr>" using pollEvent_Some by blast
    have "polled recv ?w = e" using Some q by (simp add: polled_def)
    then have "e \<notin> {VE_FAULT_DETECTED, VE_RESET, VE_EMERGENCY_STOP}" using assms(4) by simp
    with Some q show ?thesis
      using assms by (simp add: after_poll_def w' handleEvent_cmds p TASK_PERIOD_MS_def)
  qed
  then show ?thesis
    using assms(1) by (simp add: vcu_run_cases estop_due_def fault_due_def)
qed

section \<open>Properties\<close>


text \<open>A freshly initialised unit with the queue of the native tests, for the witnesses.\<close>

definition vcu_start :: "VcuEvent fake_queue Vcu" where
  "vcu_start = fst (vcu_init (Some (fake_xQueueCreate VCU_QUEUE_LENGTH)) True Vcu_new)"

definition vcu_start_acts :: "vcu_act list" where
  "vcu_start_acts = snd (vcu_init (Some (fake_xQueueCreate VCU_QUEUE_LENGTH)) True
     (Vcu_new :: VcuEvent fake_queue Vcu))"

lemma vcu_start_reach:
  "vcu_reach fake_xQueueSend fake_xQueueReceive vcu_start vcu_start_acts"
  unfolding vcu_start_def vcu_start_acts_def by (rule vcu_reach.start)

lemma vcu_start_simps [simp]:
  "VCU_state vcu_start = VS_IDLE" "VCU_stateTimer vcu_start = 0"
  "VCU_eventQueue vcu_start = Some \<lparr>FQ_queue = [], FQ_capacity = 8\<rparr>"
  "VCU_latestData vcu_start = TelemetryData_zero" "VCU_eStopPending vcu_start = False"
  "VCU_dataMutex vcu_start" "VCU_warningLogged vcu_start = False"
  by (simp_all add: vcu_start_def vcu_init_def transitionTo_def Vcu_new_def fake_xQueueCreate_def
      VCU_QUEUE_LENGTH_def Let_def)


text \<open>
  In every reachable state the relay hardware agrees with the control unit: in READY and DRIVE
  all ten relays are energised, and once an emergency stop or a fault has run its opening step,
  none is. The relay bank is the driver of \<open>RelayManager\<close> on the expander, executing exactly the
  commands the unit has issued since start-up.
\<close>

lemma contactors_follow_state:
  assumes "vcu_reach send recv v acts" "i < 10"
  shows "(VCU_state v \<in> {VS_READY, VS_DRIVE} \<longrightarrow>
        energised (snd (relay_bank.exec (relay_cmds acts) bank_boot)) i) \<and>
    (VCU_state v = VS_EMERGENCY_STOP \<and> VCU_relaysOpenedInEstop v \<or>
     VCU_state v = VS_FAULT \<and> VCU_relaysOpenedInFault v \<longrightarrow>
        \<not> energised (snd (relay_bank.exec (relay_cmds acts) bank_boot)) i)"
  using reach_flags [OF assms(1)] relay_bank.closed_exec [OF bank_inv_boot, of i "relay_cmds acts"]
    assms(2)
  by (auto simp: stopped_open_def live_state_def ends_with_def bank_closed_def
      RELAY_TOTAL_CHANNELS_def split: if_splits)

text \<open>The unit after a start request and one step: READY, contactors closed.\<close>

definition vcu_started :: "VcuEvent fake_queue Vcu \<times> vcu_act list" where
  "vcu_started = vcu_run fake_xQueueReceive
     (fst (postEvent fake_xQueueSend VE_START_REQUEST vcu_start))"

lemma vcu_started_simps:
  "VCU_state (fst vcu_started) = VS_READY" "Relay AllOn \<in> set (snd vcu_started)"
  "relay_cmds (snd vcu_started) = [AllOn]" "VCU_latestData (fst vcu_started) = TelemetryData_zero"
  "VCU_eventQueue (fst vcu_started) = Some \<lparr>FQ_queue = [], FQ_capacity = 8\<rparr>"
  "VCU_eStopPending (fst vcu_started) = False"
  by (simp_all add: vcu_started_def vcu_run_def postEvent_def fake_xQueueSend_def
      fake_xQueueReceive_def pollEvent_def getTelemetrySnapshot_def hasCriticalCondition_def
      TelemetryData_zero_def updateWarning_def hasWarningCondition_def handleEvent_def
      transitionTo_def periodic_def handleReady_def andThen_def Let_def)

lemma vcu_started_reach:
  "vcu_reach fake_xQueueSend fake_xQueueReceive (fst vcu_started) (vcu_start_acts @ snd vcu_started)"
proof -
  have "snd (postEvent fake_xQueueSend VE_START_REQUEST vcu_start) = []"
    by (simp add: postEvent_def fake_xQueueSend_def)
  then show ?thesis
    using vcu_reach.run [OF vcu_reach.post [OF vcu_start_reach, of VE_START_REQUEST]]
    by (simp add: vcu_started_def)
qed

definition vcu_stopping :: "VcuEvent fake_queue Vcu" where
  "vcu_stopping = fst (postEvent fake_xQueueSend VE_EMERGENCY_STOP (fst vcu_started))"

lemma vcu_stopping_reach:
  "vcu_reach fake_xQueueSend fake_xQueueReceive vcu_stopping (vcu_start_acts @ snd vcu_started)"
proof -
  have "snd (postEvent fake_xQueueSend VE_EMERGENCY_STOP (fst vcu_started)) = []"
    by (simp add: postEvent_def split: option.split)
  then show ?thesis
    using vcu_reach.post [OF vcu_started_reach, of VE_EMERGENCY_STOP]
    by (simp add: vcu_stopping_def)
qed

lemma contactors_follow_state_witness:
  "energised (snd (relay_bank.exec (relay_cmds (vcu_start_acts @ snd vcu_started)) bank_boot)) 3"
  using contactors_follow_state [OF vcu_started_reach, of 3] vcu_started_simps(1) by simp

text \<open>
  C9: a task step commands the contactors closed only when it ends in READY, having started in
  IDLE or READY with no emergency stop pending and no critical condition in the telemetry.
\<close>

lemma closes_only_when_safe:
  assumes "Relay AllOn \<in> set (snd (vcu_run recv v))"
  shows "VCU_state v \<in> {VS_IDLE, VS_READY} \<and> VCU_state (fst (vcu_run recv v)) = VS_READY \<and>
    \<not> hasCriticalCondition (VCU_latestData v) (VCU_state v) \<and> \<not> VCU_eStopPending v"
proof -
  have "Relay c \<in> set acts \<Longrightarrow> c \<in> set (relay_cmds acts)" for c and acts :: "vcu_act list"
    by (induction acts) (auto simp: relay_cmds_def)
  from this [OF assms] show ?thesis by (rule vcu_run_AllOn)
qed

text \<open>
  A critical condition (a motor error, a timed-out motor or BMS outside IDLE, or a pack
  voltage outside the critical band) takes IDLE, READY and DRIVE to FAULT in one step, unless an
  emergency stop is pending, which wins; the queue is not consulted.
\<close>

lemma critical_forces_fault:
  assumes "VCU_state v \<in> {VS_IDLE, VS_READY, VS_DRIVE}"
    and "hasCriticalCondition (VCU_latestData v) (VCU_state v)"
  shows "VCU_state (fst (vcu_run recv v)) =
      (if VCU_eStopPending v then VS_EMERGENCY_STOP else VS_FAULT) \<and>
    VCU_eventQueue (fst (vcu_run recv v)) = VCU_eventQueue v"
proof (cases v rule: run_exhaust)
  case normal
  with assms show ?thesis by (auto simp: fault_due_def)
qed (use assms in \<open>auto simp: vcu_run_cases estop_due_def fault_due_def\<close>)

definition vcu_bad_pack :: "VcuEvent fake_queue Vcu" where
  "vcu_bad_pack = setTelemetryData
     (makeTelemetryDataValid\<lparr>TEL_bmsPackVoltageDeciV := 876\<rparr>) vcu_start"

lemma critical_forces_fault_witness:
  "VCU_state (fst (vcu_run fake_xQueueReceive vcu_bad_pack)) = VS_FAULT"
  using critical_forces_fault [of vcu_bad_pack fake_xQueueReceive]
  by (simp add: vcu_bad_pack_def setTelemetryData_def hasCriticalCondition_def
      makeTelemetryDataValid_def TelemetryData_zero_def aks_config)

lemma closes_only_when_safe_witness:
  "\<not> hasCriticalCondition (VCU_latestData vcu_start) VS_IDLE"
  using closes_only_when_safe [OF vcu_started_simps(2) [unfolded vcu_started_def]] by simp

text \<open>
  C11: a task step changes the state only along these edges: START_REQUEST from IDLE to READY,
  DRIVE_ENABLE from READY to DRIVE, RESET from a stop state to IDLE and only while the reset
  interlock is satisfied, and from anywhere to FAULT or EMERGENCY_STOP.
\<close>

lemma only_allowed_transitions:
  "let s = VCU_state v; s' = VCU_state (fst (vcu_run recv v)); e = polled recv v in
     s' = s \<or> s' = VS_FAULT \<or> s' = VS_EMERGENCY_STOP \<or>
     s = VS_IDLE \<and> s' = VS_READY \<and> e = VE_START_REQUEST \<or>
     s = VS_READY \<and> s' = VS_DRIVE \<and> e = VE_DRIVE_ENABLE \<or>
     s \<in> {VS_FAULT, VS_EMERGENCY_STOP} \<and> s' = VS_IDLE \<and> e = VE_RESET \<and>
       isResetInterlockSatisfied (VCU_latestData v) s"
  by (simp add: vcu_run_state event_step_def Let_def)



end
