(* ===== verification/Vcu_Gaps.thy ===== *)
theory Vcu_Gaps
  imports Vcu_Safety
begin

text \<open>
  Where the state machine of \<open>VcuLogic.cpp\<close> falls short of its comments, each as a theorem on a
  concrete run of the unit with the relay bank, and the exact schedule on which a stop state
  re-asserts the opening command.
\<close>

section \<open>Running the unit together with the relay bank\<close>

abbreviation fake_trace ::
  "vcu_input list \<Rightarrow> VcuEvent fake_queue Vcu \<Rightarrow> VcuEvent fake_queue Vcu \<times> vcu_act list" where
  "fake_trace \<equiv> vcu_trace fake_xQueueSend fake_xQueueReceive"

definition with_bank :: "vcu_act list \<Rightarrow> RelayManager \<times> chip \<Rightarrow> RelayManager \<times> chip" where
  "with_bank acts = relay_bank.exec (relay_cmds acts)"

text \<open>The unit right after start-up and a start request: READY, contactors just closed.\<close>

definition started_bank :: "RelayManager \<times> chip" where
  "started_bank = with_bank (snd vcu_started) bank_boot"

lemma started_bank_closed: "i < 10 \<Longrightarrow> energised (snd started_bank) i"
  unfolding started_bank_def with_bank_def
  by (simp only: bank_after) (simp add: vcu_started_simps)

lemma with_bank_quiet: "relay_cmds acts = [] \<Longrightarrow> with_bank acts rk = rk"
  by (simp add: with_bank_def)

text \<open>The definitions a concrete run of a few steps unfolds.\<close>

lemmas vcu_eval = vcu_run_def postEvent_def fake_xQueueSend_def fake_xQueueReceive_def
  pollEvent_def getTelemetrySnapshot_def hasCriticalCondition_def updateWarning_def
  hasWarningCondition_def handleEvent_def isResetInterlockSatisfied_def transitionTo_def
  setTelemetryData_def TelemetryData_zero_def

section \<open>A stream of fault events\<close>

definition storm_ready :: "VcuEvent fake_queue Vcu \<Rightarrow> bool" where
  "storm_ready v \<longleftrightarrow> VCU_eventQueue v = Some \<lparr>FQ_queue = [], FQ_capacity = 8\<rparr> \<and>
     \<not> VCU_eStopPending v \<and> VCU_latestData v = TelemetryData_zero"

lemma storm_step:
  assumes "storm_ready v"
  shows "storm_ready (fst (fake_trace [Post VE_FAULT_DETECTED, Step] v))"
    "relay_cmds (snd (fake_trace [Post VE_FAULT_DETECTED, Step] v)) = []"
    "VCU_state (fst (fake_trace [Post VE_FAULT_DETECTED, Step] v)) = VS_FAULT"
  using assms by (simp_all add: storm_ready_def vcu_eval Let_def)

lemma storm_run:
  assumes "storm_ready v"
  shows "storm_ready (fst (fake_trace (concat (replicate n [Post VE_FAULT_DETECTED, Step])) v)) \<and>
    relay_cmds (snd (fake_trace (concat (replicate n [Post VE_FAULT_DETECTED, Step])) v)) = []"
proof (induction n)
  case (Suc n)
  have "concat (replicate (Suc n) [Post VE_FAULT_DETECTED, Step]) =
      concat (replicate n [Post VE_FAULT_DETECTED, Step]) @ [Post VE_FAULT_DETECTED, Step]"
    by (induction n) simp_all
  with Suc show ?case
    by (simp only: trace_append storm_step relay_cmds_simps)
      (simp only: storm_step append_Nil simp_thms)
qed (simp add: assms)

lemma storm_ready_started: "storm_ready (fst vcu_started)"
  by (simp add: storm_ready_def vcu_started_simps)

text \<open>
  C14: a fault event on every task step keeps the unit in FAULT and the contactors closed for as
  long as it lasts: each event re-enters FAULT, restarts the opening delay and skips the code that
  would open them. (The emergency-stop path guards against exactly this.)
\<close>

lemma fault_storm_keeps_contactors_closed:
  assumes "i < 10"
  shows "VCU_state (fst (fake_trace
        (concat (replicate (Suc n) [Post VE_FAULT_DETECTED, Step])) (fst vcu_started))) = VS_FAULT \<and>
    energised (snd (with_bank (snd (fake_trace
        (concat (replicate (Suc n) [Post VE_FAULT_DETECTED, Step])) (fst vcu_started)))
      started_bank)) i"
proof -
  let ?r = "\<lambda>n. concat (replicate n [Post VE_FAULT_DETECTED, Step])"
  have "?r (Suc n) = ?r n @ [Post VE_FAULT_DETECTED, Step]"
    by (induction n) simp_all
  then have "VCU_state (fst (fake_trace (?r (Suc n)) (fst vcu_started))) = VS_FAULT"
    using storm_run [OF storm_ready_started, of n]
    by (simp only: trace_append storm_step)
  moreover have "with_bank (snd (fake_trace (?r (Suc n)) (fst vcu_started))) started_bank = started_bank"
    using storm_run [OF storm_ready_started, of "Suc n"] by (intro with_bank_quiet) simp
  ultimately show ?thesis
    using started_bank_closed [OF assms] by simp
qed

lemma fault_storm_keeps_contactors_closed_witness:
  "energised (snd (with_bank (snd (fake_trace
     (concat (replicate (Suc 99) [Post VE_FAULT_DETECTED, Step])) (fst vcu_started))) started_bank)) 0"
  by (rule fault_storm_keeps_contactors_closed [THEN conjunct2]) simp

section \<open>A reset right after a fault\<close>

text \<open>
  A reset that is queued behind a fault event returns the unit to IDLE on the step after FAULT
  was entered, before the opening delay has passed, so all ten contactors stay closed in the state
  whose comment promises that all relays are off.
\<close>

lemma reset_race_leaves_contactors_closed:
  "VCU_state (fst (fake_trace [Post VE_FAULT_DETECTED, Post VE_RESET, Step, Step] (fst vcu_started)))
     = VS_IDLE \<and>
   list_all (energised (snd (with_bank (snd (fake_trace
       [Post VE_FAULT_DETECTED, Post VE_RESET, Step, Step] (fst vcu_started))) started_bank))) [0..<10]"
proof -
  have "VCU_state (fst (fake_trace [Post VE_FAULT_DETECTED, Post VE_RESET, Step, Step]
      (fst vcu_started))) = VS_IDLE \<and>
    relay_cmds (snd (fake_trace [Post VE_FAULT_DETECTED, Post VE_RESET, Step, Step]
      (fst vcu_started))) = []"
    by (simp add: vcu_eval vcu_started_simps Let_def)
  then show ?thesis
    by (simp add: with_bank_quiet started_bank_closed list_all_iff)
qed

section \<open>An emergency stop swallowed by a reset\<close>

text \<open>
  An emergency stop posted while the unit is in EMERGENCY_STOP is consumed without effect, so a
  reset waiting in the queue takes the unit to IDLE in the very step that should have honoured the
  stop.
\<close>

lemma estop_swallowed_by_queued_reset:
  "VCU_state (fst (fake_trace
     [Post VE_EMERGENCY_STOP, Step, Post VE_RESET, Post VE_EMERGENCY_STOP, Step]
     (fst vcu_started))) = VS_IDLE"
  by (simp add: vcu_eval vcu_started_simps Let_def)

section \<open>A failed initialisation\<close>

text \<open>
  When the telemetry mutex cannot be created, \<open>init\<close> gives up in INIT, but this is no lockout:
  an emergency stop, a reset and a start request bring the unit to READY with all ten contactors
  closed, and it never takes over a snapshot, so that no critical condition, however plain in the
  telemetry it is given, can open them.
\<close>

lemma failed_init_still_closes:
  fixes d :: TelemetryData
  defines "r \<equiv> fake_trace [Post VE_EMERGENCY_STOP, Step, Post VE_RESET, Step, Post VE_START_REQUEST,
      Step, Data d, Step] (fst (vcu_init (Some (fake_xQueueCreate VCU_QUEUE_LENGTH)) False Vcu_new))"
  shows "VCU_state (fst r) = VS_READY \<and>
    list_all (energised (snd (with_bank (snd r) bank_boot))) [0..<10]"
proof -
  have "VCU_state (fst r) = VS_READY \<and> relay_cmds (snd r) = [AllOn, AllOn]"
    by (simp add: r_def vcu_init_def vcu_eval periodic_def handleReady_def andThen_def Vcu_new_def
        fake_xQueueCreate_def VCU_QUEUE_LENGTH_def TASK_PERIOD_MS_def Let_def)
  moreover have "energised (snd (with_bank (snd r) bank_boot)) i" if "i < 10" for i
    using calculation unfolding with_bank_def by (simp only: bank_after [OF that]) simp
  ultimately show ?thesis by (simp add: list_all_iff)
qed

section \<open>Driving without data\<close>

text \<open>
  A start and a drive request take the unit to DRIVE with all ten contactors closed although
  neither a BMS frame nor a motor frame was ever received.
\<close>

lemma drive_without_any_can_data:
  "VCU_state (fst (fake_trace [Data TelemetryData_zero, Post VE_DRIVE_ENABLE, Step]
     (fst vcu_started))) = VS_DRIVE \<and>
   list_all (energised (snd (with_bank (snd (fake_trace
     [Data TelemetryData_zero, Post VE_DRIVE_ENABLE, Step] (fst vcu_started))) started_bank))) [0..<10]"
proof -
  have "VCU_state (fst (fake_trace [Data TelemetryData_zero, Post VE_DRIVE_ENABLE, Step]
      (fst vcu_started))) = VS_DRIVE \<and>
    relay_cmds (snd (fake_trace [Data TelemetryData_zero, Post VE_DRIVE_ENABLE, Step]
      (fst vcu_started))) = []"
    by (simp add: vcu_eval vcu_started_simps periodic_def Let_def)
  then show ?thesis
    by (simp add: with_bank_quiet started_bank_closed list_all_iff)
qed

section \<open>The schedule of a stop state\<close>

abbreviation no_events :: "'q \<Rightarrow> (VcuEvent \<times> 'q) option" where
  "no_events \<equiv> \<lambda>_. None"

lemma quiet_fault_run:
  assumes "VCU_state v = VS_FAULT" "\<not> VCU_eStopPending v"
  shows "vcu_run no_events v = andThen (updateWarning (tick v)) periodic"
proof -
  have "after_poll no_events = (periodic :: 'a Vcu \<Rightarrow> _)"
    by (rule ext) (simp add: after_poll_def pollEvent_def split: option.split)
  moreover have "\<not> estop_due v" "\<not> fault_due v"
    using assms by (simp_all add: estop_due_def fault_due_def)
  ultimately show ?thesis using vcu_run_cases(3) [of v no_events] by simp
qed

lemma periodic_fault_log:
  "VCU_state v = VS_FAULT \<Longrightarrow> VCU_lastFaultLogMs (fst (periodic v)) =
     (if 1000 \<le> VCU_stateTimer v - VCU_lastFaultLogMs v then VCU_stateTimer v
      else VCU_lastFaultLogMs v)"
  by (simp add: periodic_def handleFault_def Let_def)

text \<open>The unit \<open>k\<close> event-free steps after it entered FAULT.\<close>

definition in_fault :: "nat \<Rightarrow> 'q Vcu \<Rightarrow> bool" where
  "in_fault k v \<longleftrightarrow> VCU_state v = VS_FAULT \<and> \<not> VCU_eStopPending v \<and>
     VCU_stateTimer v = of_nat (20 * k) \<and> VCU_relaysOpenedInFault v = (0 < k) \<and>
     VCU_lastFaultLogMs v = (if k = 0 then - 1000 else of_nat (20 + 1000 * ((k - 1) div 50)))"

definition fault_cmds :: "nat \<Rightarrow> relay_cmd list" where
  "fault_cmds k = (if k = 0 then [AllOff False] else if k mod 50 = 0 then [AllOff True] else [])"

lemma of_nat_le_u32:
  "m < 2 ^ 32 \<Longrightarrow> n < 2 ^ 32 \<Longrightarrow> (of_nat m :: u32) \<le> of_nat n \<longleftrightarrow> m \<le> n"
  by (simp add: word_le_nat_alt unsigned_of_nat take_bit_nat_eq_self)

text \<open>How long ago the last log was, at step \<open>k + 1\<close>.\<close>

lemma log_due:
  assumes "0 < k"
  shows "1000 \<le> (of_nat (20 * Suc k) - of_nat (20 + 1000 * ((k - 1) div 50)) :: u32) \<longleftrightarrow>
    k mod 50 = 0"
proof -
  define q r where "q = (k - 1) div 50" and "r = (k - 1) mod 50"
  have k: "k = Suc (50 * q + r)" and r: "r < 50"
    using assms by (simp_all add: q_def r_def)
  then have "20 * Suc k = (20 + 1000 * q) + 20 * Suc r"
    by simp
  then have age: "of_nat (20 * Suc k) - of_nat (20 + 1000 * q) = (of_nat (20 * Suc r) :: u32)"
    by (simp only: of_nat_add add_diff_cancel_left')
  have "of_nat 1000 \<le> (of_nat (20 * Suc r) :: u32) \<longleftrightarrow> 1000 \<le> 20 * Suc r"
    using r by (intro of_nat_le_u32) simp_all
  also have "\<dots> \<longleftrightarrow> r = 49"
    using r by auto
  also have "\<dots> \<longleftrightarrow> k mod 50 = 0"
    using k r by presburger
  finally show ?thesis
    unfolding q_def [symmetric] age by simp
qed

lemma next_log:
  assumes "0 < k"
  shows "(if k mod 50 = 0 then 20 * Suc k else 20 + 1000 * ((k - 1) div 50)) =
    20 + 1000 * (k div 50)"
proof (cases "k mod 50 = 0")
  case True
  then obtain q where q: "k = 50 * q"
    by (metis mult_div_mod_eq add_0_right)
  then have "k div 50 = q" by simp
  with q have "20 * Suc k = 20 + 1000 * (k div 50)" by simp
  with True show ?thesis by (simp only: if_True simp_thms)
next
  case False
  define q r where "q = k div 50" and "r = k mod 50"
  have "k = 50 * q + r" "0 < r" "r < 50"
    using False by (simp_all add: q_def r_def)
  then have "k - 1 = 50 * q + (r - 1)" "(50 * q + (r - 1)) div 50 = q" by simp_all
  then have "(k - 1) div 50 = k div 50" by (simp only: q_def)
  with False show ?thesis by (simp only: if_False)
qed

lemma fault_step:
  assumes v: "in_fault k v" and bound: "20 * Suc k < 2 ^ 32"
  shows "in_fault (Suc k) (fst (vcu_run no_events v))"
    "relay_cmds (snd (vcu_run no_events v)) = fault_cmds k"
proof -
  define w where "w = fst (updateWarning (tick v))"
  have run: "fst (vcu_run no_events v) = fst (periodic w)"
    "relay_cmds (snd (vcu_run no_events v)) = relay_cmds (snd (periodic w))"
    using v by (subst quiet_fault_run; simp add: in_fault_def w_def)+
  have w: "VCU_state w = VS_FAULT" "\<not> VCU_eStopPending w"
    "VCU_relaysOpenedInFault w = (0 < k)" "VCU_lastFaultLogMs w = VCU_lastFaultLogMs v"
    and t: "VCU_stateTimer w = of_nat (20 * Suc k)"
    using v by (simp_all add: in_fault_def w_def TASK_PERIOD_MS_def)
  have open_time: "20 \<le> VCU_stateTimer w"
    using of_nat_le_u32 [of 20 "20 * Suc k"] bound unfolding t by simp
  have due: "1000 \<le> VCU_stateTimer w - VCU_lastFaultLogMs v \<longleftrightarrow> k mod 50 = 0"
  proof (cases "k = 0")
    case True
    then show ?thesis using v unfolding t by (simp add: in_fault_def)
  next
    case False
    then have "VCU_lastFaultLogMs v = of_nat (20 + 1000 * ((k - 1) div 50))"
      using v by (simp add: in_fault_def)
    then show ?thesis using log_due [of k] False unfolding t by (simp only:)
  qed
  have log: "VCU_lastFaultLogMs (fst (periodic w)) = of_nat (20 + 1000 * (k div 50))"
  proof (cases "k = 0")
    case True
    then show ?thesis using w due t by (simp add: periodic_fault_log)
  next
    case False
    then have "VCU_lastFaultLogMs v = of_nat (20 + 1000 * ((k - 1) div 50))"
      using v by (simp add: in_fault_def)
    then have "VCU_lastFaultLogMs (fst (periodic w)) =
        of_nat (if k mod 50 = 0 then 20 * Suc k else 20 + 1000 * ((k - 1) div 50))"
      using w(1,4) due t by (simp only: periodic_fault_log if_distrib [of of_nat])
    then show ?thesis using False by (simp only: next_log)
  qed
  show "in_fault (Suc k) (fst (vcu_run no_events v))"
    unfolding run in_fault_def periodic_opened periodic_state
    using w t open_time log by simp
  show "relay_cmds (snd (vcu_run no_events v)) = fault_cmds k"
    unfolding run using w open_time due
    by (auto simp: periodic_cmds stop_opens_def fault_cmds_def not_less)
qed

text \<open>
  A unit that enters FAULT and then sees no event opens the contactors on the first step
  after the entry (at 20 ms) and silently repeats the command on every fiftieth step after that
  (at 1020 ms, 2020 ms, ...), for as long as the 32-bit millisecond timer does not wrap.
\<close>

lemma fault_reassert_schedule:
  assumes "in_fault 0 v" "20 * Suc k < 2 ^ 32"
  shows "relay_cmds (snd (vcu_run no_events (fst (vcu_trace send no_events (replicate k Step) v)))) =
    (if k = 0 then [AllOff False] else if k mod 50 = 0 then [AllOff True] else [])"
proof -
  have "20 * Suc j < 2 ^ 32 \<Longrightarrow> in_fault j (fst (vcu_trace send no_events (replicate j Step) v))" for j
  proof (induction j)
    case (Suc j)
    then have "in_fault j (fst (vcu_trace send no_events (replicate j Step) v))" by simp
    then have "in_fault (Suc j)
        (fst (vcu_run no_events (fst (vcu_trace send no_events (replicate j Step) v))))"
      using Suc.prems by (intro fault_step) simp_all
    moreover have "replicate (Suc j) Step = replicate j Step @ [Step]"
      by (simp add: replicate_append_same)
    ultimately show ?case by (simp only: trace_append) simp
  qed (simp add: assms(1))
  from fault_step(2) [OF this [OF assms(2)] assms(2)] show ?thesis
    by (simp add: fault_cmds_def)
qed

lemma fault_reassert_schedule_witness:
  "relay_cmds (snd (vcu_run no_events (fst (vcu_trace fake_xQueueSend no_events (replicate 50 Step)
     (fst (transitionTo VS_FAULT vcu_start)))))) = [AllOff True]"
  by (subst fault_reassert_schedule) (simp_all add: in_fault_def)

end
