(* ===== verification/Vcu_Predicate_Tests.thy ===== *)
theory Vcu_Predicate_Tests
  imports Vcu_Safety
begin

text \<open>
  The native tests of the thresholds and of the reset interlock
  (\<open>test/test_native_vcu_logic/test_safety_thresholds.cpp\<close> and \<open>test_reset_interlock.cpp\<close>), one
  proposition for each: the conjunction of its assertions.
\<close>

named_theorems vcu_predicate_tests "the tests, unfolded"

section \<open>Thresholds and interlock\<close>

definition test_isCurrentCritical_charge_below_threshold :: bool where
  [vcu_predicate_tests]: "test_isCurrentCritical_charge_below_threshold \<longleftrightarrow>
     \<not> isCurrentCritical 90000"

definition test_isCurrentCritical_charge_at_threshold :: bool where
  [vcu_predicate_tests]: "test_isCurrentCritical_charge_at_threshold \<longleftrightarrow>
     isCurrentCritical 100000"

definition test_isCurrentCritical_charge_above_threshold :: bool where
  [vcu_predicate_tests]: "test_isCurrentCritical_charge_above_threshold \<longleftrightarrow>
     isCurrentCritical 110000"

definition test_isCurrentCritical_zero_is_safe :: bool where
  [vcu_predicate_tests]: "test_isCurrentCritical_zero_is_safe \<longleftrightarrow>
     \<not> isCurrentCritical 0"

definition test_isCurrentCritical_discharge_below_threshold :: bool where
  [vcu_predicate_tests]: "test_isCurrentCritical_discharge_below_threshold \<longleftrightarrow>
     \<not> isCurrentCritical (-1490000)"

definition test_isCurrentCritical_discharge_at_threshold :: bool where
  [vcu_predicate_tests]: "test_isCurrentCritical_discharge_at_threshold \<longleftrightarrow>
     isCurrentCritical (-1500000)"

definition test_isCurrentCritical_discharge_above_threshold :: bool where
  [vcu_predicate_tests]: "test_isCurrentCritical_discharge_above_threshold \<longleftrightarrow>
     isCurrentCritical (-2000000)"

definition test_isCurrentWarning_charge_below_threshold :: bool where
  [vcu_predicate_tests]: "test_isCurrentWarning_charge_below_threshold \<longleftrightarrow>
     \<not> isCurrentWarning 80000"

definition test_isCurrentWarning_charge_at_threshold :: bool where
  [vcu_predicate_tests]: "test_isCurrentWarning_charge_at_threshold \<longleftrightarrow>
     isCurrentWarning 90000"

definition test_isCurrentWarning_discharge_below_threshold :: bool where
  [vcu_predicate_tests]: "test_isCurrentWarning_discharge_below_threshold \<longleftrightarrow>
     \<not> isCurrentWarning (-890000)"

definition test_isCurrentWarning_discharge_at_threshold :: bool where
  [vcu_predicate_tests]: "test_isCurrentWarning_discharge_at_threshold \<longleftrightarrow>
     isCurrentWarning (-900000)"

definition test_unverified_temp_not_wired :: bool where
  [vcu_predicate_tests]: "test_unverified_temp_not_wired \<longleftrightarrow>
     (let d = makeTelemetryDataValid\<lparr>TEL_bmsTempHighestC := 99\<rparr>
      in \<not> hasWarningCondition d \<and> \<not> hasCriticalCondition d VS_READY)"

definition test_unverified_current_not_wired :: bool where
  [vcu_predicate_tests]: "test_unverified_current_not_wired \<longleftrightarrow>
     (let d = makeTelemetryDataValid\<lparr>TEL_bmsCurrentCentiMa := - 2000000\<rparr>
      in \<not> hasWarningCondition d \<and> \<not> hasCriticalCondition d VS_READY) \<and>
     (let d = makeTelemetryDataValid\<lparr>TEL_bmsCurrentCentiMa := 120000\<rparr>
      in \<not> hasWarningCondition d \<and> \<not> hasCriticalCondition d VS_READY)"

definition test_warning_voltage_above_warn_low :: bool where
  [vcu_predicate_tests]: "test_warning_voltage_above_warn_low \<longleftrightarrow>
     (let d = makeTelemetryDataValid\<lparr>TEL_bmsPackVoltageDeciV := 730\<rparr>
      in \<not> hasWarningCondition d \<and> \<not> hasCriticalCondition d VS_READY)"

definition test_warning_voltage_at_warn_low :: bool where
  [vcu_predicate_tests]: "test_warning_voltage_at_warn_low \<longleftrightarrow>
     (let d = makeTelemetryDataValid\<lparr>TEL_bmsPackVoltageDeciV := 720\<rparr>
      in hasWarningCondition d \<and> \<not> hasCriticalCondition d VS_READY)"

definition test_critical_voltage_at_crit_low :: bool where
  [vcu_predicate_tests]: "test_critical_voltage_at_crit_low \<longleftrightarrow>
     (let d = makeTelemetryDataValid\<lparr>TEL_bmsPackVoltageDeciV := 600\<rparr>
      in hasWarningCondition d \<and> hasCriticalCondition d VS_READY)"

definition test_warning_voltage_below_warn_high :: bool where
  [vcu_predicate_tests]: "test_warning_voltage_below_warn_high \<longleftrightarrow>
     (let d = makeTelemetryDataValid\<lparr>TEL_bmsPackVoltageDeciV := 840\<rparr>
      in \<not> hasWarningCondition d \<and> \<not> hasCriticalCondition d VS_READY)"

definition test_warning_voltage_at_warn_high :: bool where
  [vcu_predicate_tests]: "test_warning_voltage_at_warn_high \<longleftrightarrow>
     (let d = makeTelemetryDataValid\<lparr>TEL_bmsPackVoltageDeciV := 852\<rparr>
      in hasWarningCondition d \<and> \<not> hasCriticalCondition d VS_READY)"

definition test_critical_voltage_at_crit_high :: bool where
  [vcu_predicate_tests]: "test_critical_voltage_at_crit_high \<longleftrightarrow>
     (let d = makeTelemetryDataValid\<lparr>TEL_bmsPackVoltageDeciV := 876\<rparr>
      in hasWarningCondition d \<and> hasCriticalCondition d VS_READY)"

definition test_critical_motor_error_flag_set :: bool where
  [vcu_predicate_tests]: "test_critical_motor_error_flag_set \<longleftrightarrow>
     (let d = makeTelemetryDataValid\<lparr>TEL_motorErrorFlags := 1\<rparr>
      in hasCriticalCondition d VS_READY)"

definition test_critical_bms_error_flag_set :: bool where
  [vcu_predicate_tests]: "test_critical_bms_error_flag_set \<longleftrightarrow>
     (let d = makeTelemetryDataValid\<lparr>TEL_bmsSystemState := 4\<rparr>
      in hasCriticalCondition d VS_READY)"

definition test_motor_timeout_in_idle_is_safe :: bool where
  [vcu_predicate_tests]: "test_motor_timeout_in_idle_is_safe \<longleftrightarrow>
     (let d = makeTelemetryDataValid\<lparr>TEL_motorTimeoutActive := True\<rparr>
      in \<not> hasCriticalCondition d VS_IDLE)"

definition test_motor_timeout_in_ready_is_critical :: bool where
  [vcu_predicate_tests]: "test_motor_timeout_in_ready_is_critical \<longleftrightarrow>
     (let d = makeTelemetryDataValid\<lparr>TEL_motorTimeoutActive := True\<rparr>
      in hasCriticalCondition d VS_READY)"

definition test_motor_timeout_in_drive_is_critical :: bool where
  [vcu_predicate_tests]: "test_motor_timeout_in_drive_is_critical \<longleftrightarrow>
     (let d = makeTelemetryDataValid\<lparr>TEL_motorTimeoutActive := True\<rparr>
      in hasCriticalCondition d VS_DRIVE)"

definition test_bms_timeout_in_idle_is_safe :: bool where
  [vcu_predicate_tests]: "test_bms_timeout_in_idle_is_safe \<longleftrightarrow>
     (let d = makeTelemetryDataValid\<lparr>TEL_bmsTimeoutActive := True, TEL_bmsDataValid := False\<rparr>
      in \<not> hasCriticalCondition d VS_IDLE)"

definition test_bms_timeout_in_ready_is_critical :: bool where
  [vcu_predicate_tests]: "test_bms_timeout_in_ready_is_critical \<longleftrightarrow>
     (let d = makeTelemetryDataValid\<lparr>TEL_bmsTimeoutActive := True, TEL_bmsDataValid := False\<rparr>
      in hasCriticalCondition d VS_READY)"

definition test_bms_timeout_in_drive_is_critical :: bool where
  [vcu_predicate_tests]: "test_bms_timeout_in_drive_is_critical \<longleftrightarrow>
     (let d = makeTelemetryDataValid\<lparr>TEL_bmsTimeoutActive := True, TEL_bmsDataValid := False\<rparr>
      in hasCriticalCondition d VS_DRIVE)"

definition test_warning_bms_invalid_skips_thresholds :: bool where
  [vcu_predicate_tests]: "test_warning_bms_invalid_skips_thresholds \<longleftrightarrow>
     (let d = makeTelemetryDataValid\<lparr>TEL_bmsDataValid := False, TEL_bmsTempHighestC := 99, TEL_bmsPackVoltageDeciV := 500, TEL_bmsCurrentCentiMa := - 2500000\<rparr>
      in \<not> hasWarningCondition d \<and> \<not> hasCriticalCondition d VS_READY)"

definition test_critical_bms_invalid_with_motor_error_still_critical :: bool where
  [vcu_predicate_tests]: "test_critical_bms_invalid_with_motor_error_still_critical \<longleftrightarrow>
     (let d = makeTelemetryDataValid\<lparr>TEL_bmsDataValid := False, TEL_motorErrorFlags := 4\<rparr>
      in hasCriticalCondition d VS_READY)"

definition test_baseline_clean_data_no_conditions :: bool where
  [vcu_predicate_tests]: "test_baseline_clean_data_no_conditions \<longleftrightarrow>
     (let d = makeTelemetryDataValid
      in \<not> hasWarningCondition d \<and> \<not> hasCriticalCondition d VS_IDLE \<and> \<not> hasCriticalCondition d VS_READY \<and> \<not> hasCriticalCondition d VS_DRIVE)"

definition test_reset_interlock_clean_baseline_passes :: bool where
  [vcu_predicate_tests]: "test_reset_interlock_clean_baseline_passes \<longleftrightarrow>
     (let d = makeTelemetryDataValid
      in isResetInterlockSatisfied d VS_FAULT \<and> isResetInterlockSatisfied d VS_EMERGENCY_STOP)"

definition test_reset_interlock_motor_error_blocks :: bool where
  [vcu_predicate_tests]: "test_reset_interlock_motor_error_blocks \<longleftrightarrow>
     (let d = makeTelemetryDataValid\<lparr>TEL_motorErrorFlags := 2\<rparr>
      in \<not> isResetInterlockSatisfied d VS_FAULT)"

definition test_reset_interlock_bms_error_blocks :: bool where
  [vcu_predicate_tests]: "test_reset_interlock_bms_error_blocks \<longleftrightarrow>
     (let d = makeTelemetryDataValid\<lparr>TEL_bmsSystemState := 4\<rparr>
      in \<not> isResetInterlockSatisfied d VS_FAULT)"

definition test_reset_interlock_unverified_bms_system_state_does_not_block :: bool where
  [vcu_predicate_tests]: "test_reset_interlock_unverified_bms_system_state_does_not_block \<longleftrightarrow>
     (let d = makeTelemetryDataValid\<lparr>TEL_bmsSystemState := 4, TEL_bmsDataValid := False\<rparr>
      in isResetInterlockSatisfied d VS_FAULT)"

definition test_reset_interlock_unverified_temp_does_not_block :: bool where
  [vcu_predicate_tests]: "test_reset_interlock_unverified_temp_does_not_block \<longleftrightarrow>
     (let d = makeTelemetryDataValid\<lparr>TEL_bmsTempHighestC := 75\<rparr>
      in isResetInterlockSatisfied d VS_FAULT)"

definition test_reset_interlock_unverified_current_does_not_block :: bool where
  [vcu_predicate_tests]: "test_reset_interlock_unverified_current_does_not_block \<longleftrightarrow>
     (let d = makeTelemetryDataValid\<lparr>TEL_bmsCurrentCentiMa := - 2000000\<rparr>
      in isResetInterlockSatisfied d VS_FAULT)"

definition test_reset_interlock_critical_voltage_low_blocks :: bool where
  [vcu_predicate_tests]: "test_reset_interlock_critical_voltage_low_blocks \<longleftrightarrow>
     (let d = makeTelemetryDataValid\<lparr>TEL_bmsPackVoltageDeciV := 590\<rparr>
      in \<not> isResetInterlockSatisfied d VS_FAULT)"

definition test_reset_interlock_critical_voltage_high_blocks :: bool where
  [vcu_predicate_tests]: "test_reset_interlock_critical_voltage_high_blocks \<longleftrightarrow>
     (let d = makeTelemetryDataValid\<lparr>TEL_bmsPackVoltageDeciV := 900\<rparr>
      in \<not> isResetInterlockSatisfied d VS_FAULT)"

definition test_reset_interlock_motor_timeout_in_fault_blocks :: bool where
  [vcu_predicate_tests]: "test_reset_interlock_motor_timeout_in_fault_blocks \<longleftrightarrow>
     (let d = makeTelemetryDataValid\<lparr>TEL_motorTimeoutActive := True\<rparr>
      in \<not> isResetInterlockSatisfied d VS_FAULT)"

definition test_reset_interlock_bms_timeout_in_fault_blocks :: bool where
  [vcu_predicate_tests]: "test_reset_interlock_bms_timeout_in_fault_blocks \<longleftrightarrow>
     (let d = makeTelemetryDataValid\<lparr>TEL_bmsTimeoutActive := True, TEL_bmsDataValid := False\<rparr>
      in \<not> isResetInterlockSatisfied d VS_FAULT)"

definition test_reset_interlock_warning_level_passes :: bool where
  [vcu_predicate_tests]: "test_reset_interlock_warning_level_passes \<longleftrightarrow>
     (let d = makeTelemetryDataValid\<lparr>TEL_bmsPackVoltageDeciV := 720\<rparr>
      in isResetInterlockSatisfied d VS_FAULT)"

section \<open>The test program\<close>

text \<open>The tests of these two files, in the order in which \<open>test_main.cpp\<close> runs them.\<close>

definition predicate_tests :: "bool list" where
  "predicate_tests = [
     test_isCurrentCritical_charge_below_threshold,
     test_isCurrentCritical_charge_at_threshold,
     test_isCurrentCritical_charge_above_threshold,
     test_isCurrentCritical_zero_is_safe,
     test_isCurrentCritical_discharge_below_threshold,
     test_isCurrentCritical_discharge_at_threshold,
     test_isCurrentCritical_discharge_above_threshold,
     test_isCurrentWarning_charge_below_threshold,
     test_isCurrentWarning_charge_at_threshold,
     test_isCurrentWarning_discharge_below_threshold,
     test_isCurrentWarning_discharge_at_threshold,
     test_unverified_temp_not_wired,
     test_unverified_current_not_wired,
     test_warning_voltage_above_warn_low,
     test_warning_voltage_at_warn_low,
     test_critical_voltage_at_crit_low,
     test_warning_voltage_below_warn_high,
     test_warning_voltage_at_warn_high,
     test_critical_voltage_at_crit_high,
     test_critical_motor_error_flag_set,
     test_critical_bms_error_flag_set,
     test_motor_timeout_in_idle_is_safe,
     test_motor_timeout_in_ready_is_critical,
     test_motor_timeout_in_drive_is_critical,
     test_bms_timeout_in_idle_is_safe,
     test_bms_timeout_in_ready_is_critical,
     test_bms_timeout_in_drive_is_critical,
     test_warning_bms_invalid_skips_thresholds,
     test_critical_bms_invalid_with_motor_error_still_critical,
     test_baseline_clean_data_no_conditions,
     test_reset_interlock_clean_baseline_passes,
     test_reset_interlock_motor_error_blocks,
     test_reset_interlock_bms_error_blocks,
     test_reset_interlock_unverified_temp_does_not_block,
     test_reset_interlock_critical_voltage_low_blocks,
     test_reset_interlock_critical_voltage_high_blocks,
     test_reset_interlock_unverified_current_does_not_block,
     test_reset_interlock_motor_timeout_in_fault_blocks,
     test_reset_interlock_bms_timeout_in_fault_blocks,
     test_reset_interlock_warning_level_passes,
     test_reset_interlock_unverified_bms_system_state_does_not_block]"

lemma predicate_tests_pass: "list_all id predicate_tests"
  unfolding predicate_tests_def vcu_predicate_tests by code_simp

end
