(* ===== verification/Vcu_Test.thy ===== *)
theory Vcu_Test
  imports Vcu_Gaps Vcu_Predicate_Tests
begin

text \<open>
  The native tests of the state machine (\<open>test/test_native_vcu_logic/test_state_machine.cpp\<close>) as
  scripts over the unit and the two stand-ins they link: the queue of \<open>fake_freertos.cpp\<close>, which the
  unit of the model carries, and the counting relays of \<open>fake_relay_manager.cpp\<close>. A failing
  assertion leaves the test, so a script that ends has passed.
\<close>

section \<open>The bench\<close>

record bench =
  BE_unit :: "VcuEvent fake_queue Vcu"
  BE_relay :: fake_relay

definition fake_freertos_reset :: "VcuEvent fake_queue Vcu \<Rightarrow> VcuEvent fake_queue Vcu" where
  "fake_freertos_reset v =
     v\<lparr>VCU_eventQueue := map_option (\<lambda>q. q\<lparr>FQ_queue := []\<rparr>) (VCU_eventQueue v)\<rparr>"

definition fake_relay_reset :: "fake_relay \<Rightarrow> fake_relay" where
  "fake_relay_reset r = r\<lparr>FR_allOn_count := 0, FR_allOff_count := 0, FR_allOff_silent_count := 0,
       FR_setRelay_count := 0\<rparr>"

text \<open>The reset of the unit between tests, with the loop that drains the queue.\<close>

definition resetForTest :: "('q \<Rightarrow> (VcuEvent \<times> 'q) option) \<Rightarrow> 'q Vcu \<Rightarrow> 'q Vcu option" where
  "resetForTest recv v =
     (let v1 = v\<lparr>VCU_state := VS_INIT, VCU_stateTimer := 0, VCU_latestData := TelemetryData_zero,
                VCU_warningLogged := False, VCU_eStopPending := False,
                VCU_relaysOpenedInEstop := False, VCU_relaysOpenedInFault := False,
                VCU_lastEstopLogMs := 0, VCU_lastFaultLogMs := 0\<rparr>
      in case VCU_eventQueue v1 of
           None \<Rightarrow> Some v1
         | Some q \<Rightarrow> map_option (\<lambda>q'. v1\<lparr>VCU_eventQueue := Some q'\<rparr>) (queue_drain recv q))"

section \<open>Scripts\<close>

datatype test_op =
    ResetForTest | FakeFreertosReset | FakeRelayReset | Init
  | PostEvent VcuEvent | Run | SetTelemetryData TelemetryData
  | AssertState VcuState | AssertAllOn nat | AssertAllOff nat | AssertSilent nat

definition bench_acts :: "VcuEvent fake_queue Vcu \<times> vcu_act list \<Rightarrow> bench \<Rightarrow> bench" where
  "bench_acts p b =
     b\<lparr>BE_unit := fst p, BE_relay := fold (exec_cmd fake_allOn fake_allOff) (relay_cmds (snd p)) (BE_relay b)\<rparr>"

fun test_step :: "test_op \<Rightarrow> bench \<Rightarrow> bench option" where
  "test_step ResetForTest b =
     map_option (\<lambda>v. b\<lparr>BE_unit := v\<rparr>) (resetForTest fake_xQueueReceive (BE_unit b))"
| "test_step FakeFreertosReset b = Some (b\<lparr>BE_unit := fake_freertos_reset (BE_unit b)\<rparr>)"
| "test_step FakeRelayReset b = Some (b\<lparr>BE_relay := fake_relay_reset (BE_relay b)\<rparr>)"
| "test_step Init b =
     Some (bench_acts (vcu_init (Some (fake_xQueueCreate VCU_QUEUE_LENGTH)) True (BE_unit b)) b)"
| "test_step (PostEvent e) b = Some (bench_acts (postEvent fake_xQueueSend e (BE_unit b)) b)"
| "test_step Run b = Some (bench_acts (vcu_run fake_xQueueReceive (BE_unit b)) b)"
| "test_step (SetTelemetryData d) b = Some (b\<lparr>BE_unit := setTelemetryData d (BE_unit b)\<rparr>)"
| "test_step (AssertState s) b = (if getState (BE_unit b) = s then Some b else None)"
| "test_step (AssertAllOn n) b = (if FR_allOn_count (BE_relay b) = n then Some b else None)"
| "test_step (AssertAllOff n) b = (if FR_allOff_count (BE_relay b) = n then Some b else None)"
| "test_step (AssertSilent n) b = (if FR_allOff_silent_count (BE_relay b) = n then Some b else None)"

fun test_run :: "test_op list \<Rightarrow> bench \<Rightarrow> bench option" where
  "test_run [] b = Some b"
| "test_run (t # ts) b = (case test_step t b of None \<Rightarrow> None | Some b' \<Rightarrow> test_run ts b')"

section \<open>The tests\<close>

definition primeIdle :: "test_op list" where
  "primeIdle = [ResetForTest, FakeFreertosReset, FakeRelayReset, Init,
     SetTelemetryData makeTelemetryDataValid, AssertState VS_IDLE]"

definition test_init_transitions_to_idle_and_calls_allOff :: "test_op list" where
  "test_init_transitions_to_idle_and_calls_allOff =
     [ResetForTest, FakeFreertosReset, FakeRelayReset, Init, AssertState VS_IDLE, AssertAllOff 1]"

definition test_idle_to_ready_on_start_request :: "test_op list" where
  "test_idle_to_ready_on_start_request = primeIdle @
     [PostEvent VE_START_REQUEST, Run, AssertState VS_READY, AssertAllOn 1]"

definition test_ready_to_drive_on_drive_enable :: "test_op list" where
  "test_ready_to_drive_on_drive_enable = primeIdle @
     [PostEvent VE_START_REQUEST, Run, AssertState VS_READY, PostEvent VE_DRIVE_ENABLE, Run,
      AssertState VS_DRIVE]"

definition test_idle_to_emergency_stop :: "test_op list" where
  "test_idle_to_emergency_stop = primeIdle @
     [PostEvent VE_EMERGENCY_STOP, Run, AssertState VS_EMERGENCY_STOP]"

definition test_drive_to_emergency_stop :: "test_op list" where
  "test_drive_to_emergency_stop = primeIdle @
     [PostEvent VE_START_REQUEST, Run, PostEvent VE_DRIVE_ENABLE, Run, AssertState VS_DRIVE,
      PostEvent VE_EMERGENCY_STOP, Run, AssertState VS_EMERGENCY_STOP]"

definition test_idle_to_fault_on_fault_event :: "test_op list" where
  "test_idle_to_fault_on_fault_event = primeIdle @
     [PostEvent VE_FAULT_DETECTED, Run, AssertState VS_FAULT]"

definition test_ready_to_fault_on_fault_event :: "test_op list" where
  "test_ready_to_fault_on_fault_event = primeIdle @
     [PostEvent VE_START_REQUEST, Run, PostEvent VE_FAULT_DETECTED, Run, AssertState VS_FAULT]"

definition test_ready_to_fault_on_critical_telemetry :: "test_op list" where
  "test_ready_to_fault_on_critical_telemetry = primeIdle @
     [PostEvent VE_START_REQUEST, Run, AssertState VS_READY,
      SetTelemetryData (makeTelemetryDataValid\<lparr>TEL_bmsPackVoltageDeciV := 590\<rparr>), Run,
      AssertState VS_FAULT]"

definition test_drive_to_fault_on_bms_timeout :: "test_op list" where
  "test_drive_to_fault_on_bms_timeout = primeIdle @
     [PostEvent VE_START_REQUEST, Run, PostEvent VE_DRIVE_ENABLE, Run,
      SetTelemetryData (makeTelemetryDataValid\<lparr>TEL_bmsTimeoutActive := True, TEL_bmsDataValid := False\<rparr>),
      Run, AssertState VS_FAULT]"

definition test_fault_to_idle_on_reset_when_clean :: "test_op list" where
  "test_fault_to_idle_on_reset_when_clean = primeIdle @
     [PostEvent VE_FAULT_DETECTED, Run, AssertState VS_FAULT,
      SetTelemetryData makeTelemetryDataValid, PostEvent VE_RESET, Run, AssertState VS_IDLE]"

definition test_emergency_stop_to_idle_on_reset_when_clean :: "test_op list" where
  "test_emergency_stop_to_idle_on_reset_when_clean = primeIdle @
     [PostEvent VE_EMERGENCY_STOP, Run, AssertState VS_EMERGENCY_STOP,
      SetTelemetryData makeTelemetryDataValid, PostEvent VE_RESET, Run, AssertState VS_IDLE]"

definition test_fault_stays_on_reset_when_motor_error :: "test_op list" where
  "test_fault_stays_on_reset_when_motor_error = primeIdle @
     [SetTelemetryData (makeTelemetryDataValid\<lparr>TEL_motorErrorFlags := 0x01\<rparr>),
      PostEvent VE_FAULT_DETECTED, Run, AssertState VS_FAULT, PostEvent VE_RESET, Run,
      AssertState VS_FAULT]"

definition test_idle_reset_is_noop :: "test_op list" where
  "test_idle_reset_is_noop = primeIdle @ [PostEvent VE_RESET, Run, AssertState VS_IDLE]"

definition test_idle_with_motor_timeout_stays_idle :: "test_op list" where
  "test_idle_with_motor_timeout_stays_idle = primeIdle @
     [SetTelemetryData (makeTelemetryDataValid\<lparr>TEL_motorTimeoutActive := True\<rparr>), Run,
      AssertState VS_IDLE]"

definition test_idle_with_unverified_bms_system_state_stays_idle :: "test_op list" where
  "test_idle_with_unverified_bms_system_state_stays_idle = primeIdle @
     [SetTelemetryData (makeTelemetryDataValid\<lparr>TEL_bmsSystemState := 4, TEL_bmsDataValid := False\<rparr>),
      Run, AssertState VS_IDLE]"

definition test_emergency_stop_opens_contactors_after_delay :: "test_op list" where
  "test_emergency_stop_opens_contactors_after_delay = primeIdle @
     [FakeRelayReset, PostEvent VE_EMERGENCY_STOP, Run, AssertAllOff 0, Run, AssertAllOff 1]"

text \<open>This one is in the file, but \<open>main\<close> does not run it.\<close>

definition test_fault_latches_contactors_off_once_and_reasserts :: "test_op list" where
  "test_fault_latches_contactors_off_once_and_reasserts = primeIdle @
     [FakeRelayReset, PostEvent VE_FAULT_DETECTED, Run, AssertAllOff 0, Run, AssertAllOff 1, AssertSilent 0]
     @ replicate 48 Run @ [AssertAllOff 1, Run, AssertAllOff 2, AssertSilent 1]"

text \<open>The tests that \<open>main\<close> runs, in its order.\<close>

definition state_tests :: "test_op list list" where
  "state_tests = [test_init_transitions_to_idle_and_calls_allOff, test_idle_to_ready_on_start_request,
     test_ready_to_drive_on_drive_enable, test_idle_to_emergency_stop, test_drive_to_emergency_stop,
     test_idle_to_fault_on_fault_event, test_ready_to_fault_on_fault_event,
     test_ready_to_fault_on_critical_telemetry, test_drive_to_fault_on_bms_timeout,
     test_fault_to_idle_on_reset_when_clean, test_emergency_stop_to_idle_on_reset_when_clean,
     test_fault_stays_on_reset_when_motor_error, test_idle_reset_is_noop,
     test_idle_with_motor_timeout_stays_idle, test_emergency_stop_opens_contactors_after_delay,
     test_idle_with_unverified_bms_system_state_stays_idle]"

lemmas state_test_defs = test_idle_to_ready_on_start_request_def test_ready_to_drive_on_drive_enable_def
  test_idle_to_emergency_stop_def test_drive_to_emergency_stop_def
  test_idle_to_fault_on_fault_event_def test_ready_to_fault_on_fault_event_def
  test_ready_to_fault_on_critical_telemetry_def test_drive_to_fault_on_bms_timeout_def
  test_fault_to_idle_on_reset_when_clean_def test_emergency_stop_to_idle_on_reset_when_clean_def
  test_fault_stays_on_reset_when_motor_error_def test_idle_reset_is_noop_def
  test_idle_with_motor_timeout_stays_idle_def test_emergency_stop_opens_contactors_after_delay_def
  test_idle_with_unverified_bms_system_state_stays_idle_def

section \<open>Isolation\<close>

lemma test_run_append:
  "test_run (xs @ ys) b = (case test_run xs b of None \<Rightarrow> None | Some b' \<Rightarrow> test_run ys b')"
  by (induction xs arbitrary: b) (simp_all split: option.split)

text \<open>The drain loop ends on any queue of the stand-in.\<close>

lemma fake_drain: "\<exists>q'. queue_drain fake_xQueueReceive q = Some q'"
proof (induction "FQ_queue q" arbitrary: q)
  case Nil
  then show ?case by (subst queue_drain.simps) (simp add: fake_xQueueReceive_def)
next
  case (Cons e es)
  have "fake_xQueueReceive q = Some (e, q\<lparr>FQ_queue := es\<rparr>)"
    by (simp add: fake_xQueueReceive_def flip: Cons.hyps(2))
  with Cons.hyps(1) [of "q\<lparr>FQ_queue := es\<rparr>"] show ?case by (subst queue_drain.simps) simp
qed

definition bench_fresh :: bench where
  "bench_fresh = \<lparr>BE_unit = fst (vcu_init (Some (fake_xQueueCreate VCU_QUEUE_LENGTH)) True Vcu_new),
     BE_relay = \<lparr>FR_relayState = 0, FR_allOn_count = 0, FR_allOff_count = 1,
       FR_allOff_silent_count = 0, FR_setRelay_count = 0\<rparr>\<rparr>"

text \<open>Whatever earlier tests left behind, the fixture begins with a unit that has just started.\<close>

lemma fixture_restores: "test_run [ResetForTest, FakeFreertosReset, FakeRelayReset, Init] b = Some bench_fresh"
proof -
  obtain v where v: "resetForTest fake_xQueueReceive (BE_unit b) = Some v"
    and same: "v\<lparr>VCU_eventQueue := None, VCU_dataMutex := False\<rparr> = Vcu_new"
    using fake_drain
    by (cases "VCU_eventQueue (BE_unit b)") (fastforce simp: resetForTest_def Vcu_new_def)+
  show ?thesis using same
    by (simp add: v bench_acts_def fake_freertos_reset_def fake_relay_reset_def bench_fresh_def
        vcu_init_def transitionTo_def Vcu_new_def fake_allOff_def Let_def) (cases v; simp)
qed

text \<open>The rest of a script runs on a concrete unit.\<close>

definition after_fixture :: "test_op list \<Rightarrow> bool" where
  "after_fixture ts \<longleftrightarrow>
     test_run ([SetTelemetryData makeTelemetryDataValid, AssertState VS_IDLE] @ ts) bench_fresh \<noteq> None"

lemma fixture_run:
  "test_run ([ResetForTest, FakeFreertosReset, FakeRelayReset, Init] @ ts) b = test_run ts bench_fresh"
  by (simp only: test_run_append [of "[ResetForTest, FakeFreertosReset, FakeRelayReset, Init]"]
      fixture_restores option.case)

lemma prime_run: "test_run (primeIdle @ ts) b \<noteq> None \<longleftrightarrow> after_fixture ts"
  using fixture_run [of "[SetTelemetryData makeTelemetryDataValid, AssertState VS_IDLE] @ ts" b]
  by (simp only: primeIdle_def append_Cons append_Nil after_fixture_def)

lemma init_run:
  "test_run test_init_transitions_to_idle_and_calls_allOff b =
   test_run [AssertState VS_IDLE, AssertAllOff 1] bench_fresh"
  using fixture_run [of "[AssertState VS_IDLE, AssertAllOff 1]" b]
  by (simp only: test_init_transitions_to_idle_and_calls_allOff_def append_Cons append_Nil)

section \<open>Property\<close>


end
