(* ===== verification/Bms_Algo.thy ===== *)
theory Bms_Algo
  imports Aks_Prelude
begin

text \<open>
  The interpretation of one snapshot of the 24-cell battery pack (\<open>lib/BmsAlgo/BmsAlgo.cpp\<close> with the
  data of \<open>BmsModel.h\<close> and \<open>BmsComputed.h\<close>): extremes, state of charge, balancing and warning level.
  The C++ arrays are lists of length \<open>BMS_CELL_COUNT\<close>.
\<close>

section \<open>Data\<close>

definition BMS_CELL_COUNT :: nat where [aks_config]: "BMS_CELL_COUNT = 24"

record BmsPackData =
  BMS_cellVoltageMv :: "u16 list"
  BMS_cellTempC :: "i16 list"
  BMS_packCurrentMa :: i32
  BMS_isValid :: bool

definition pack_wf :: "BmsPackData \<Rightarrow> bool" where
  "pack_wf p \<longleftrightarrow> length (BMS_cellVoltageMv p) = BMS_CELL_COUNT \<and>
     length (BMS_cellTempC p) = BMS_CELL_COUNT"

definition BMS_WARN_OK :: u8 where [aks_config]: "BMS_WARN_OK = 0"
definition BMS_WARN_WARNING :: u8 where [aks_config]: "BMS_WARN_WARNING = 1"
definition BMS_WARN_CRITICAL :: u8 where [aks_config]: "BMS_WARN_CRITICAL = 2"

record BmsComputed =
  BC_packVoltageMv :: u32
  BC_cellMaxMv :: u16
  BC_cellMinMv :: u16
  BC_cellMaxIndex :: u8
  BC_cellMinIndex :: u8
  BC_cellDeltaMv :: u16
  BC_socPercent :: u8
  BC_balanceFlag :: "bool list"
  BC_warningLevel :: u8
  BC_tempMaxC :: i16
  BC_tempMinC :: i16

definition BmsComputed_zero :: BmsComputed where
  "BmsComputed_zero = \<lparr>BC_packVoltageMv = 0, BC_cellMaxMv = 0, BC_cellMinMv = 0,
     BC_cellMaxIndex = 0, BC_cellMinIndex = 0, BC_cellDeltaMv = 0, BC_socPercent = 0,
     BC_balanceFlag = replicate BMS_CELL_COUNT False, BC_warningLevel = 0, BC_tempMaxC = 0,
     BC_tempMinC = 0\<rparr>"

definition BMS_BALANCE_THRESHOLD_MV :: u16 where [aks_config]: "BMS_BALANCE_THRESHOLD_MV = 50"
definition BMS_BALANCE_TOP_MARGIN_MV :: u16 where [aks_config]: "BMS_BALANCE_TOP_MARGIN_MV = 5"
definition BMS_SOC_EMPTY_MV :: u16 where [aks_config]: "BMS_SOC_EMPTY_MV = 2500"
definition BMS_SOC_FULL_MV :: u16 where [aks_config]: "BMS_SOC_FULL_MV = 3650"
definition BMS_CELL_UNDERVOLT_CRIT_MV :: u16 where [aks_config]: "BMS_CELL_UNDERVOLT_CRIT_MV = 2500"
definition BMS_CELL_OVERVOLT_CRIT_MV :: u16 where [aks_config]: "BMS_CELL_OVERVOLT_CRIT_MV = 3650"
definition BMS_TEMP_OVERTEMP_CRIT_C :: i16 where [aks_config]: "BMS_TEMP_OVERTEMP_CRIT_C = 60"
definition BMS_CELL_UNDERVOLT_WARN_MV :: u16 where [aks_config]: "BMS_CELL_UNDERVOLT_WARN_MV = 2800"
definition BMS_CELL_OVERVOLT_WARN_MV :: u16 where [aks_config]: "BMS_CELL_OVERVOLT_WARN_MV = 3550"
definition BMS_TEMP_OVERTEMP_WARN_C :: i16 where [aks_config]: "BMS_TEMP_OVERTEMP_WARN_C = 50"

section \<open>The algorithm\<close>

definition makeSafeInvalid :: BmsComputed where
  "makeSafeInvalid = BmsComputed_zero\<lparr>BC_warningLevel := BMS_WARN_CRITICAL, BC_socPercent := 0\<rparr>"

definition socFromAvgMv :: "u32 \<Rightarrow> u8" where
  "socFromAvgMv avgMv =
     (if avgMv \<le> ucast BMS_SOC_EMPTY_MV then 0
      else if ucast BMS_SOC_FULL_MV \<le> avgMv then 100
      else let span = ucast BMS_SOC_FULL_MV - ucast BMS_SOC_EMPTY_MV;
               above = avgMv - ucast BMS_SOC_EMPTY_MV
           in ucast (above * 100 div span))"

text \<open>The accumulators of the single pass over the cells.\<close>

record pack_scan =
  PS_sumMv :: u32
  PS_maxMv :: u16
  PS_minMv :: u16
  PS_maxIdx :: u8
  PS_minIdx :: u8
  PS_tMax :: i16
  PS_tMin :: i16

definition pack_scan_start :: "BmsPackData \<Rightarrow> pack_scan" where
  "pack_scan_start p = \<lparr>PS_sumMv = 0, PS_maxMv = BMS_cellVoltageMv p ! 0,
     PS_minMv = BMS_cellVoltageMv p ! 0, PS_maxIdx = 0, PS_minIdx = 0,
     PS_tMax = BMS_cellTempC p ! 0, PS_tMin = BMS_cellTempC p ! 0\<rparr>"

definition pack_scan_cell :: "BmsPackData \<Rightarrow> nat \<Rightarrow> pack_scan \<Rightarrow> pack_scan" where
  "pack_scan_cell p i s =
     (let v = BMS_cellVoltageMv p ! i;
          s1 = s\<lparr>PS_sumMv := PS_sumMv s + ucast v\<rparr>;
          s2 = (if PS_maxMv s1 < v then s1\<lparr>PS_maxMv := v, PS_maxIdx := of_nat i\<rparr> else s1);
          s3 = (if v < PS_minMv s2 then s2\<lparr>PS_minMv := v, PS_minIdx := of_nat i\<rparr> else s2);
          t = BMS_cellTempC p ! i;
          s4 = (if sint (PS_tMax s3) < sint t then s3\<lparr>PS_tMax := t\<rparr> else s3)
      in if sint t < sint (PS_tMin s4) then s4\<lparr>PS_tMin := t\<rparr> else s4)"

definition balance_flags :: "BmsPackData \<Rightarrow> u16 \<Rightarrow> bool list" where
  "balance_flags p maxMv =
     (let lowBound = (if BMS_BALANCE_TOP_MARGIN_MV < maxMv
                      then maxMv - BMS_BALANCE_TOP_MARGIN_MV else 0)
      in map (\<lambda>i. lowBound \<le> BMS_cellVoltageMv p ! i) [0..<BMS_CELL_COUNT])"

definition warning_level :: "u16 \<Rightarrow> u16 \<Rightarrow> i16 \<Rightarrow> u8" where
  "warning_level minMv maxMv tMax =
     (if minMv < BMS_CELL_UNDERVOLT_CRIT_MV \<or> BMS_CELL_OVERVOLT_CRIT_MV < maxMv \<or>
         sint BMS_TEMP_OVERTEMP_CRIT_C < sint tMax then BMS_WARN_CRITICAL
      else if minMv < BMS_CELL_UNDERVOLT_WARN_MV \<or> BMS_CELL_OVERVOLT_WARN_MV < maxMv \<or>
         sint BMS_TEMP_OVERTEMP_WARN_C < sint tMax then BMS_WARN_WARNING
      else BMS_WARN_OK)"

definition computePack :: "BmsPackData \<Rightarrow> BmsComputed" where
  "computePack p =
     (if \<not> BMS_isValid p then makeSafeInvalid
      else
        let s = fold (pack_scan_cell p) [0..<BMS_CELL_COUNT] (pack_scan_start p);
            c = BmsComputed_zero\<lparr>
              BC_packVoltageMv := PS_sumMv s, BC_cellMaxMv := PS_maxMv s, BC_cellMinMv := PS_minMv s,
              BC_cellMaxIndex := PS_maxIdx s, BC_cellMinIndex := PS_minIdx s,
              BC_cellDeltaMv := PS_maxMv s - PS_minMv s,
              BC_tempMaxC := PS_tMax s, BC_tempMinC := PS_tMin s,
              BC_socPercent := socFromAvgMv (PS_sumMv s div of_nat BMS_CELL_COUNT)\<rparr>;
            c1 = (if BMS_BALANCE_THRESHOLD_MV < BC_cellDeltaMv c
                  then c\<lparr>BC_balanceFlag := balance_flags p (PS_maxMv s)\<rparr> else c)
        in c1\<lparr>BC_warningLevel := warning_level (PS_minMv s) (PS_maxMv s) (PS_tMax s)\<rparr>)"

section \<open>The scan\<close>

text \<open>What the accumulators hold after the first \<open>n\<close> cells.\<close>

definition scan_inv :: "BmsPackData \<Rightarrow> nat \<Rightarrow> pack_scan \<Rightarrow> bool" where
  "scan_inv p n s \<longleftrightarrow>
     unat (PS_sumMv s) = (\<Sum>i<n. unat (BMS_cellVoltageMv p ! i)) \<and>
     (let x = unat (PS_maxIdx s) in x \<le> n - 1 \<and> PS_maxMv s = BMS_cellVoltageMv p ! x \<and>
       (\<forall>i<n. BMS_cellVoltageMv p ! i \<le> PS_maxMv s) \<and> (\<forall>i<x. BMS_cellVoltageMv p ! i < PS_maxMv s)) \<and>
     (let x = unat (PS_minIdx s) in x \<le> n - 1 \<and> PS_minMv s = BMS_cellVoltageMv p ! x \<and>
       (\<forall>i<n. PS_minMv s \<le> BMS_cellVoltageMv p ! i) \<and> (\<forall>i<x. PS_minMv s < BMS_cellVoltageMv p ! i)) \<and>
     (\<forall>i<n. sint (PS_tMin s) \<le> sint (BMS_cellTempC p ! i) \<and>
       sint (BMS_cellTempC p ! i) \<le> sint (PS_tMax s)) \<and>
     (\<exists>i\<le>n - 1. PS_tMin s = BMS_cellTempC p ! i) \<and> (\<exists>i\<le>n - 1. PS_tMax s = BMS_cellTempC p ! i)"

lemma scan_cell_fields:
  "PS_sumMv (pack_scan_cell p i s) = PS_sumMv s + ucast (BMS_cellVoltageMv p ! i)"
  "PS_maxMv (pack_scan_cell p i s) =
     (if PS_maxMv s < BMS_cellVoltageMv p ! i then BMS_cellVoltageMv p ! i else PS_maxMv s)"
  "PS_maxIdx (pack_scan_cell p i s) =
     (if PS_maxMv s < BMS_cellVoltageMv p ! i then of_nat i else PS_maxIdx s)"
  "PS_minMv (pack_scan_cell p i s) =
     (if BMS_cellVoltageMv p ! i < PS_minMv s then BMS_cellVoltageMv p ! i else PS_minMv s)"
  "PS_minIdx (pack_scan_cell p i s) =
     (if BMS_cellVoltageMv p ! i < PS_minMv s then of_nat i else PS_minIdx s)"
  "PS_tMax (pack_scan_cell p i s) =
     (if sint (PS_tMax s) < sint (BMS_cellTempC p ! i) then BMS_cellTempC p ! i else PS_tMax s)"
  "PS_tMin (pack_scan_cell p i s) =
     (if sint (BMS_cellTempC p ! i) < sint (PS_tMin s) then BMS_cellTempC p ! i else PS_tMin s)"
  by (simp_all add: pack_scan_cell_def Let_def)

lemma unat_small_idx: "n < 24 \<Longrightarrow> unat (of_nat n :: u8) = n"
  by (simp add: unat_of_nat)

lemma scan_inv_start: "scan_inv p 0 (pack_scan_start p)"
  by (auto simp: scan_inv_def pack_scan_start_def)

lemma cells_sum_bound: "(\<Sum>i<n. unat (f i :: u16)) \<le> n * 65535"
proof (induction n)
  case (Suc n)
  then show ?case using unat_16_less [of "f n"] by simp
qed simp

lemma scan_sum_step:
  assumes "unat (PS_sumMv s) = (\<Sum>i<n. unat (BMS_cellVoltageMv p ! i))" "n < 24"
  shows "unat (PS_sumMv (pack_scan_cell p n s)) = (\<Sum>i<Suc n. unat (BMS_cellVoltageMv p ! i))"
proof -
  have "(\<Sum>i<n. unat (BMS_cellVoltageMv p ! i)) \<le> 24 * 65535"
    using cells_sum_bound [of "\<lambda>i. BMS_cellVoltageMv p ! i" n] assms(2) by linarith
  moreover have "unat (BMS_cellVoltageMv p ! n) < 65536" by (rule unat_16_less)
  moreover have "unat (ucast (BMS_cellVoltageMv p ! n) :: u32) = unat (BMS_cellVoltageMv p ! n)"
    using unat_16_less [of "BMS_cellVoltageMv p ! n"]
    by (simp add: unsigned_ucast_eq take_bit_nat_eq_self)
  ultimately show ?thesis
    using assms(1) by (simp add: scan_cell_fields unat_word_ariths)
qed

lemma scan_inv_step:
  assumes "scan_inv p n s" "n < 24"
  shows "scan_inv p (Suc n) (pack_scan_cell p n s)"
proof -
  have "unat (PS_sumMv (pack_scan_cell p n s)) = (\<Sum>i<Suc n. unat (BMS_cellVoltageMv p ! i))"
    using assms by (intro scan_sum_step) (simp_all add: scan_inv_def)
  moreover have "let x = unat (PS_maxIdx (pack_scan_cell p n s)) in x \<le> Suc n - 1 \<and>
      PS_maxMv (pack_scan_cell p n s) = BMS_cellVoltageMv p ! x \<and>
      (\<forall>i<Suc n. BMS_cellVoltageMv p ! i \<le> PS_maxMv (pack_scan_cell p n s)) \<and>
      (\<forall>i<x. BMS_cellVoltageMv p ! i < PS_maxMv (pack_scan_cell p n s))"
    using assms
    by (cases "PS_maxMv s < BMS_cellVoltageMv p ! n")
      (auto simp: scan_inv_def scan_cell_fields unat_small_idx Let_def less_Suc_eq not_less
        intro: order_less_imp_le order_le_less_trans)
  moreover have "let x = unat (PS_minIdx (pack_scan_cell p n s)) in x \<le> Suc n - 1 \<and>
      PS_minMv (pack_scan_cell p n s) = BMS_cellVoltageMv p ! x \<and>
      (\<forall>i<Suc n. PS_minMv (pack_scan_cell p n s) \<le> BMS_cellVoltageMv p ! i) \<and>
      (\<forall>i<x. PS_minMv (pack_scan_cell p n s) < BMS_cellVoltageMv p ! i)"
    using assms
    by (cases "BMS_cellVoltageMv p ! n < PS_minMv s")
      (auto simp: scan_inv_def scan_cell_fields unat_small_idx Let_def less_Suc_eq not_less
        intro: order_less_imp_le order_less_le_trans)
  moreover have "\<forall>i<Suc n. sint (PS_tMin (pack_scan_cell p n s)) \<le> sint (BMS_cellTempC p ! i) \<and>
      sint (BMS_cellTempC p ! i) \<le> sint (PS_tMax (pack_scan_cell p n s))"
    using assms by (auto simp: scan_inv_def scan_cell_fields less_Suc_eq not_less)
  moreover have "\<exists>i\<le>Suc n - 1. PS_tMin (pack_scan_cell p n s) = BMS_cellTempC p ! i"
    "\<exists>i\<le>Suc n - 1. PS_tMax (pack_scan_cell p n s) = BMS_cellTempC p ! i"
    using assms by (auto simp: scan_inv_def scan_cell_fields intro: le_trans [OF _ diff_le_self])
  ultimately show ?thesis unfolding scan_inv_def by blast
qed

lemma scan_inv_upto: "n \<le> 24 \<Longrightarrow> scan_inv p n (fold (pack_scan_cell p) [0..<n] (pack_scan_start p))"
proof (induction n)
  case (Suc n)
  then show ?case by (simp add: scan_inv_step)
qed (simp add: scan_inv_start)

section \<open>What is computed\<close>

definition cells :: "BmsPackData \<Rightarrow> nat list" where
  "cells p = map unat (BMS_cellVoltageMv p)"

definition temps :: "BmsPackData \<Rightarrow> int list" where
  "temps p = map sint (BMS_cellTempC p)"

text \<open>The state of charge in percent, of the mean cell voltage in mV.\<close>

definition soc_percent :: "nat \<Rightarrow> nat" where
  "soc_percent mean = (if mean \<le> 2500 then 0 else if 3650 \<le> mean then 100
     else (mean - 2500) * 100 div 1150)"

lemma soc_percent_range: "soc_percent mean \<le> 100"
proof (cases "mean < 3650")
  case True
  then have "(mean - 2500) * 100 \<le> 100 * 1150" by linarith
  then have "(mean - 2500) * 100 div 1150 \<le> 100 * 1150 div 1150" by (rule div_le_mono)
  then show ?thesis by (simp add: soc_percent_def)
qed (simp add: soc_percent_def)

lemma unat_socFromAvgMv: "unat (socFromAvgMv a) = soc_percent (unat a)"
proof (cases "a \<le> 2500 \<or> 3650 \<le> a")
  case True
  then show ?thesis
    by (auto simp: socFromAvgMv_def soc_percent_def aks_config word_le_nat_alt)
next
  case False
  then have bounds: "2500 < unat a" "unat a < 3650" by (simp_all add: word_le_nat_alt not_le)
  have "unat (a - 2500) = unat a - 2500"
    using bounds by (subst unat_sub) (simp_all add: word_le_nat_alt)
  moreover have "unat ((a - 2500) * 100) = unat (a - 2500) * 100 mod 2 ^ 32"
    by (simp only: unat_word_ariths) simp
  ultimately have mult: "unat ((a - 2500) * 100) = (unat a - 2500) * 100"
    using bounds by (simp del: left_diff_distrib_numeral)
  have "(unat a - 2500) * 100 div 1150 \<le> 100"
    using soc_percent_range [of "unat a"] bounds by (simp add: soc_percent_def)
  then have "unat (ucast ((a - 2500) * 100 div 1150) :: u8) = (unat a - 2500) * 100 div 1150"
    unfolding unsigned_ucast_eq unat_div mult
    by (simp add: take_bit_nat_eq_self del: div_mult_mult1_if)
  then show ?thesis
    using False bounds by (simp add: socFromAvgMv_def soc_percent_def aks_config Let_def)
qed

lemma list_set_nth: "set xs = (\<lambda>i. xs ! i) ` {..<length xs}"
  by (metis atLeast_upt lessThan_atLeast0 map_nth set_map set_upt)

text \<open>The end of the pass, in terms of the lists of cells and temperatures.\<close>

definition scan_end :: "BmsPackData \<Rightarrow> pack_scan" where
  "scan_end p = fold (pack_scan_cell p) [0..<24] (pack_scan_start p)"

lemma scan_inv_24:
  assumes "scan_inv p 24 s"
  shows "unat (PS_maxIdx s) < 24 \<and> PS_maxMv s = BMS_cellVoltageMv p ! unat (PS_maxIdx s) \<and>
      (\<forall>i<24. unat (BMS_cellVoltageMv p ! i) \<le> unat (PS_maxMv s))"
    "unat (PS_minIdx s) < 24 \<and> PS_minMv s = BMS_cellVoltageMv p ! unat (PS_minIdx s) \<and>
      (\<forall>i<24. unat (PS_minMv s) \<le> unat (BMS_cellVoltageMv p ! i))"
    "(\<exists>i<24. PS_tMax s = BMS_cellTempC p ! i) \<and> (\<exists>i<24. PS_tMin s = BMS_cellTempC p ! i) \<and>
      (\<forall>i<24. sint (PS_tMin s) \<le> sint (BMS_cellTempC p ! i) \<and>
        sint (BMS_cellTempC p ! i) \<le> sint (PS_tMax s))"
proof -
  have le: "x \<le> 24 - 1 \<longleftrightarrow> x < 24" for x :: nat by auto
  note * = assms [unfolded scan_inv_def Let_def le word_le_nat_alt]
  show "unat (PS_maxIdx s) < 24 \<and> PS_maxMv s = BMS_cellVoltageMv p ! unat (PS_maxIdx s) \<and>
      (\<forall>i<24. unat (BMS_cellVoltageMv p ! i) \<le> unat (PS_maxMv s))" using * by blast
  show "unat (PS_minIdx s) < 24 \<and> PS_minMv s = BMS_cellVoltageMv p ! unat (PS_minIdx s) \<and>
      (\<forall>i<24. unat (PS_minMv s) \<le> unat (BMS_cellVoltageMv p ! i))" using * by blast
  show "(\<exists>i<24. PS_tMax s = BMS_cellTempC p ! i) \<and> (\<exists>i<24. PS_tMin s = BMS_cellTempC p ! i) \<and>
      (\<forall>i<24. sint (PS_tMin s) \<le> sint (BMS_cellTempC p ! i) \<and>
        sint (BMS_cellTempC p ! i) \<le> sint (PS_tMax s))" using * by blast
qed

lemma scan_end_cells:
  assumes "pack_wf p"
  shows "unat (PS_sumMv (scan_end p)) = sum_list (cells p)"
    "unat (PS_maxMv (scan_end p)) = Max (set (cells p))"
    "unat (PS_minMv (scan_end p)) = Min (set (cells p))"
    "unat (PS_maxIdx (scan_end p)) < 24 \<and> cells p ! unat (PS_maxIdx (scan_end p)) = Max (set (cells p))"
    "unat (PS_minIdx (scan_end p)) < 24 \<and> cells p ! unat (PS_minIdx (scan_end p)) = Min (set (cells p))"
proof -
  let ?s = "scan_end p" and ?v = "BMS_cellVoltageMv p"
  have len: "length ?v = 24" using assms by (simp add: pack_wf_def BMS_CELL_COUNT_def)
  have inv: "scan_inv p 24 ?s" by (simp add: scan_end_def scan_inv_upto)
  have set: "set (cells p) = (\<lambda>i. unat (?v ! i)) ` {..<24}"
    by (simp add: cells_def list_set_nth len image_image)
  show "unat (PS_sumMv ?s) = sum_list (cells p)"
    using inv by (simp add: scan_inv_def cells_def sum_list_sum_nth len atLeast0LessThan)
  have mx: "unat (PS_maxIdx ?s) < 24" "PS_maxMv ?s = ?v ! unat (PS_maxIdx ?s)"
    "\<And>i. i < 24 \<Longrightarrow> unat (?v ! i) \<le> unat (PS_maxMv ?s)"
    using scan_inv_24 [OF inv] by blast+
  have mn: "unat (PS_minIdx ?s) < 24" "PS_minMv ?s = ?v ! unat (PS_minIdx ?s)"
    "\<And>i. i < 24 \<Longrightarrow> unat (PS_minMv ?s) \<le> unat (?v ! i)"
    using scan_inv_24 [OF inv] by blast+
  show max: "unat (PS_maxMv ?s) = Max (set (cells p))"
    unfolding set using mx by (intro Max_eqI [symmetric]) auto
  show min: "unat (PS_minMv ?s) = Min (set (cells p))"
    unfolding set using mn by (intro Min_eqI [symmetric]) auto
  show "unat (PS_maxIdx ?s) < 24 \<and> cells p ! unat (PS_maxIdx ?s) = Max (set (cells p))"
    unfolding max [symmetric] using mx(1,2) by (simp add: cells_def len)
  show "unat (PS_minIdx ?s) < 24 \<and> cells p ! unat (PS_minIdx ?s) = Min (set (cells p))"
    unfolding min [symmetric] using mn(1,2) by (simp add: cells_def len)
qed

lemma scan_end_temps:
  assumes "pack_wf p"
  shows "sint (PS_tMax (scan_end p)) = Max (set (temps p))"
    "sint (PS_tMin (scan_end p)) = Min (set (temps p))"
proof -
  let ?s = "scan_end p" and ?t = "BMS_cellTempC p"
  have len: "length ?t = 24" using assms by (simp add: pack_wf_def BMS_CELL_COUNT_def)
  have inv: "scan_inv p 24 ?s" by (simp add: scan_end_def scan_inv_upto)
  have set: "set (temps p) = (\<lambda>i. sint (?t ! i)) ` {..<24}"
    by (simp add: temps_def list_set_nth len image_image)
  have "\<exists>i<24. PS_tMax ?s = ?t ! i" "\<exists>i<24. PS_tMin ?s = ?t ! i"
    "\<And>i. i < 24 \<Longrightarrow> sint (PS_tMin ?s) \<le> sint (?t ! i) \<and> sint (?t ! i) \<le> sint (PS_tMax ?s)"
    using scan_inv_24 [OF inv] by blast+
  then show "sint (PS_tMax ?s) = Max (set (temps p))" "sint (PS_tMin ?s) = Min (set (temps p))"
    unfolding set by (intro Max_eqI [symmetric] Min_eqI [symmetric]; auto)+
qed

lemma computePack_fields:
  assumes "BMS_isValid p"
  shows "BC_packVoltageMv (computePack p) = PS_sumMv (scan_end p)"
    "BC_cellMaxMv (computePack p) = PS_maxMv (scan_end p)"
    "BC_cellMinMv (computePack p) = PS_minMv (scan_end p)"
    "BC_cellMaxIndex (computePack p) = PS_maxIdx (scan_end p)"
    "BC_cellMinIndex (computePack p) = PS_minIdx (scan_end p)"
    "BC_socPercent (computePack p) = socFromAvgMv (PS_sumMv (scan_end p) div 24)"
    "BC_balanceFlag (computePack p) =
       (if 50 < PS_maxMv (scan_end p) - PS_minMv (scan_end p)
        then balance_flags p (PS_maxMv (scan_end p)) else replicate 24 False)"
    "BC_warningLevel (computePack p) =
       warning_level (PS_minMv (scan_end p)) (PS_maxMv (scan_end p)) (PS_tMax (scan_end p))"
  using assms
  by (simp_all add: computePack_def Let_def scan_end_def BMS_CELL_COUNT_def
      BMS_BALANCE_THRESHOLD_MV_def BmsComputed_zero_def)

lemma balance_flags_nth:
  assumes "i < 24"
  shows "balance_flags p m ! i \<longleftrightarrow> unat m \<le> unat (BMS_cellVoltageMv p ! i) + 5"
proof (cases "5 < m")
  case True
  then have "unat (m - 5) = unat m - 5"
    by (subst unat_sub) (simp_all add: order_less_imp_le)
  with True assms show ?thesis
    by (auto simp: balance_flags_def BMS_CELL_COUNT_def BMS_BALANCE_TOP_MARGIN_MV_def word_le_nat_alt)
next
  case False
  then have "unat m \<le> 5" by (simp add: word_less_nat_alt)
  with False assms show ?thesis
    by (simp add: balance_flags_def BMS_CELL_COUNT_def BMS_BALANCE_TOP_MARGIN_MV_def word_le_nat_alt)
qed

text \<open>The display thresholds: when a pack counts as critical, and when as nominal.\<close>

definition pack_critical :: "BmsPackData \<Rightarrow> bool" where
  "pack_critical p \<longleftrightarrow> (\<exists>v\<in>set (cells p). v < 2500 \<or> 3650 < v) \<or> (\<exists>t\<in>set (temps p). 60 < t)"

definition pack_nominal :: "BmsPackData \<Rightarrow> bool" where
  "pack_nominal p \<longleftrightarrow> (\<forall>v\<in>set (cells p). 2800 \<le> v \<and> v \<le> 3550) \<and> (\<forall>t\<in>set (temps p). t \<le> 50)"

lemma pack_nonempty: "pack_wf p \<Longrightarrow> cells p \<noteq> [] \<and> temps p \<noteq> []"
  by (auto simp: pack_wf_def BMS_CELL_COUNT_def cells_def temps_def)

lemma warning_level_pack:
  assumes "pack_wf p"
  shows "warning_level (PS_minMv (scan_end p)) (PS_maxMv (scan_end p)) (PS_tMax (scan_end p)) =
    (if pack_critical p then BMS_WARN_CRITICAL else if pack_nominal p then BMS_WARN_OK
     else BMS_WARN_WARNING)"
proof -
  have *: "finite (set (cells p))" "set (cells p) \<noteq> {}" "finite (set (temps p))" "set (temps p) \<noteq> {}"
    using pack_nonempty [OF assms] by simp_all
  have crit: "pack_critical p \<longleftrightarrow> Min (set (cells p)) < 2500 \<or> 3650 < Max (set (cells p)) \<or>
      60 < Max (set (temps p))"
    using * by (auto simp: pack_critical_def Min_less_iff Max_gr_iff)
  have nom: "pack_nominal p \<longleftrightarrow> 2800 \<le> Min (set (cells p)) \<and> Max (set (cells p)) \<le> 3550 \<and>
      Max (set (temps p)) \<le> 50"
    using * by (auto simp: pack_nominal_def)
  show ?thesis
    unfolding crit nom
    by (simp add: warning_level_def word_less_nat_alt aks_config scan_end_cells [OF assms]
        scan_end_temps [OF assms] not_le)
qed


definition pack_example :: BmsPackData where
  "pack_example = \<lparr>BMS_cellVoltageMv = 3400 # 3300 # replicate 22 3320,
     BMS_cellTempC = replicate 24 25, BMS_packCurrentMa = 0, BMS_isValid = True\<rparr>"


end
