(* ===== verification/Bms_Test.thy ===== *)
theory Bms_Test
  imports Bms_Algo
begin

text \<open>
  The native tests of the cell algorithm (\<open>test_soc.cpp\<close>, \<open>test_warning_thresholds.cpp\<close> and
  \<open>test_balance.cpp\<close> under \<open>test/test_native_bms_algo/\<close>), one proposition for each. The two of
  \<open>test_balance.cpp\<close> are declared in \<open>test_main.cpp\<close> and never run; they would pass.
\<close>

section \<open>Packs\<close>

definition makePackOf :: "u16 list \<Rightarrow> i16 \<Rightarrow> BmsPackData" where
  "makePackOf mvs temp = \<lparr>BMS_cellVoltageMv = mvs, BMS_cellTempC = replicate BMS_CELL_COUNT temp,
     BMS_packCurrentMa = 0, BMS_isValid = True\<rparr>"

definition makePackWithDelta :: "u16 \<Rightarrow> BmsPackData" where
  "makePackWithDelta deltaMv = makePackOf ((3200 + deltaMv) # replicate (BMS_CELL_COUNT - 1) 3200) 25"

definition makeUniformPack :: "u16 \<Rightarrow> BmsPackData" where
  "makeUniformPack cellMv = makePackOf (replicate BMS_CELL_COUNT cellMv) 25"

definition makePackWithCell0At :: "u16 \<Rightarrow> BmsPackData" where
  "makePackWithCell0At cell0Mv = makePackOf (cell0Mv # replicate (BMS_CELL_COUNT - 1) 3200) 25"

section \<open>State of charge, warnings and balancing\<close>

definition soc_tests :: "bool list" where
  "soc_tests = [
     BC_socPercent (computePack (makeUniformPack 2500)) = 0,
     BC_socPercent (computePack (makeUniformPack 3650)) = 100,
     BC_socPercent (computePack (makeUniformPack 3075)) = 50,
     BC_socPercent (computePack (makeUniformPack 2400)) = 0,
     BC_socPercent (computePack (makeUniformPack 3700)) = 100]"

definition warning_tests :: "bool list" where
  "warning_tests = [
     BC_warningLevel (computePack (makePackWithCell0At 3650)) = BMS_WARN_WARNING,
     BC_warningLevel (computePack (makePackWithCell0At 3651)) = BMS_WARN_CRITICAL,
     BC_warningLevel (computePack (makePackWithCell0At 3550)) = BMS_WARN_OK,
     BC_warningLevel (computePack (makePackWithCell0At 3551)) = BMS_WARN_WARNING,
     BC_warningLevel (computePack (makePackWithCell0At 2500)) = BMS_WARN_WARNING,
     BC_warningLevel (computePack (makePackWithCell0At 2499)) = BMS_WARN_CRITICAL,
     BC_warningLevel (computePack (makePackWithCell0At 2800)) = BMS_WARN_OK,
     BC_warningLevel (computePack (makePackWithCell0At 2799)) = BMS_WARN_WARNING]"

text \<open>The two tests of \<open>test_balance.cpp\<close>.\<close>

definition balance_tests :: "bool list" where
  "balance_tests = [
     \<not> BC_balanceFlag (computePack (makePackWithDelta 50)) ! 0,
     BC_balanceFlag (computePack (makePackWithDelta 51)) ! 0]"

lemma soc_tests_pass: "list_all id soc_tests" by code_simp

lemma warning_tests_pass: "list_all id warning_tests" by code_simp

lemma balance_tests_pass: "list_all id balance_tests" by code_simp

end
