(* ===== verification/Board_Setup.thy ===== *)
theory Board_Setup
  imports Aks_Prelude
begin

text \<open>
  How the radio task (\<open>src/main.cpp\<close>) sets up its pins and its UART before it talks to the module:
  \<open>ESP_ERROR_CHECK\<close> on the two pin configurations, then the retry loop on the UART driver. What the
  ESP-IDF calls return is input, one triple for each round of the loop; a loop that these rounds do
  not end yields \<open>None\<close>. Pins and rates are those of \<open>include/SystemConfig.h\<close>.
\<close>

section \<open>Pins\<close>

type_synonym esp_err = int

definition ESP_OK :: esp_err where "ESP_OK = 0"

definition LORA_UART_NUM :: nat where [aks_config]: "LORA_UART_NUM = 2"
definition LORA_TX_PIN :: nat where [aks_config]: "LORA_TX_PIN = 16"
definition LORA_RX_PIN :: nat where [aks_config]: "LORA_RX_PIN = 17"
definition LORA_AUX_PIN :: nat where [aks_config]: "LORA_AUX_PIN = 35"
definition LORA_M0_PIN :: nat where [aks_config]: "LORA_M0_PIN = 25"
definition LORA_M1_PIN :: nat where [aks_config]: "LORA_M1_PIN = 26"
definition LORA_MODE_NORMAL_M0_LEVEL :: nat where [simp]: "LORA_MODE_NORMAL_M0_LEVEL = 0"
definition LORA_MODE_NORMAL_M1_LEVEL :: nat where [simp]: "LORA_MODE_NORMAL_M1_LEVEL = 0"
definition LORA_MODE_CONFIG_M0_LEVEL :: nat where [simp]: "LORA_MODE_CONFIG_M0_LEVEL = 0"
definition LORA_MODE_CONFIG_M1_LEVEL :: nat where [simp]: "LORA_MODE_CONFIG_M1_LEVEL = 1"
definition LORA_UART_BAUD :: u32 where [aks_config]: "LORA_UART_BAUD = 9600"

text \<open>
  The calls with the arguments that matter: the pin mask, the UART number with the rate, the
  pins or the buffer sizes. All pins have no pull-up, no pull-down and no interrupt.
\<close>

datatype setup_out =
    GpioOutput u64
  | GpioInput u64
  | UartParam nat u32
  | UartPins nat nat nat
  | UartInstall nat nat nat
  | UartInitFailed esp_err esp_err esp_err
  | UartStarted
  | RetryDelay

definition pin_bit :: "nat \<Rightarrow> u64" where
  "pin_bit n = push_bit n 1"

text \<open>\<open>Inl\<close>: \<open>ESP_ERROR_CHECK\<close> aborts with this code, after these calls.\<close>

definition lora_gpio_setup :: "esp_err \<times> esp_err \<Rightarrow> (esp_err \<times> setup_out list) + setup_out list" where
  "lora_gpio_setup errs =
     (case errs of (err_mode, err_aux) \<Rightarrow>
        let mode = GpioOutput (pin_bit LORA_M0_PIN OR pin_bit LORA_M1_PIN);
            aux = GpioInput (pin_bit LORA_AUX_PIN)
        in if err_mode \<noteq> ESP_OK then Inl (err_mode, [mode])
           else if err_aux \<noteq> ESP_OK then Inl (err_aux, [mode, aux])
           else Inr [mode, aux])"

section \<open>The UART driver\<close>

definition lora_uart_calls :: "setup_out list" where
  "lora_uart_calls = [UartParam LORA_UART_NUM LORA_UART_BAUD,
     UartPins LORA_UART_NUM LORA_TX_PIN LORA_RX_PIN, UartInstall LORA_UART_NUM 256 256]"

fun lora_uart_start :: "bool \<Rightarrow> (esp_err \<times> esp_err \<times> esp_err) list \<Rightarrow> setup_out list option" where
  "lora_uart_start error_logged [] = None"
| "lora_uart_start error_logged ((err1, err2, err3) # rest) =
     (if err1 = ESP_OK \<and> err2 = ESP_OK \<and> err3 = ESP_OK
      then Some (lora_uart_calls @ (if error_logged then [UartStarted] else []))
      else map_option
        (\<lambda>outs. lora_uart_calls @ (if error_logged then [] else [UartInitFailed err1 err2 err3])
          @ [RetryDelay] @ outs)
        (lora_uart_start True rest))"

definition all_ok :: "esp_err \<times> esp_err \<times> esp_err \<Rightarrow> bool" where
  "all_ok e \<longleftrightarrow> e = (ESP_OK, ESP_OK, ESP_OK)"

text \<open>Once the failure is logged: every further failing round is silent, the first good one reports.\<close>

lemma uart_start_logged:
  "lora_uart_start True rs =
     (if list_ex all_ok rs
      then Some (concat (replicate (length (takeWhile (\<lambda>e. \<not> all_ok e) rs)) (lora_uart_calls @ [RetryDelay]))
        @ lora_uart_calls @ [UartStarted])
      else None)"
proof (induction rs)
  case (Cons r rs)
  obtain e1 e2 e3 where r: "r = (e1, e2, e3)" by (metis prod_cases3)
  show ?case
  proof (cases "all_ok r")
    case True
    then show ?thesis by (simp add: r all_ok_def)
  next
    case False
    then have "lora_uart_start True (r # rs) =
        map_option (\<lambda>outs. lora_uart_calls @ [RetryDelay] @ outs) (lora_uart_start True rs)"
      by (auto simp: r all_ok_def)
    with False show ?thesis by (simp add: Cons.IH)
  qed
qed simp

text \<open>The loop as one expression: how many rounds it takes, and what it logs.\<close>

lemma uart_start_eq:
  "lora_uart_start False rs =
     (if \<not> list_ex all_ok rs then None
      else case takeWhile (\<lambda>e. \<not> all_ok e) rs of
          [] \<Rightarrow> Some lora_uart_calls
        | (e1, e2, e3) # more \<Rightarrow>
            Some (lora_uart_calls @ [UartInitFailed e1 e2 e3, RetryDelay]
              @ concat (replicate (length more) (lora_uart_calls @ [RetryDelay]))
              @ lora_uart_calls @ [UartStarted]))"
proof (cases rs)
  case (Cons r rest)
  obtain e1 e2 e3 where "r = (e1, e2, e3)" by (metis prod_cases3)
  then show ?thesis using Cons by (cases "all_ok r") (simp_all add: uart_start_logged, simp_all add: all_ok_def)
qed simp

lemma uart_start_ends: "list_ex all_ok rs \<Longrightarrow> \<exists>outs. lora_uart_start False rs = Some outs"
  by (cases "takeWhile (\<lambda>e. \<not> all_ok e) rs") (auto simp: uart_start_eq)

text \<open>
  \<open>uart_driver_install\<close> fails on a port whose driver is installed; nothing in the loop removes it.
\<close>

definition installs_once :: "(esp_err \<times> esp_err \<times> esp_err) list \<Rightarrow> bool" where
  "installs_once rs \<longleftrightarrow>
     (\<forall>i<length rs. \<forall>j<i. snd (snd (rs ! j)) = ESP_OK \<longrightarrow> snd (snd (rs ! i)) \<noteq> ESP_OK)"

section \<open>Property\<close>

text \<open>
  C37: if the driver of the radio's UART is installed in a round in which one of the other two calls
  fails, the retry loop never ends: the port refuses a second installation, so no other round
  succeeds, whatever the other calls return, and the task never reaches the radio.
\<close>

lemma uart_retry_never_recovers:
  assumes "installs_once rs" "(err1, err2, ESP_OK) \<in> set rs" "err1 \<noteq> ESP_OK \<or> err2 \<noteq> ESP_OK"
  shows "lora_uart_start False rs = None"
proof -
  obtain i where i: "i < length rs" "rs ! i = (err1, err2, ESP_OK)"
    using assms(2) by (auto simp: in_set_conv_nth)
  have "\<not> all_ok (rs ! j)" if "j < length rs" for j
  proof
    assume ok: "all_ok (rs ! j)"
    then have "i \<noteq> j" using i(2) assms(3) by (auto simp: all_ok_def)
    then show False
      using assms(1) i ok that unfolding installs_once_def all_ok_def
      by (metis linorder_neqE_nat snd_conv)
  qed
  then have "\<not> list_ex all_ok rs" unfolding list_ex_iff by (metis in_set_conv_nth)
  then show ?thesis by (simp only: uart_start_eq not_False_eq_True if_True)
qed

lemma uart_retry_never_recovers_witness:
  "lora_uart_start False [(0, 0, 257), (0, 263, 0), (0, 0, - 1)] = None"
proof -
  have "installs_once [(0, 0, 257), (0, 263, ESP_OK), (0, 0, - 1)]"
    by (auto simp: installs_once_def ESP_OK_def nth_Cons less_Suc_eq split: nat.splits)
  from uart_retry_never_recovers [OF this, of 0 263] show ?thesis by (simp add: ESP_OK_def)
qed

end
