(* ===== verification/E22_Config.thy ===== *)
theory E22_Config
  imports Board_Setup
begin

text \<open>
  The configuration protocol of the E22 radio module: the command builders and the response parser
  of \<open>lib/E22Config\<close> with the register contract of \<open>include/E22Regs.h\<close>, and the boot sequence of
  \<open>vTask_LoRa_UKS\<close> (\<open>src/main.cpp\<close>) that reads the module's registers, rewrites them when they
  differ from the contract, and checks the confirmation. What the UART reads return and what the AUX
  pin shows at which tick are inputs; a wait that its samples do not decide yields \<open>None\<close>.
\<close>

section \<open>Registers\<close>

definition E22_CMD_WRITE :: u8 where [aks_config]: "E22_CMD_WRITE = 0xC0"
definition E22_CMD_READ :: u8 where [aks_config]: "E22_CMD_READ = 0xC1"
definition E22_REG_BLOCK_START :: u8 where [aks_config]: "E22_REG_BLOCK_START = 0x00"
definition E22_REG_BLOCK_LEN :: u8 where [aks_config]: "E22_REG_BLOCK_LEN = 0x09"
definition E22_CFG_CRYPT_H :: u8 where [aks_config]: "E22_CFG_CRYPT_H = 0x00"
definition E22_CFG_CRYPT_L :: u8 where [aks_config]: "E22_CFG_CRYPT_L = 0x00"

definition E22_CFG_ADDH :: u8 where [simp]: "E22_CFG_ADDH = 0x00"
definition E22_CFG_ADDL :: u8 where [simp]: "E22_CFG_ADDL = 0x00"
definition E22_CFG_NETID :: u8 where [simp]: "E22_CFG_NETID = 0x00"
definition E22_CFG_REG0 :: u8 where [simp]: "E22_CFG_REG0 = 0x64"
definition E22_CFG_REG1 :: u8 where [simp]: "E22_CFG_REG1 = 0x00"
definition E22_CFG_REG2 :: u8 where [simp]: "E22_CFG_REG2 = 0x17"
definition E22_CFG_REG3 :: u8 where [simp]: "E22_CFG_REG3 = 0x00"

record E22RegValues =
  E22_addh :: u8
  E22_addl :: u8
  E22_netid :: u8
  E22_reg0 :: u8
  E22_reg1 :: u8
  E22_reg2 :: u8
  E22_reg3 :: u8

definition E22_CONTRACT_REGS :: E22RegValues where
  "E22_CONTRACT_REGS = \<lparr>E22_addh = E22_CFG_ADDH, E22_addl = E22_CFG_ADDL, E22_netid = E22_CFG_NETID,
     E22_reg0 = E22_CFG_REG0, E22_reg1 = E22_CFG_REG1, E22_reg2 = E22_CFG_REG2,
     E22_reg3 = E22_CFG_REG3\<rparr>"

section \<open>Commands and responses\<close>

text \<open>The bytes a builder stores; it returns their number, and none means 0.\<close>

definition e22_buildReadAllCommand :: "nat \<Rightarrow> u8 list" where
  "e22_buildReadAllCommand outBufSize =
     (if outBufSize < 3 then [] else [E22_CMD_READ, E22_REG_BLOCK_START, E22_REG_BLOCK_LEN])"

definition e22_buildWriteCommand :: "E22RegValues \<Rightarrow> nat \<Rightarrow> u8 list" where
  "e22_buildWriteCommand regs outBufSize =
     (if outBufSize < 3 + unat E22_REG_BLOCK_LEN then []
      else [E22_CMD_WRITE, E22_REG_BLOCK_START, E22_REG_BLOCK_LEN,
            E22_addh regs, E22_addl regs, E22_netid regs, E22_reg0 regs, E22_reg1 regs,
            E22_reg2 regs, E22_reg3 regs, E22_CFG_CRYPT_H, E22_CFG_CRYPT_L])"

definition e22_isErrorResponse :: "u8 list \<Rightarrow> nat \<Rightarrow> bool" where
  "e22_isErrorResponse resp respLen =
     (if respLen < 3 then False else resp ! 0 = 0xFF \<and> resp ! 1 = 0xFF \<and> resp ! 2 = 0xFF)"

definition e22_parseRegResponse :: "u8 list \<Rightarrow> nat \<Rightarrow> E22RegValues option" where
  "e22_parseRegResponse resp respLen =
     (if respLen < 3 + unat E22_REG_BLOCK_LEN then None
      else if resp ! 0 \<noteq> E22_CMD_READ then None
      else if resp ! 1 \<noteq> E22_REG_BLOCK_START then None
      else if resp ! 2 \<noteq> E22_REG_BLOCK_LEN then None
      else Some \<lparr>E22_addh = resp ! 3, E22_addl = resp ! 4, E22_netid = resp ! 5,
                 E22_reg0 = resp ! 6, E22_reg1 = resp ! 7, E22_reg2 = resp ! 8,
                 E22_reg3 = resp ! 9\<rparr>)"

definition e22_regsEqual :: "E22RegValues \<Rightarrow> E22RegValues \<Rightarrow> bool" where
  "e22_regsEqual a b \<longleftrightarrow>
     E22_addh a = E22_addh b \<and> E22_addl a = E22_addl b \<and> E22_netid a = E22_netid b \<and>
     E22_reg0 a = E22_reg0 b \<and> E22_reg1 a = E22_reg1 b \<and> E22_reg2 a = E22_reg2 b \<and>
     E22_reg3 a = E22_reg3 b"

section \<open>The boot sequence\<close>

definition LORA_AUX_MODE_TIMEOUT_MS :: u32 where [aks_config]: "LORA_AUX_MODE_TIMEOUT_MS = 500"
definition LORA_AUX_CFG_TIMEOUT_MS :: u32 where [aks_config]: "LORA_AUX_CFG_TIMEOUT_MS = 2000"

text \<open>
  The polling loop on AUX: each sample is the tick of the loop test and the pin level read if the
  test passes. \<open>Some\<close> is how the loop ends; \<open>None\<close> that it has not ended after these samples.
\<close>

fun wait_aux :: "TickType_t \<Rightarrow> TickType_t \<Rightarrow> (TickType_t \<times> bool) list \<Rightarrow> bool option" where
  "wait_aux timeout t0 [] = None"
| "wait_aux timeout t0 ((tick, ready) # samples) =
     (if \<not> tick - t0 < timeout then Some False
      else if ready then Some True
      else wait_aux timeout t0 samples)"

text \<open>
  The loop ends as soon as one of its samples shows the pin ready or the timeout reached: with a
  clock that advances, it always ends.
\<close>

definition decisive :: "TickType_t \<Rightarrow> TickType_t \<times> (TickType_t \<times> bool) list \<Rightarrow> bool" where
  "decisive timeout w \<longleftrightarrow> list_ex (\<lambda>(tick, ready). ready \<or> timeout \<le> tick - fst w) (snd w)"

lemma wait_aux_ends: "decisive timeout (t0, samples) \<Longrightarrow> wait_aux timeout t0 samples \<noteq> None"
  by (induction samples) (auto simp: decisive_def not_less)

datatype e22_log =
    E22_ConfigMode
  | E22_AuxTimeout
  | E22_ReadRejected
  | E22_AlreadyCompliant
  | E22_Differs
  | E22_ReadBad int
  | E22_FlashTimeout
  | E22_WriteRejected
  | E22_Verified E22RegValues
  | E22_ConfirmMismatch int
  | E22_NormalMode bool

datatype e22_out = SetMode nat nat | UartFlush | UartWrite "u8 list" | E22Log e22_log
  | E22DumpTitle string | E22Print string

text \<open>
  The environment of one boot: AUX samples for the three waits with their starting ticks, and for
  the two reads the value \<open>uart_read_bytes\<close> returns and the 12-byte buffer after it; at the end the
  AUX level that is logged.
\<close>

record e22_env =
  EV_cfg :: "TickType_t \<times> (TickType_t \<times> bool) list"
  EV_read :: "int \<times> u8 list"
  EV_flash :: "TickType_t \<times> (TickType_t \<times> bool) list"
  EV_confirm :: "int \<times> u8 list"
  EV_norm :: "TickType_t \<times> (TickType_t \<times> bool) list"
  EV_auxLevel :: bool

text \<open>
  The dump of a response, in the line format that the ground station prints for the same registers:
  only a complete response is dumped.
\<close>

definition E22_logHexDump :: "string \<Rightarrow> u8 list \<Rightarrow> int \<Rightarrow> e22_out list" where
  "E22_logHexDump label buf len =
     E22DumpTitle label #
     (if len < 3 + int (unat E22_REG_BLOCK_LEN) then []
      else map (\<lambda>i. E22Print (''E22REG,0x'' @ fmt_02X (E22_REG_BLOCK_START + of_nat i) @ '',0x''
             @ fmt_02X (buf ! (3 + i)) @ [CHR 0x0D, CHR 0x0A])) [0..<unat E22_REG_BLOCK_LEN])"

text \<open>\<open>size_t\<close> of a possibly negative length.\<close>

definition size_t :: "int \<Rightarrow> nat" where
  "size_t n = nat (n mod 2 ^ 32)"

definition e22_check_read :: "int \<times> u8 list \<Rightarrow> bool \<times> e22_out list" where
  "e22_check_read r =
     (case r of (len, resp) \<Rightarrow>
        if 0 < len \<and> e22_isErrorResponse resp (size_t len) then (True, [E22Log E22_ReadRejected])
        else (case e22_parseRegResponse resp (size_t len) of
            Some current \<Rightarrow>
              if e22_regsEqual current E22_CONTRACT_REGS
              then (False, [E22Log E22_AlreadyCompliant])
              else (True, [E22Log E22_Differs])
          | None \<Rightarrow> (True, [E22Log (E22_ReadBad len)])))"

definition e22_check_confirm :: "int \<times> u8 list \<Rightarrow> e22_out list" where
  "e22_check_confirm r =
     (case r of (len, resp) \<Rightarrow>
        if 0 < len \<and> e22_isErrorResponse resp (size_t len) then [E22Log E22_WriteRejected]
        else (case e22_parseRegResponse resp (size_t len) of
            Some written \<Rightarrow>
              if e22_regsEqual written E22_CONTRACT_REGS then [E22Log (E22_Verified written)]
              else [E22Log (E22_ConfirmMismatch len)]
          | None \<Rightarrow> [E22Log (E22_ConfirmMismatch len)]))"

definition e22_boot_write :: "(u32 \<Rightarrow> TickType_t) \<Rightarrow> e22_env \<Rightarrow> e22_out list option" where
  "e22_boot_write ms env =
     map_option (\<lambda>flash_done.
         [UartFlush, UartWrite (e22_buildWriteCommand E22_CONTRACT_REGS (3 + unat E22_REG_BLOCK_LEN))]
         @ (if \<not> flash_done then [E22Log E22_FlashTimeout]
            else E22_logHexDump ''E22 yazma onay yaniti'' (snd (EV_confirm env)) (max 0 (fst (EV_confirm env)))
                 @ e22_check_confirm (EV_confirm env)))
       (wait_aux (ms LORA_AUX_CFG_TIMEOUT_MS) (fst (EV_flash env)) (snd (EV_flash env)))"

definition e22_boot_config :: "(u32 \<Rightarrow> TickType_t) \<Rightarrow> e22_env \<Rightarrow> e22_out list option" where
  "e22_boot_config ms env =
     (case wait_aux (ms LORA_AUX_MODE_TIMEOUT_MS) (fst (EV_cfg env)) (snd (EV_cfg env)) of
        None \<Rightarrow> None
      | Some False \<Rightarrow> Some [E22Log E22_AuxTimeout]
      | Some True \<Rightarrow>
          let (needs_write, o1) = e22_check_read (EV_read env);
              cmds = [UartFlush, UartWrite (e22_buildReadAllCommand 3)]
                @ E22_logHexDump ''E22 mevcut config yaniti'' (snd (EV_read env)) (max 0 (fst (EV_read env)))
                @ o1
          in if needs_write then map_option ((@) cmds) (e22_boot_write ms env) else Some cmds)"

definition e22_boot :: "(u32 \<Rightarrow> TickType_t) \<Rightarrow> e22_env \<Rightarrow> e22_out list option" where
  "e22_boot ms env =
     (case e22_boot_config ms env of
        None \<Rightarrow> None
      | Some outs \<Rightarrow>
          map_option (\<lambda>_. [SetMode LORA_MODE_CONFIG_M0_LEVEL LORA_MODE_CONFIG_M1_LEVEL, E22Log E22_ConfigMode]
              @ outs
              @ [SetMode LORA_MODE_NORMAL_M0_LEVEL LORA_MODE_NORMAL_M1_LEVEL, E22Log (E22_NormalMode (EV_auxLevel env))])
            (wait_aux (ms LORA_AUX_MODE_TIMEOUT_MS) (fst (EV_norm env)) (snd (EV_norm env))))"

section \<open>Lemmas\<close>

lemma regsEqual_iff: "e22_regsEqual a b \<longleftrightarrow> a = b"
  by (cases a; cases b) (simp add: e22_regsEqual_def)

lemma length_write_command [simp]: "length (e22_buildWriteCommand regs 12) = 12"
  by (simp add: e22_buildWriteCommand_def E22_REG_BLOCK_LEN_def)

text \<open>The answer of a module that holds \<open>regs\<close>: the write format under the read header.\<close>

definition e22_response :: "E22RegValues \<Rightarrow> u8 list" where
  "e22_response regs = E22_CMD_READ # tl (e22_buildWriteCommand regs 12)"

lemma parse_response: "e22_parseRegResponse (e22_response regs) 12 = Some regs"
  by (cases regs) (simp add: e22_parseRegResponse_def e22_response_def e22_buildWriteCommand_def
      E22_REG_BLOCK_LEN_def)

lemma response_no_error: "\<not> e22_isErrorResponse (e22_response regs) n"
  by (simp add: e22_isErrorResponse_def e22_response_def aks_config)

lemma size_t_nat: "0 \<le> n \<Longrightarrow> n < 2 ^ 32 \<Longrightarrow> size_t n = nat n"
  by (simp add: size_t_def)

lemma wait_aux_decides:
  "\<exists>x \<in> set samples. timeout \<le> fst x - t0 \<Longrightarrow> \<exists>b. wait_aux timeout t0 samples = Some b"
  by (induction timeout t0 samples rule: wait_aux.induct) (auto simp: not_less)

lemma dump_no_write: "UartWrite bs \<notin> set (E22_logHexDump l buf n)"
  by (auto simp: E22_logHexDump_def)

lemma wait_aux_ready:
  "wait_aux timeout t0 samples = Some True \<Longrightarrow> \<exists>t. (t, True) \<in> set samples \<and> t - t0 < timeout"
  by (induction timeout t0 samples rule: wait_aux.induct) (auto split: if_splits)

section \<open>Properties\<close>

text \<open>
  The register parser inverts the write command: the confirmation of a module, which repeats
  the written block under the read header, parses back to exactly the registers written.
\<close>

lemma e22_write_confirm_roundtrip:
  "e22_parseRegResponse (E22_CMD_READ # tl (e22_buildWriteCommand regs 12)) 12 = Some regs"
  using parse_response [of regs] by (simp add: e22_response_def)

text \<open>
  Once the module is in configuration mode and its waits see either the AUX pin or the timeout,
  the boot sequence ends, returns the module to transparent mode, and has written to the module's
  flash exactly when the registers it read back differ from the contract.
\<close>

lemma e22_boot_writes_only_if_different:
  assumes "EV_read env = (12, e22_response regs)"
    and "wait_aux (ms LORA_AUX_MODE_TIMEOUT_MS) (fst (EV_cfg env)) (snd (EV_cfg env)) = Some True"
    and "decisive (ms LORA_AUX_CFG_TIMEOUT_MS) (EV_flash env)"
    and "decisive (ms LORA_AUX_MODE_TIMEOUT_MS) (EV_norm env)"
  shows "\<exists>outs. e22_boot ms env = Some outs \<and>
    (UartWrite (e22_buildWriteCommand E22_CONTRACT_REGS 12) \<in> set outs \<longleftrightarrow>
      regs \<noteq> E22_CONTRACT_REGS) \<and>
    drop (length outs - 2) outs = [SetMode 0 0, E22Log (E22_NormalMode (EV_auxLevel env))]"
proof -
  have read: "e22_check_read (12, e22_response regs) =
      (regs \<noteq> E22_CONTRACT_REGS,
       [E22Log (if regs = E22_CONTRACT_REGS then E22_AlreadyCompliant else E22_Differs)])"
    by (simp add: e22_check_read_def size_t_nat parse_response response_no_error regsEqual_iff)
  have ne: "e22_buildReadAllCommand 3 \<noteq> e22_buildWriteCommand E22_CONTRACT_REGS 12"
    by (simp add: e22_buildReadAllCommand_def e22_buildWriteCommand_def aks_config)
  obtain b1 where b1: "wait_aux (ms LORA_AUX_CFG_TIMEOUT_MS) (fst (EV_flash env))
      (snd (EV_flash env)) = Some b1"
    using wait_aux_ends [of "ms LORA_AUX_CFG_TIMEOUT_MS" "fst (EV_flash env)" "snd (EV_flash env)"] assms(3) by auto
  obtain b2 where b2: "wait_aux (ms LORA_AUX_MODE_TIMEOUT_MS) (fst (EV_norm env))
      (snd (EV_norm env)) = Some b2"
    using wait_aux_ends [of "ms LORA_AUX_MODE_TIMEOUT_MS" "fst (EV_norm env)" "snd (EV_norm env)"] assms(4) by auto
  have no_write: "UartWrite bs \<notin> set (e22_check_confirm r)" for bs r
    by (auto simp: e22_check_confirm_def split: option.splits prod.splits)
  have "\<exists>mid. e22_boot_config ms env = Some mid \<and>
      (UartWrite (e22_buildWriteCommand E22_CONTRACT_REGS 12) \<in> set mid \<longleftrightarrow> regs \<noteq> E22_CONTRACT_REGS)"
    using assms(1,2) read ne b1 dump_no_write no_write
    by (cases "regs = E22_CONTRACT_REGS")
      (auto simp: e22_boot_config_def e22_boot_write_def E22_REG_BLOCK_LEN_def Let_def)
  then obtain mid where mid: "e22_boot_config ms env = Some mid"
    and w: "UartWrite (e22_buildWriteCommand E22_CONTRACT_REGS 12) \<in> set mid \<longleftrightarrow> regs \<noteq> E22_CONTRACT_REGS"
    by blast
  let ?outs = "([SetMode 0 1, E22Log E22_ConfigMode] @ mid) @ [SetMode 0 0, E22Log (E22_NormalMode (EV_auxLevel env))]"
  have "e22_boot ms env = Some ?outs" using mid b2 by (simp add: e22_boot_def)
  moreover have "drop (length ?outs - 2) ?outs = [SetMode 0 0, E22Log (E22_NormalMode (EV_auxLevel env))]"
    by simp
  ultimately show ?thesis using w by (intro exI [of _ ?outs]) simp
qed

definition e22_env_ok :: e22_env where
  "e22_env_ok = \<lparr>EV_cfg = (0, [(1, False), (2, True)]), EV_read = (12, e22_response E22_CONTRACT_REGS),
     EV_flash = (0, [(1, True)]), EV_confirm = (0, []), EV_norm = (5, [(5, True)]),
     EV_auxLevel = True\<rparr>"

lemma e22_boot_writes_only_if_different_witness:
  "\<exists>outs. e22_boot (\<lambda>ms. ms div 10) e22_env_ok = Some outs \<and>
     UartWrite (e22_buildWriteCommand E22_CONTRACT_REGS 12) \<notin> set outs"
  using e22_boot_writes_only_if_different [of e22_env_ok E22_CONTRACT_REGS "\<lambda>ms. ms div 10"]
  by (auto simp: e22_env_ok_def decisive_def aks_config)

end
