(* ===== verification/Vehicle_Speed.thy ===== *)
theory Vehicle_Speed
  imports Complex_Main Telemetry
begin

text \<open>
  The vehicle speed from the motor speed (\<open>rpmToSpeedKmhX10\<close> of \<open>lib/Telemetry/Telemetry.h\<close> with
  the parameters of \<open>include/VehicleParams.h\<close>). The function computes in \<open>float\<close>: a value is the
  rational it stands for, and every operation rounds its exact result to IEEE 754 binary32, to
  nearest with ties to even. The values that occur are non-negative and far from overflow.
\<close>

section \<open>Binary32\<close>

fun bit_len :: "nat \<Rightarrow> nat" where
  "bit_len n = (if n = 0 then 0 else Suc (bit_len (n div 2)))"

declare bit_len.simps [simp del]

text \<open>The exponent of the smallest subnormal number, and of the unit in the last place of a value.\<close>

definition F32_TINY :: nat where "F32_TINY = 149"

definition f32_ulp :: "rat \<Rightarrow> int" where
  "f32_ulp x = max (int (bit_len (nat \<lfloor>x * 2 ^ F32_TINY\<rfloor>)) - int F32_TINY - 24) (- int F32_TINY)"

definition round_half_even :: "rat \<Rightarrow> int" where
  "round_half_even y =
     (let f = \<lfloor>y\<rfloor>; r = y - of_int f
      in if r < 1 / 2 then f else if 1 / 2 < r then f + 1 else if even f then f else f + 1)"

definition f32 :: "rat \<Rightarrow> rat" where
  "f32 x = of_int (round_half_even (x / 2 powi f32_ulp x)) * 2 powi f32_ulp x"

section \<open>The speed\<close>

definition WHEEL_DIAMETER_M :: rat where "WHEEL_DIAMETER_M = f32 (56 / 100)"
definition GEAR_RATIO :: rat where "GEAR_RATIO = f32 1"
definition MOTOR_RPM_IS_WHEEL_RPM :: bool where "MOTOR_RPM_IS_WHEEL_RPM = True"

definition rpmToSpeedKmhX10Impl :: "u16 \<Rightarrow> rat \<Rightarrow> rat \<Rightarrow> bool \<Rightarrow> u16" where
  "rpmToSpeedKmhX10Impl rpm wheelDiameterM gearRatio motorRpmIsWheelRpm =
     (let wheelRpm = (if motorRpmIsWheelRpm then f32 (of_nat (unat rpm))
                      else f32 (f32 (of_nat (unat rpm)) / gearRatio));
          km_h = f32 (f32 (f32 (f32 (wheelRpm * f32 (314159265 / 100000000)) * wheelDiameterM)
                   * f32 60) / f32 1000);
          spd_x10 = f32 (km_h * f32 10)
      in if of_nat (unat TEL_SPD_X10_MAX) \<le> spd_x10 then TEL_SPD_X10_MAX
         else of_int \<lfloor>spd_x10\<rfloor>)"

definition rpmToSpeedKmhX10 :: "u16 \<Rightarrow> u16" where
  "rpmToSpeedKmhX10 rpm =
     rpmToSpeedKmhX10Impl rpm WHEEL_DIAMETER_M GEAR_RATIO MOTOR_RPM_IS_WHEEL_RPM"

section \<open>The error of one rounding\<close>

lemma round_half_even_error: "\<bar>of_int (round_half_even y) - y\<bar> \<le> 1 / 2"
proof -
  have "of_int \<lfloor>y\<rfloor> \<le> y" "y < of_int \<lfloor>y\<rfloor> + 1" by linarith+
  then show ?thesis by (simp add: round_half_even_def Let_def)
qed

lemma bit_len_upper: "n < 2 ^ bit_len n"
proof (induction n rule: bit_len.induct)
  case (1 n)
  show ?case
  proof (cases "n = 0")
    case False
    then have "n div 2 < 2 ^ bit_len (n div 2)" using 1 by blast
    with False show ?thesis by (subst bit_len.simps) (simp add: div_less_iff_less_mult)
  qed simp
qed

lemma bit_len_bound: "0 < n \<Longrightarrow> 2 ^ (bit_len n - 1) \<le> n \<and> 0 < bit_len n"
proof (induction n rule: bit_len.induct)
  case (1 n)
  show ?case
  proof (cases "n div 2 = 0")
    case True
    then have "n = 1" using "1.prems" by auto
    then show ?thesis by (simp add: bit_len.simps)
  next
    case False
    then have IH: "2 ^ (bit_len (n div 2) - 1) \<le> n div 2" "0 < bit_len (n div 2)"
      using 1 by auto
    then have "2 ^ bit_len (n div 2) \<le> n"
      by (cases "bit_len (n div 2)") auto
    then show ?thesis using "1.prems" by (subst (1 2) bit_len.simps) simp
  qed
qed

lemma f32_error: "\<bar>f32 x - x\<bar> \<le> 2 powi f32_ulp x / 2"
proof -
  let ?u = "2 powi f32_ulp x :: rat"
  have u: "0 < ?u" by simp
  then have "f32 x - x = (of_int (round_half_even (x / ?u)) - x / ?u) * ?u"
    by (simp add: f32_def left_diff_distrib)
  then have "\<bar>f32 x - x\<bar> = \<bar>of_int (round_half_even (x / ?u)) - x / ?u\<bar> * ?u"
    using u by (simp only: abs_mult abs_of_pos)
  also have "\<dots> \<le> 1 / 2 * ?u"
    using u by (intro mult_right_mono round_half_even_error) simp
  finally show ?thesis by simp
qed

text \<open>In the normal range the relative error is at most \<open>1 / 2 ^ 24\<close>.\<close>

lemma f32_relative:
  assumes "2 ^ 23 \<le> x * 2 ^ F32_TINY"
  shows "\<bar>f32 x - x\<bar> \<le> x / 2 ^ 24"
proof -
  let ?n = "nat \<lfloor>x * 2 ^ F32_TINY\<rfloor>"
  obtain k where k: "bit_len ?n = Suc k"
    and kn: "2 ^ k \<le> ?n"
  proof -
    have "0 < ?n" using assms by (simp add: le_floor_iff)
    then show ?thesis using bit_len_bound [of ?n] that by (cases "bit_len ?n") auto
  qed
  have "(2 :: rat) ^ k \<le> of_nat ?n"
    using kn by (metis of_nat_le_iff of_nat_numeral of_nat_power)
  also have "\<dots> \<le> x * 2 ^ F32_TINY" using assms by simp
  finally have x: "2 ^ k \<le> x * 2 ^ F32_TINY" .
  have "2 ^ 23 \<le> ?n" using assms by (simp add: le_nat_iff le_floor_iff)
  then have "(2 :: nat) ^ 23 < 2 ^ Suc k"
    using bit_len_upper [of ?n] unfolding k by (rule le_less_trans)
  then have "23 \<le> k" by (simp only: power_strict_increasing_iff)
  then have "f32_ulp x = int k - 23 - int F32_TINY" by (simp add: f32_ulp_def k)
  then have "(2 :: rat) powi f32_ulp x * 2 ^ 23 * 2 ^ F32_TINY = 2 ^ k"
    by (simp add: power_int_diff)
  with x have "2 powi f32_ulp x * 2 ^ 23 * 2 ^ F32_TINY \<le> x * 2 ^ F32_TINY" by simp
  then have "2 powi f32_ulp x * 2 ^ 23 \<le> x" by simp
  with f32_error [of x] show ?thesis by simp
qed

section \<open>The error of the computation\<close>

text \<open>\<open>a\<close> stands for the exact value \<open>b\<close>, with a relative error of at most \<open>n\<close> units of \<open>1 / 2 ^ 24\<close>.\<close>

definition approx :: "nat \<Rightarrow> rat \<Rightarrow> rat \<Rightarrow> bool" where
  "approx n b a \<longleftrightarrow> 0 \<le> b \<and> \<bar>a - b\<bar> \<le> of_nat n * b / 2 ^ 24"

lemma approx_exact: "0 \<le> b \<Longrightarrow> approx 0 b b"
  by (simp add: approx_def)

lemma approx_upper: "approx n b a \<Longrightarrow> n \<le> 2 ^ 24 \<Longrightarrow> a \<le> 2 * b"
proof -
  assume "approx n b a" "n \<le> 2 ^ 24"
  then have "of_nat n * b \<le> 2 ^ 24 * b"
    by (intro mult_right_mono) (simp_all add: approx_def)
  then have "of_nat n * b / 2 ^ 24 \<le> b" by simp
  moreover have "\<bar>a - b\<bar> \<le> of_nat n * b / 2 ^ 24" using \<open>approx n b a\<close> by (simp add: approx_def)
  ultimately show ?thesis by linarith
qed

lemma approx_f32:
  assumes "approx n b a" "n \<le> 2 ^ 24" "1 / 1024 \<le> a"
  shows "approx (n + 2) b (f32 a)"
proof -
  have "2 ^ 23 \<le> a * 2 ^ F32_TINY"
    using assms(3) by (simp add: F32_TINY_def)
  then have "\<bar>f32 a - a\<bar> \<le> a / 2 ^ 24" by (rule f32_relative)
  also have "\<dots> \<le> 2 * b / 2 ^ 24"
    using approx_upper [OF assms(1,2)] by simp
  finally have "\<bar>f32 a - a\<bar> \<le> 2 * b / 2 ^ 24" .
  moreover have "\<bar>a - b\<bar> \<le> of_nat n * b / 2 ^ 24" "0 \<le> b" using assms(1) by (simp_all add: approx_def)
  moreover have "\<bar>f32 a - b\<bar> \<le> \<bar>f32 a - a\<bar> + \<bar>a - b\<bar>" by linarith
  moreover have "of_nat (n + 2) * b / 2 ^ 24 = of_nat n * b / 2 ^ 24 + 2 * b / 2 ^ 24"
    by (simp add: algebra_simps add_divide_distrib)
  ultimately show ?thesis unfolding approx_def by linarith
qed

lemma approx_mult:
  assumes "approx n b a" "approx m d c" "n \<le> 2 ^ 24" "0 \<le> a"
  shows "approx (n + 2 * m) (b * d) (a * c)"
proof -
  have "\<bar>a * c - b * d\<bar> = \<bar>a * (c - d) + d * (a - b)\<bar>" by (simp add: algebra_simps)
  also have "\<dots> \<le> a * \<bar>c - d\<bar> + d * \<bar>a - b\<bar>"
    using assms by (intro order_trans [OF abs_triangle_ineq]) (simp add: abs_mult approx_def)
  also have "\<dots> \<le> 2 * b * (of_nat m * d / 2 ^ 24) + d * (of_nat n * b / 2 ^ 24)"
    using assms approx_upper [OF assms(1,3)]
    by (intro add_mono mult_mono) (simp_all add: approx_def)
  finally show ?thesis
    using assms by (simp add: approx_def algebra_simps add_divide_distrib)
qed

lemma f32_constants: "f32 60 = 60" "f32 1000 = 1000" "f32 10 = 10" "f32 0 = 0"
  by (simp_all add: f32_def f32_ulp_def F32_TINY_def round_half_even_def bit_len.simps power_int_def
      Let_def power_divide)

text \<open>The exact value in units of 0.1 km/h, with the decimal constants of the source.\<close>

definition exact_speed :: "u16 \<Rightarrow> rat" where
  "exact_speed rpm = of_nat (unat rpm) * (314159265 / 100000000) * (56 / 100) * 60 / 1000 * 10"

text \<open>The value before the comparison with the limit.\<close>

definition float_speed :: "u16 \<Rightarrow> rat" where
  "float_speed rpm = f32 (f32 (f32 (f32 (f32 (f32 (of_nat (unat rpm)) * f32 (314159265 / 100000000))
     * WHEEL_DIAMETER_M) * 60) / 1000) * 10)"

lemma rpmToSpeed_float:
  "rpmToSpeedKmhX10 rpm = (if 3000 \<le> float_speed rpm then 3000 else of_int \<lfloor>float_speed rpm\<rfloor>)"
  by (simp add: rpmToSpeedKmhX10_def rpmToSpeedKmhX10Impl_def MOTOR_RPM_IS_WHEEL_RPM_def
      float_speed_def f32_constants TEL_SPD_X10_MAX_def Let_def)

lemma approx_lower: "approx n b a \<Longrightarrow> n \<le> 2 ^ 23 \<Longrightarrow> b / 2 \<le> a"
proof -
  assume "approx n b a" "n \<le> 2 ^ 23"
  then have "of_nat n * b \<le> 2 ^ 23 * b"
    by (intro mult_right_mono) (simp_all add: approx_def)
  then have "of_nat n * b / 2 ^ 24 \<le> b / 2" by (simp add: mult.commute)
  moreover have "\<bar>a - b\<bar> \<le> of_nat n * b / 2 ^ 24" using \<open>approx n b a\<close> by (simp add: approx_def)
  ultimately show ?thesis by linarith
qed

text \<open>One rounded operation of the chain, whose exact result is at least 1/512.\<close>

lemma approx_step:
  "approx n b a \<Longrightarrow> n \<le> 1000 \<Longrightarrow> 1 / 512 \<le> b \<Longrightarrow> approx (n + 2) b (f32 a)"
  using approx_lower [of n b a] by (intro approx_f32) auto

lemma approx_scale: "approx n b a \<Longrightarrow> 0 \<le> c \<Longrightarrow> n \<le> 1000 \<Longrightarrow> approx n (b * c) (a * c)"
  using approx_mult [of n b a 0 c c] approx_exact [of c] approx_lower [of n b a]
  by (auto simp: approx_def)

lemma float_speed_approx: "approx 24 (exact_speed rpm) (float_speed rpm)"
proof (cases "unat rpm = 0")
  case True
  then show ?thesis
    by (simp add: exact_speed_def float_speed_def f32_constants approx_def)
next
  case False
  define r :: rat where "r = of_nat (unat rpm)"
  have "1 \<le> unat rpm" using False by simp
  then have "(of_nat 1 :: rat) \<le> of_nat (unat rpm)" by (rule of_nat_mono)
  then have r: "1 \<le> r" unfolding r_def by (simp only: of_nat_1)
  have const: "approx 2 c (f32 c)" if "1 / 512 \<le> c" for c
    using approx_step [OF approx_exact [of c]] that by (simp add: eval_nat_numeral)
  have pi: "approx 2 (314159265 / 100000000) (f32 (314159265 / 100000000))"
    by (rule const) simp
  have dia: "approx 2 (56 / 100) WHEEL_DIAMETER_M"
    unfolding WHEEL_DIAMETER_M_def by (rule const) simp
  have 1: "approx 2 r (f32 r)"
    using r by (intro const) simp
  have 2: "approx 8 (r * (314159265 / 100000000)) (f32 (f32 r * f32 (314159265 / 100000000)))"
    using approx_step [OF approx_mult [OF 1 pi]] approx_lower [OF 1] r by simp
  have 3: "approx 14 (r * (314159265 / 100000000) * (56 / 100))
      (f32 (f32 (f32 r * f32 (314159265 / 100000000)) * WHEEL_DIAMETER_M))"
    using approx_step [OF approx_mult [OF 2 dia]] approx_lower [OF 2] r by simp
  have 4: "approx 16 (r * (314159265 / 100000000) * (56 / 100) * 60)
      (f32 (f32 (f32 (f32 r * f32 (314159265 / 100000000)) * WHEEL_DIAMETER_M) * 60))"
    using approx_step [OF approx_scale [OF 3, of 60]] r by simp
  have 5: "approx 18 (r * (314159265 / 100000000) * (56 / 100) * 60 * (1 / 1000))
      (f32 (f32 (f32 (f32 (f32 r * f32 (314159265 / 100000000)) * WHEEL_DIAMETER_M) * 60) * (1 / 1000)))"
    using approx_step [OF approx_scale [OF 4, of "1 / 1000"]] r by simp
  have 6: "approx 20 (r * (314159265 / 100000000) * (56 / 100) * 60 * (1 / 1000) * 10)
      (f32 (f32 (f32 (f32 (f32 (f32 r * f32 (314159265 / 100000000)) * WHEEL_DIAMETER_M) * 60) * (1 / 1000)) * 10))"
    using approx_step [OF approx_scale [OF 5, of 10]] r by simp
  show ?thesis
    using 6 unfolding exact_speed_def float_speed_def r_def [symmetric]
    by (auto simp: approx_def intro: order_trans)
qed

lemma float_speed_bounds:
  "float_speed rpm * 2097152 \<le> exact_speed rpm * 2097155"
  "exact_speed rpm * 2097149 \<le> float_speed rpm * 2097152" "0 \<le> exact_speed rpm"
proof -
  have "0 \<le> exact_speed rpm"
    and err: "\<bar>float_speed rpm - exact_speed rpm\<bar> \<le> 24 * exact_speed rpm / 2 ^ 24"
    using float_speed_approx [of rpm] by (simp_all add: approx_def)
  then show "float_speed rpm * 2097152 \<le> exact_speed rpm * 2097155"
    "exact_speed rpm * 2097149 \<le> float_speed rpm * 2097152" "0 \<le> exact_speed rpm"
    using abs_le_D1 [OF err] abs_le_D2 [OF err] by (simp_all add: field_simps)
qed

lemma float_speed_nonneg: "0 \<le> float_speed rpm"
  using float_speed_bounds [of rpm] by linarith

text \<open>The conversion to \<open>uint16_t\<close> truncates, and is only reached in range.\<close>

lemma unat_floor:
  assumes "0 \<le> y" "y < 3000"
  shows "unat (of_int \<lfloor>y\<rfloor> :: u16) = nat \<lfloor>y\<rfloor>"
proof -
  have "0 \<le> \<lfloor>y\<rfloor>" "\<lfloor>y\<rfloor> < 3000" using assms by (simp_all add: floor_less_iff)
  then show ?thesis by (simp add: unat_eq_nat_uint word_of_int_inverse [OF refl])
qed

lemma unat_speed:
  "unat (rpmToSpeedKmhX10 rpm) = (if 3000 \<le> float_speed rpm then 3000 else nat \<lfloor>float_speed rpm\<rfloor>)"
  by (simp add: rpmToSpeed_float unat_floor float_speed_nonneg)

lemma speed_limit: "unat (rpmToSpeedKmhX10 rpm) \<le> 3000"
proof -
  have "float_speed rpm < 3000 \<Longrightarrow> nat \<lfloor>float_speed rpm\<rfloor> \<le> 3000" by linarith
  then show ?thesis by (simp add: unat_speed)
qed

text \<open>C32: The vehicle speed that the uplink sends is computed in single precision, and is accurate
  whatever the motor reports: it never exceeds 300.0 km/h, it saturates at exactly that value when
  the exact speed is beyond it, and below the limit it is the exact speed in units of 0.1 km/h,
  rounded down, up to an error of the floating-point computation below 1/100 of a unit.\<close>

theorem speed_accurate:
  "unat (rpmToSpeedKmhX10 rpm) \<le> 3000
   \<and> (if 3001 \<le> exact_speed rpm then unat (rpmToSpeedKmhX10 rpm) = 3000
      else exact_speed rpm - 1 - 1 / 100 < of_nat (unat (rpmToSpeedKmhX10 rpm))
        \<and> of_nat (unat (rpmToSpeedKmhX10 rpm)) \<le> exact_speed rpm + 1 / 100)"
proof -
  let ?f = "float_speed rpm" and ?e = "exact_speed rpm"
  have fl: "of_int \<lfloor>?f\<rfloor> \<le> ?f" "?f < of_int \<lfloor>?f\<rfloor> + 1" by linarith+
  have nn: "0 \<le> \<lfloor>?f\<rfloor>" using float_speed_nonneg by simp
  then have nat: "(of_nat (nat \<lfloor>?f\<rfloor>) :: rat) = of_int \<lfloor>?f\<rfloor>" by simp
  show ?thesis
  proof (cases "3000 \<le> ?f")
    case True
    then show ?thesis using float_speed_bounds [of rpm] by (auto simp: unat_speed field_simps)
  next
    case False
    then have s: "unat (rpmToSpeedKmhX10 rpm) = nat \<lfloor>?f\<rfloor>" by (simp add: unat_speed)
    have "nat \<lfloor>?f\<rfloor> \<le> 3000" "\<not> 3001 \<le> ?e" "?e - 1 - 1 / 100 < of_int \<lfloor>?f\<rfloor>"
      "of_int \<lfloor>?f\<rfloor> \<le> ?e + 1 / 100"
      using False fl nn float_speed_bounds [of rpm] by linarith+
    then show ?thesis unfolding s nat by simp
  qed
qed

text \<open>A motor at 1500 rpm drives at 158.3 km/h.\<close>

lemma speed_1500: "unat (rpmToSpeedKmhX10 1500) = 1583"
proof -
  have "exact_speed 1500 = 15833626956 / 10000000" by (simp add: exact_speed_def)
  then have "\<lfloor>float_speed 1500\<rfloor> = 1583" "float_speed 1500 < 3000"
    using float_speed_bounds [of 1500] by (simp_all add: floor_eq_iff)
  then show ?thesis by (simp add: unat_speed)
qed

end
