(* ===== verification/E22_Diagnostic.thy ===== *)
theory E22_Diagnostic
  imports E22_Config Vehicle_Speed
begin

text \<open>
  The bench diagnosis of the radio module (\<open>src/e22_diagnostic.cpp\<close>), the second program of the
  repository: it reads the register block, prints it byte by byte and decoded, compares it with the
  contract, and sends one ping in transparent mode. Its main function is \<open>e22_diag_main\<close>. The AUX
  samples, what the two UART reads return and how many ping bytes the driver took are inputs; the
  outputs are the set-up calls, the mode pins, the UART traffic, the printed register lines and the log lines with
  their arguments. The reminder that the program logs every ten seconds for ever after is left out.
\<close>

section \<open>Reading the registers\<close>

definition DIAG_AUX_WAIT_MS :: u32 where [aks_config]: "DIAG_AUX_WAIT_MS = 500"

definition DIAG_uartBaudStr :: "u8 \<Rightarrow> string" where
  "DIAG_uartBaudStr b =
     (if b = 0 then ''1200'' else if b = 1 then ''2400'' else if b = 2 then ''4800''
      else if b = 3 then ''9600'' else if b = 4 then ''19200'' else if b = 5 then ''38400''
      else if b = 6 then ''57600'' else if b = 7 then ''115200'' else ''?'')"

definition DIAG_parityStr :: "u8 \<Rightarrow> string" where
  "DIAG_parityStr p =
     (let k = p AND 0x03 in
      if k = 0 then ''8N1'' else if k = 1 then ''8O1'' else if k = 2 then ''8E1''
      else if k = 3 then ''8N1'' else ''8N1'')"

definition DIAG_airRateStr :: "u8 \<Rightarrow> string" where
  "DIAG_airRateStr r =
     (if r = 0 then ''0.3 kbps'' else if r = 1 then ''1.2 kbps'' else if r = 2 then ''2.4 kbps''
      else if r = 3 then ''4.8 kbps'' else if r = 4 then ''9.6 kbps''
      else if r = 5 then ''19.2 kbps'' else if r = 6 then ''38.4 kbps'' else ''62.5 kbps'')"

definition DIAG_subPacketStr :: "u8 \<Rightarrow> string" where
  "DIAG_subPacketStr s =
     (let k = s AND 0x03 in
      if k = 0 then ''240 B'' else if k = 1 then ''128 B'' else if k = 2 then ''64 B''
      else ''32 B'')"

definition DIAG_txPowerStr :: "u8 \<Rightarrow> string" where
  "DIAG_txPowerStr p =
     (let k = p AND 0x03 in
      if k = 0 then ''en yuksek (T30D: 30 dBm)'' else if k = 1 then ''orta-yuksek''
      else if k = 2 then ''orta-dusuk'' else ''en dusuk (~10 dBm)'')"

text \<open>One constructor per log call or run of constant log lines, with the values it formats.\<close>

datatype diag_log =
    DL_Banner
  | DL_ConfigMode
  | DL_AuxWaiting
  | DL_AuxReady
  | DL_AuxTimeout
  | DL_ReadSent u8 u8
  | DL_RawResponse int
  | DL_ErrorResponse
  | DL_BadResponse int
  | DL_BadHints
  | DL_ParamsTitle
  | DL_Addh u8
  | DL_Addl u8 u16
  | DL_Netid u8
  | DL_Reg0 u8 string string string
  | DL_Reg1 u8 string string string
  | DL_Reg2 u8 rat
  | DL_Reg3 u8 string string string string
  | DL_CryptNote
  | DL_Compliant
  | DL_Different
  | DL_NormalMode
  | DL_NormalAux bool
  | DL_PingSent int
  | DL_Echo int "u8 list"
  | DL_NoEcho
  | DL_Finished

definition DIAG_decodeReg0 :: "u8 \<Rightarrow> diag_log" where
  "DIAG_decodeReg0 reg0 =
     (let baud = drop_bit 5 reg0 AND 0x07; parity = drop_bit 3 reg0 AND 0x03; air = reg0 AND 0x07
      in DL_Reg0 reg0 (DIAG_uartBaudStr baud) (DIAG_parityStr parity) (DIAG_airRateStr air))"

definition DIAG_decodeReg1 :: "u8 \<Rightarrow> diag_log" where
  "DIAG_decodeReg1 reg1 =
     DL_Reg1 reg1 (DIAG_subPacketStr (drop_bit 6 reg1 AND 0x03))
       (if drop_bit 5 reg1 AND 1 \<noteq> 0 then ''acik'' else ''kapali'')
       (DIAG_txPowerStr (reg1 AND 0x03))"

definition DIAG_decodeReg2 :: "u8 \<Rightarrow> diag_log" where
  "DIAG_decodeReg2 reg2 =
     DL_Reg2 reg2 (f32 (f32 (410125 / 1000) + f32 (of_nat (unat reg2))))"

definition DIAG_decodeReg3 :: "u8 \<Rightarrow> diag_log" where
  "DIAG_decodeReg3 reg3 =
     DL_Reg3 reg3
       (if drop_bit 7 reg3 AND 1 \<noteq> 0 then ''ekleniyor'' else ''eklenmiyor'')
       (if drop_bit 6 reg3 AND 1 \<noteq> 0 then ''fixed'' else ''transparan'')
       (if drop_bit 5 reg3 AND 1 \<noteq> 0 then ''acik'' else ''kapali'')
       (if drop_bit 4 reg3 AND 1 \<noteq> 0 then ''acik'' else ''kapali'')"

section \<open>The run\<close>

datatype diag_out =
  DiagMode nat nat | DiagFlush | DiagWrite "u8 list" | DiagPrint string | DiagLog diag_log
  | DiagUartDelete | DiagSetup setup_out | DiagAbort esp_err

text \<open>
  The environment of one run: the results of the two pin configurations, the AUX samples of both waits with their starting ticks, the length
  and the 12-byte buffer of the register read, the number of ping bytes the driver took, and the
  length and the 32-byte buffer of the echo read.
\<close>

record diag_env =
  DG_gpio :: "esp_err \<times> esp_err"
  DG_cfg :: "TickType_t \<times> (TickType_t \<times> bool) list"
  DG_read :: "int \<times> u8 list"
  DG_norm :: "TickType_t \<times> (TickType_t \<times> bool) list"
  DG_pinged :: int
  DG_echo :: "int \<times> u8 list"

definition DIAG_pingMsg :: "u8 list" where
  "DIAG_pingMsg = map of_char (''E22_DIAG_PING'' @ [CHR 0x0D, CHR 0x0A])"

text \<open>The line of register \<open>i\<close>, in the format both ends of the link print.\<close>

definition diag_reg_line :: "u8 list \<Rightarrow> nat \<Rightarrow> string" where
  "diag_reg_line resp i =
     ''E22REG,0x'' @ fmt_02X (E22_REG_BLOCK_START + of_nat i) @ '',0x'' @ fmt_02X (resp ! (3 + i))
       @ [CHR 0x0D, CHR 0x0A]"

definition diag_raw_dump :: "int \<Rightarrow> u8 list \<Rightarrow> diag_out list" where
  "diag_raw_dump rxLen resp =
     DiagLog (DL_RawResponse rxLen) #
     (if 3 + int (unat E22_REG_BLOCK_LEN) \<le> rxLen
      then map (\<lambda>i. DiagPrint (diag_reg_line resp i)) [0..<unat E22_REG_BLOCK_LEN] else [])"

definition diag_report :: "E22RegValues \<Rightarrow> diag_log list" where
  "diag_report regs =
     [DL_ParamsTitle, DL_Addh (E22_addh regs), DL_Addl (E22_addl regs) (be16 (E22_addh regs) (E22_addl regs)),
      DL_Netid (E22_netid regs), DIAG_decodeReg0 (E22_reg0 regs), DIAG_decodeReg1 (E22_reg1 regs),
      DIAG_decodeReg2 (E22_reg2 regs), DIAG_decodeReg3 (E22_reg3 regs),
      DL_CryptNote]
     @ (if e22_regsEqual regs E22_CONTRACT_REGS then [DL_Compliant] else [DL_Different])"

definition diag_evaluate :: "int \<Rightarrow> u8 list \<Rightarrow> diag_log list" where
  "diag_evaluate rxLen resp =
     (if 0 < rxLen \<and> e22_isErrorResponse resp (size_t rxLen) then [DL_ErrorResponse]
      else (case e22_parseRegResponse resp (size_t rxLen) of
          None \<Rightarrow> [DL_BadResponse rxLen, DL_BadHints]
        | Some regs \<Rightarrow> diag_report regs))"

text \<open>
  The pin configurations under \<open>ESP_ERROR_CHECK\<close>: \<open>Inl\<close> is an abort. The UART calls that follow the
  switch to configuration mode are not checked.
\<close>

definition diag_gpio_setup :: "esp_err \<times> esp_err \<Rightarrow> diag_out list + diag_out list" where
  "diag_gpio_setup errs =
     (case errs of (err_mode, err_aux) \<Rightarrow>
        let mode = DiagSetup (GpioOutput (pin_bit LORA_M0_PIN OR pin_bit LORA_M1_PIN));
            aux = DiagSetup (GpioInput (pin_bit LORA_AUX_PIN))
        in if err_mode \<noteq> ESP_OK then Inl [mode, DiagAbort err_mode]
           else if err_aux \<noteq> ESP_OK then Inl [mode, aux, DiagAbort err_aux]
           else Inr [mode, aux])"

definition diag_enter_config :: "diag_out list" where
  "diag_enter_config = [DiagMode LORA_MODE_CONFIG_M0_LEVEL LORA_MODE_CONFIG_M1_LEVEL, DiagLog DL_ConfigMode,
     DiagSetup (UartParam LORA_UART_NUM 9600), DiagSetup (UartPins LORA_UART_NUM LORA_TX_PIN LORA_RX_PIN),
     DiagSetup (UartInstall LORA_UART_NUM 256 256)]"

definition diag_config_phase :: "bool \<Rightarrow> int \<times> u8 list \<Rightarrow> diag_out list" where
  "diag_config_phase auxReady r =
     (case r of (rxLen, resp) \<Rightarrow>
        [DiagLog DL_AuxWaiting, DiagLog (if auxReady then DL_AuxReady else DL_AuxTimeout),
         DiagFlush, DiagWrite (e22_buildReadAllCommand 3),
         DiagLog (DL_ReadSent E22_REG_BLOCK_START E22_REG_BLOCK_LEN)]
        @ diag_raw_dump rxLen resp @ map DiagLog (diag_evaluate rxLen resp))"

text \<open>The echo is terminated at the number of bytes received, and logged up to its first zero.\<close>

definition diag_smoke_test :: "bool \<Rightarrow> int \<Rightarrow> int \<times> u8 list \<Rightarrow> diag_out list" where
  "diag_smoke_test normAuxReady txBytes echo =
     (case echo of (echoLen, buf) \<Rightarrow>
        [DiagLog (DL_NormalAux normAuxReady), DiagFlush, DiagWrite DIAG_pingMsg,
         DiagLog (DL_PingSent txBytes),
         DiagLog (if 0 < echoLen
                  then DL_Echo echoLen (takeWhile (\<lambda>b. b \<noteq> 0) (buf[nat echoLen := 0]))
                  else DL_NoEcho)])"

definition e22_diag_radio :: "(u32 \<Rightarrow> TickType_t) \<Rightarrow> diag_env \<Rightarrow> diag_out list option" where
  "e22_diag_radio ms env =
     (case wait_aux (ms DIAG_AUX_WAIT_MS) (fst (DG_cfg env)) (snd (DG_cfg env)) of
        None \<Rightarrow> None
      | Some auxReady \<Rightarrow>
          map_option (\<lambda>normAuxReady.
              diag_enter_config @ diag_config_phase auxReady (DG_read env)
              @ [DiagMode LORA_MODE_NORMAL_M0_LEVEL LORA_MODE_NORMAL_M1_LEVEL, DiagLog DL_NormalMode]
              @ diag_smoke_test normAuxReady (DG_pinged env) (DG_echo env)
              @ [DiagUartDelete, DiagLog DL_Finished])
            (wait_aux (ms DIAG_AUX_WAIT_MS) (fst (DG_norm env)) (snd (DG_norm env))))"

definition e22_diag_main :: "(u32 \<Rightarrow> TickType_t) \<Rightarrow> diag_env \<Rightarrow> diag_out list option" where
  "e22_diag_main ms env =
     (case diag_gpio_setup (DG_gpio env) of
        Inl outs \<Rightarrow> Some (DiagLog DL_Banner # outs)
      | Inr outs \<Rightarrow> map_option (\<lambda>radio. DiagLog DL_Banner # outs @ radio) (e22_diag_radio ms env))"

section \<open>What a run shows\<close>

definition diag_writes :: "diag_out list \<Rightarrow> u8 list list" where
  "diag_writes outs = [bs. DiagWrite bs \<leftarrow> outs]"

definition diag_modes :: "diag_out list \<Rightarrow> (nat \<times> nat) list" where
  "diag_modes outs = [(m0, m1). DiagMode m0 m1 \<leftarrow> outs]"

definition diag_prints :: "diag_out list \<Rightarrow> string list" where
  "diag_prints outs = [s. DiagPrint s \<leftarrow> outs]"

definition diag_logs :: "diag_out list \<Rightarrow> diag_log list" where
  "diag_logs outs = [l. DiagLog l \<leftarrow> outs]"

lemmas diag_views = diag_writes_def diag_modes_def diag_prints_def diag_logs_def

text \<open>The carrier frequency is exact: an eighth of a MHz needs at most 24 significant bits.\<close>

lemma bit_len_shift: "0 < k \<Longrightarrow> bit_len (k * 2 ^ n) = bit_len k + n"
proof (induction n)
  case (Suc n)
  have "bit_len (k * 2 ^ Suc n) = Suc (bit_len (k * 2 ^ n))"
    using Suc.prems by (subst bit_len.simps) simp
  with Suc show ?case by simp
qed simp

lemma bit_len_less: "n < 2 ^ k \<Longrightarrow> bit_len n \<le> k"
proof (induction k arbitrary: n)
  case 0
  then show ?case by (simp add: bit_len.simps)
next
  case (Suc k)
  then have "bit_len (n div 2) \<le> k" by (simp add: less_mult_imp_div_less mult.commute)
  then show ?case by (subst bit_len.simps) simp
qed

lemma round_half_even_int: "round_half_even (of_int z) = z"
  by (simp add: round_half_even_def Let_def)

lemma f32_eighth:
  assumes "0 < k" "k < 2 ^ 24"
  shows "f32 (of_nat k / 8) = of_nat k / 8"
proof -
  have sh: "(of_nat k / 8 :: rat) * 2 ^ 149 = of_nat (k * 2 ^ 146)" by simp
  have "nat \<lfloor>(of_nat k / 8 :: rat) * 2 ^ 149\<rfloor> = k * 2 ^ 146"
    unfolding sh by (simp only: floor_of_nat nat_int)
  then have ulp: "f32_ulp (of_nat k / 8) = int (bit_len k) - 27"
    using bit_len_shift [OF assms(1), of 146]
    by (simp add: f32_ulp_def F32_TINY_def)
  define e where "e = nat (24 - int (bit_len k))"
  have exp: "int (bit_len k) - 27 = - int (e + 3)"
    using bit_len_less [OF assms(2)] by (simp add: e_def)
  have ulp': "(2 :: rat) powi f32_ulp (of_nat k / 8) = 1 / 2 ^ (e + 3)"
    unfolding ulp exp by (simp only: power_int_minus power_int_of_nat divide_inverse mult_1)
  have int: "(of_nat k / 8 :: rat) / (1 / 2 ^ (e + 3)) = of_int (int (k * 2 ^ e))"
    by (simp add: power_add)
  show ?thesis
    unfolding f32_def ulp' int round_half_even_int by (simp add: power_add)
qed

lemma reg2_frequency:
  "DIAG_decodeReg2 reg2 = DL_Reg2 reg2 (410125 / 1000 + of_nat (unat reg2))"
proof -
  have a: "f32 (410125 / 1000) = 410125 / 1000" using f32_eighth [of 3281] by simp
  have b: "f32 (of_nat (unat reg2)) = of_nat (unat reg2)"
  proof (cases "unat reg2 = 0")
    case True
    then show ?thesis by (simp add: f32_def round_half_even_def)
  next
    case False
    then show ?thesis using f32_eighth [of "8 * unat reg2"] unat_8_less [of reg2] by simp
  qed
  have c: "(410125 / 1000 + of_nat (unat reg2) :: rat) = of_nat (3281 + 8 * unat reg2) / 8" by simp
  have "f32 (410125 / 1000 + of_nat (unat reg2)) = 410125 / 1000 + of_nat (unat reg2)"
    unfolding c by (rule f32_eighth) (use unat_8_less [of reg2] in simp_all)
  then show ?thesis unfolding DIAG_decodeReg2_def a b by simp
qed

section \<open>The whole run\<close>

lemma diag_views_simps [simp]:
  "diag_writes (xs @ ys) = diag_writes xs @ diag_writes ys"
  "diag_modes (xs @ ys) = diag_modes xs @ diag_modes ys"
  "diag_prints (xs @ ys) = diag_prints xs @ diag_prints ys"
  "diag_logs (xs @ ys) = diag_logs xs @ diag_logs ys"
  "diag_writes (map DiagLog ls) = []" "diag_modes (map DiagLog ls) = []"
  "diag_prints (map DiagLog ls) = []" "diag_logs (map DiagLog ls) = ls"
  by (induction ls) (simp_all add: diag_views)

lemma diag_print_views [simp]:
  "diag_writes (map (\<lambda>i. DiagPrint (f i)) ns) = []" "diag_modes (map (\<lambda>i. DiagPrint (f i)) ns) = []"
  "diag_logs (map (\<lambda>i. DiagPrint (f i)) ns) = []" "diag_prints (map (\<lambda>i. DiagPrint (f i)) ns) = map f ns"
  by (induction ns) (simp_all add: diag_views)

lemma diag_log_views [simp]:
  "diag_writes (DiagLog l # xs) = diag_writes xs" "diag_modes (DiagLog l # xs) = diag_modes xs"
  "diag_prints (DiagLog l # xs) = diag_prints xs" "diag_logs (DiagLog l # xs) = l # diag_logs xs"
  by (simp_all add: diag_views)

lemma diag_nil_views [simp]:
  "diag_writes [] = []" "diag_modes [] = []" "diag_prints [] = []" "diag_logs [] = []"
  by (simp_all add: diag_views)

lemma diag_raw_dump_views [simp]:
  "diag_writes (diag_raw_dump len resp) = []" "diag_modes (diag_raw_dump len resp) = []"
  "diag_logs (diag_raw_dump len resp) = [DL_RawResponse len]"
  "diag_prints (diag_raw_dump len resp) = (if 12 \<le> len then map (diag_reg_line resp) [0..<9] else [])"
  by (simp_all add: diag_raw_dump_def E22_REG_BLOCK_LEN_def)

text \<open>The verdict depends on the first ten bytes of a long enough answer only.\<close>

definition contract_answer :: "u8 list" where
  "contract_answer = take 10 (e22_response E22_CONTRACT_REGS)"

lemma contract_answer_eq: "contract_answer = [0xC1, 0, 9, 0, 0, 0, 0x64, 0, 0x17, 0]"
  by (simp add: contract_answer_def e22_response_def e22_buildWriteCommand_def
      E22_CONTRACT_REGS_def aks_config)

lemma take_10:
  assumes "length resp = 12"
  shows "take 10 resp = [resp ! 0, resp ! 1, resp ! 2, resp ! 3, resp ! 4, resp ! 5, resp ! 6,
    resp ! 7, resp ! 8, resp ! 9]"
proof -
  have "take 10 resp = map ((!) resp) [0..<10]"
    using assms by (simp add: list_eq_iff_nth_eq)
  moreover have "[0..<10] = [0, 1, 2, 3, 4, 5, 6, 7, 8, 9::nat]" by code_simp
  ultimately show ?thesis by simp
qed

lemma diag_compliant_iff:
  assumes "length resp = 12"
  shows "DL_Compliant \<in> set (diag_evaluate len resp) \<longleftrightarrow>
     12 \<le> size_t len \<and> take 10 resp = contract_answer"
  using assms
  by (auto simp: diag_evaluate_def e22_isErrorResponse_def e22_parseRegResponse_def diag_report_def
      regsEqual_iff E22_CONTRACT_REGS_def take_10 contract_answer_eq aks_config
      DIAG_decodeReg0_def DIAG_decodeReg1_def DIAG_decodeReg2_def DIAG_decodeReg3_def Let_def
      split: if_splits)

text \<open>
  C33: the diagnosis is read-only and ends. Whatever the module answers, once the pins are
  configured and both AUX waits see the pin or the timeout, the run ends after exactly two UART writes, the read command and the ping (so
  never a write command), with the module switched to configuration mode once and back to
  transparent mode; the nine register lines are printed exactly when the answer is complete, and it
  is called compliant exactly when it is complete and carries the contract.
\<close>

theorem diagnosis_is_read_only:
  assumes "decisive (ms DIAG_AUX_WAIT_MS) (DG_cfg env)"
    and "decisive (ms DIAG_AUX_WAIT_MS) (DG_norm env)"
    and "DG_read env = (len, resp)" "length resp = 12" "DG_gpio env = (ESP_OK, ESP_OK)"
  shows "\<exists>outs. e22_diag_main ms env = Some outs \<and>
    diag_writes outs = [e22_buildReadAllCommand 3, DIAG_pingMsg] \<and>
    diag_modes outs = [(0, 1), (0, 0)] \<and>
    length (diag_prints outs) = (if 12 \<le> len then 9 else 0) \<and>
    (DL_Compliant \<in> set (diag_logs outs) \<longleftrightarrow>
      12 \<le> size_t len \<and> take 10 resp = [0xC1, 0, 9, 0, 0, 0, 0x64, 0, 0x17, 0])"
proof -
  obtain b1 b2
    where w: "wait_aux (ms DIAG_AUX_WAIT_MS) (fst (DG_cfg env)) (snd (DG_cfg env)) = Some b1"
      "wait_aux (ms DIAG_AUX_WAIT_MS) (fst (DG_norm env)) (snd (DG_norm env)) = Some b2"
    using wait_aux_ends [of "ms DIAG_AUX_WAIT_MS" "fst (DG_cfg env)" "snd (DG_cfg env)"]
      wait_aux_ends [of "ms DIAG_AUX_WAIT_MS" "fst (DG_norm env)" "snd (DG_norm env)"] assms(1,2)
    by auto
  define pre where "pre = [DiagLog DL_Banner,
    DiagSetup (GpioOutput (pin_bit LORA_M0_PIN OR pin_bit LORA_M1_PIN)),
    DiagSetup (GpioInput (pin_bit LORA_AUX_PIN))] @ diag_enter_config @ [DiagLog DL_AuxWaiting,
    DiagLog (if b1 then DL_AuxReady else DL_AuxTimeout), DiagFlush,
    DiagWrite (e22_buildReadAllCommand 3),
    DiagLog (DL_ReadSent E22_REG_BLOCK_START E22_REG_BLOCK_LEN)]"
  define post where "post = [DiagMode 0 0, DiagLog DL_NormalMode]
    @ diag_smoke_test b2 (DG_pinged env) (DG_echo env) @ [DiagUartDelete, DiagLog DL_Finished]"
  have main: "e22_diag_main ms env =
      Some (pre @ diag_raw_dump len resp @ map DiagLog (diag_evaluate len resp) @ post)"
    using w by (simp add: e22_diag_main_def e22_diag_radio_def diag_gpio_setup_def
        diag_config_phase_def assms(3,5) pre_def post_def)
  have pre: "diag_writes pre = [e22_buildReadAllCommand 3]" "diag_modes pre = [(0, 1)]"
    "diag_prints pre = []" "DL_Compliant \<notin> set (diag_logs pre)"
    by (simp_all add: diag_views pre_def diag_enter_config_def)
  have post: "diag_writes post = [DIAG_pingMsg]" "diag_modes post = [(0, 0)]"
    "diag_prints post = []" "DL_Compliant \<notin> set (diag_logs post)"
    by (simp_all add: diag_views post_def diag_smoke_test_def case_prod_beta)
  show ?thesis
    unfolding main
    using pre post diag_compliant_iff [OF assms(4), of len] by (simp add: contract_answer_eq)
qed

definition diag_env_ok :: diag_env where
  "diag_env_ok = \<lparr>DG_gpio = (0, 0), DG_cfg = (0, [(1, False), (2, True)]),
     DG_read = (12, e22_response E22_CONTRACT_REGS), DG_norm = (5, [(5, True)]), DG_pinged = 15,
     DG_echo = (0, replicate 32 0)\<rparr>"

lemma diagnosis_is_read_only_witness:
  "\<exists>outs. e22_diag_main (\<lambda>ms. ms div 10) diag_env_ok = Some outs \<and>
     DL_Compliant \<in> set (diag_logs outs) \<and> length (diag_prints outs) = 9"
  using diagnosis_is_read_only [of "\<lambda>ms. ms div 10" diag_env_ok 12 "e22_response E22_CONTRACT_REGS"]
    contract_answer_eq
  by (auto simp: diag_env_ok_def decisive_def ESP_OK_def size_t_def contract_answer_def e22_response_def)

end
