(* ===== verification/Drop_Oldest.thy ===== *)
theory Drop_Oldest
  imports Aks_Prelude
begin

text \<open>
  The interface of a bounded buffer that makes room by dropping its oldest element. The offline
  buffer of the telemetry uplink provides it; the LoRa task is the client.
\<close>

text \<open>The last \<open>n\<close> elements of a list.\<close>

definition last_n :: "nat \<Rightarrow> 'a list \<Rightarrow> 'a list" where
  "last_n n xs = drop (length xs - n) xs"

lemma length_last_n [simp]: "length (last_n n xs) = min n (length xs)"
  by (simp add: last_n_def)

lemma last_n_id: "length xs \<le> n \<Longrightarrow> last_n n xs = xs"
  by (simp add: last_n_def)

lemma last_n_snoc:
  "0 < n \<Longrightarrow> last_n n (xs @ [x]) =
     (if n \<le> length xs then tl (last_n n xs) else last_n n xs) @ [x]"
  by (auto simp: last_n_def Suc_diff_le drop_Suc tl_drop not_le)

lemma last_n_last_n_append: "last_n n (last_n n xs @ ys) = last_n n (xs @ ys)"
proof (cases "n \<le> length ys")
  case True
  then show ?thesis by (simp add: last_n_def)
next
  case False
  then show ?thesis by (cases "n \<le> length xs") (auto simp: last_n_def add.commute)
qed

locale drop_oldest_fifo =
  fixes inv :: "'s \<Rightarrow> bool"
    and contents :: "'s \<Rightarrow> 'a list"
    and capacity :: nat
    and push :: "'a \<Rightarrow> 's \<Rightarrow> 's"
    and peek :: "'s \<Rightarrow> 'a option"
    and drop_front :: "'s \<Rightarrow> 's"
  assumes capacity_pos: "0 < capacity"
    and bounded: "inv s \<Longrightarrow> length (contents s) \<le> capacity"
    and inv_push: "inv s \<Longrightarrow> inv (push x s)"
    and inv_drop: "inv s \<Longrightarrow> inv (drop_front s)"
    and contents_push: "inv s \<Longrightarrow> contents (push x s) =
        (if length (contents s) = capacity then tl (contents s) else contents s) @ [x]"
    and peek_front: "inv s \<Longrightarrow> peek s = (case contents s of [] \<Rightarrow> None | x # _ \<Rightarrow> Some x)"
    and contents_drop: "inv s \<Longrightarrow> contents (drop_front s) = tl (contents s)"
begin

lemma inv_pushes: "inv s \<Longrightarrow> inv (fold push xs s)"
  by (induction xs arbitrary: s) (simp_all add: inv_push)

lemma contents_push_last_n: "inv s \<Longrightarrow> contents (push x s) = last_n capacity (contents s @ [x])"
  using bounded [of s] capacity_pos
  by (auto simp: contents_push last_n_snoc last_n_id le_less)

text \<open>After any number of pushes the buffer holds the most recent ones, in order.\<close>

lemma contents_pushes:
  "inv s \<Longrightarrow> contents (fold push xs s) = last_n capacity (contents s @ xs)"
proof (induction xs arbitrary: s)
  case Nil
  then show ?case by (simp add: last_n_id bounded)
next
  case (Cons x xs)
  then have "contents (fold push (x # xs) s) = last_n capacity (contents (push x s) @ xs)"
    by (simp add: inv_push)
  then show ?case
    using Cons.prems by (simp add: contents_push_last_n last_n_last_n_append)
qed

lemma inv_drops: "inv s \<Longrightarrow> inv ((drop_front ^^ n) s)"
  by (induction n) (simp_all add: inv_drop)

lemma contents_drops: "inv s \<Longrightarrow> contents ((drop_front ^^ n) s) = drop n (contents s)"
  by (induction n) (simp_all add: contents_drop inv_drops drop_Suc tl_drop)

text \<open>Peeking after \<open>n\<close> drops reads the \<open>n\<close>-th oldest element.\<close>

lemma peek_after_drops:
  "inv s \<Longrightarrow> n < length (contents s) \<Longrightarrow> peek ((drop_front ^^ n) s) = Some (contents s ! n)"
  using peek_front [OF inv_drops, of s n] contents_drops [of s n]
  by (simp add: Cons_nth_drop_Suc [symmetric])

end

end
