(* ===== verification/Offline_Buffer.thy ===== *)
theory Offline_Buffer
  imports Drop_Oldest Telemetry
begin

text \<open>
  The offline buffer \<open>lib/OfflineBuffer\<close>: a ring of 75 telemetry snapshots with head, tail and
  count, and the sampling test of the uplink task. The ring is refined to a list: every operation
  is the corresponding list operation on the stored snapshots, oldest first.
\<close>

section \<open>The ring\<close>

definition OB_CAPACITY :: nat where
  [aks_config]: "OB_CAPACITY = 75"

record OfflineBuffer =
  s_buf :: "TelemetryData list"
  s_head :: nat
  s_tail :: nat
  s_count :: nat

definition OfflineBuffer_new :: OfflineBuffer where
  "OfflineBuffer_new = \<lparr>s_buf = replicate OB_CAPACITY TelemetryData_zero,
     s_head = 0, s_tail = 0, s_count = 0\<rparr>"

definition ob_reset :: "OfflineBuffer \<Rightarrow> OfflineBuffer" where
  "ob_reset b = b\<lparr>s_head := 0, s_tail := 0, s_count := 0\<rparr>"

definition ob_push :: "TelemetryData \<Rightarrow> OfflineBuffer \<Rightarrow> OfflineBuffer" where
  "ob_push d b =
     (let b1 = (if s_count b = OB_CAPACITY
                then b\<lparr>s_head := (s_head b + 1) mod OB_CAPACITY, s_count := s_count b - 1\<rparr>
                else b)
      in b1\<lparr>s_buf := (s_buf b1)[s_tail b1 := d],
            s_tail := (s_tail b1 + 1) mod OB_CAPACITY,
            s_count := s_count b1 + 1\<rparr>)"

definition ob_pop :: "OfflineBuffer \<Rightarrow> TelemetryData option \<times> OfflineBuffer" where
  "ob_pop b =
     (if s_count b = 0 then (None, b)
      else (Some (s_buf b ! s_head b),
            b\<lparr>s_head := (s_head b + 1) mod OB_CAPACITY, s_count := s_count b - 1\<rparr>))"

definition ob_peek :: "OfflineBuffer \<Rightarrow> TelemetryData option" where
  "ob_peek b = (if s_count b = 0 then None else Some (s_buf b ! s_head b))"

definition ob_drop_front :: "OfflineBuffer \<Rightarrow> bool \<times> OfflineBuffer" where
  "ob_drop_front b =
     (if s_count b = 0 then (False, b)
      else (True, b\<lparr>s_head := (s_head b + 1) mod OB_CAPACITY, s_count := s_count b - 1\<rparr>))"

definition ob_count :: "OfflineBuffer \<Rightarrow> nat" where
  "ob_count b = s_count b"

definition ob_is_empty :: "OfflineBuffer \<Rightarrow> bool" where
  "ob_is_empty b \<longleftrightarrow> s_count b = 0"

text \<open>The sampling test; the times are 64-bit milliseconds.\<close>

definition offline_should_sample :: "u64 \<Rightarrow> u64 \<Rightarrow> bool \<Rightarrow> u32 \<Rightarrow> bool" where
  "offline_should_sample now_ms last_sample_ms has_sample period_ms =
     (if \<not> has_sample then True else ucast period_ms \<le> now_ms - last_sample_ms)"

section \<open>Refinement to a list\<close>

definition ob_inv :: "OfflineBuffer \<Rightarrow> bool" where
  "ob_inv b \<longleftrightarrow> length (s_buf b) = OB_CAPACITY \<and> s_head b < OB_CAPACITY \<and>
     s_count b \<le> OB_CAPACITY \<and> s_tail b = (s_head b + s_count b) mod OB_CAPACITY"

definition ob_list :: "OfflineBuffer \<Rightarrow> TelemetryData list" where
  "ob_list b = map (\<lambda>i. s_buf b ! ((s_head b + i) mod OB_CAPACITY)) [0..<s_count b]"

lemma length_ob_list [simp]: "length (ob_list b) = s_count b"
  by (simp add: ob_list_def)

lemma ob_list_nth: "i < s_count b \<Longrightarrow> ob_list b ! i = s_buf b ! ((s_head b + i) mod OB_CAPACITY)"
  by (simp add: ob_list_def)

lemma capacity_pos [simp]: "0 < OB_CAPACITY"
  by (simp add: OB_CAPACITY_def)

lemma mod_step: "(s mod OB_CAPACITY + 1) mod OB_CAPACITY = (s + 1) mod OB_CAPACITY"
  by (simp add: mod_simps)

text \<open>Slots of a ring that is not full are distinct from the slot about to be written.\<close>

lemma slot_distinct:
  assumes "i < j" "j < OB_CAPACITY"
  shows "(h + i) mod OB_CAPACITY \<noteq> (h + j) mod OB_CAPACITY"
proof
  assume "(h + i) mod OB_CAPACITY = (h + j) mod OB_CAPACITY"
  then have "OB_CAPACITY dvd (h + j) - (h + i)"
    using assms(1) by (metis mod_eq_dvd_iff_nat add_le_cancel_left less_imp_le)
  then show False
    using assms by (simp add: nat_dvd_not_less)
qed

text \<open>Dropping the front of a non-empty ring.\<close>

definition ring_tl :: "OfflineBuffer \<Rightarrow> OfflineBuffer" where
  "ring_tl b = b\<lparr>s_head := (s_head b + 1) mod OB_CAPACITY, s_count := s_count b - 1\<rparr>"

lemma ring_tl_inv: "ob_inv b \<Longrightarrow> s_count b \<noteq> 0 \<Longrightarrow> ob_inv (ring_tl b)"
  by (cases "s_count b") (auto simp: ob_inv_def ring_tl_def mod_simps)

lemma ring_tl_list: "s_count b \<noteq> 0 \<Longrightarrow> ob_list (ring_tl b) = tl (ob_list b)"
proof (rule nth_equalityI)
  fix i
  assume "s_count b \<noteq> 0" "i < length (ob_list (ring_tl b))"
  then show "ob_list (ring_tl b) ! i = tl (ob_list b) ! i"
    by (simp add: ring_tl_def ob_list_nth nth_tl mod_simps)
qed (simp add: ring_tl_def)

text \<open>Writing into a ring that is not full.\<close>

definition ring_snoc :: "TelemetryData \<Rightarrow> OfflineBuffer \<Rightarrow> OfflineBuffer" where
  "ring_snoc d b = b\<lparr>s_buf := (s_buf b)[s_tail b := d],
     s_tail := (s_tail b + 1) mod OB_CAPACITY, s_count := s_count b + 1\<rparr>"

lemma ring_snoc_inv: "ob_inv b \<Longrightarrow> s_count b < OB_CAPACITY \<Longrightarrow> ob_inv (ring_snoc d b)"
  by (simp add: ob_inv_def ring_snoc_def mod_simps)

lemma ring_snoc_list:
  assumes "ob_inv b" "s_count b < OB_CAPACITY"
  shows "ob_list (ring_snoc d b) = ob_list b @ [d]"
proof (rule nth_equalityI)
  fix i
  assume "i < length (ob_list (ring_snoc d b))"
  then have i: "i \<le> s_count b" by (simp add: ring_snoc_def)
  have tail: "s_tail b = (s_head b + s_count b) mod OB_CAPACITY" "s_tail b < length (s_buf b)"
    using assms(1) by (simp_all add: ob_inv_def)
  show "ob_list (ring_snoc d b) ! i = (ob_list b @ [d]) ! i"
  proof (cases "i = s_count b")
    case True
    then show ?thesis
      using tail by (simp add: ring_snoc_def ob_list_def nth_append)
  next
    case False
    with i have "i < s_count b" by simp
    with slot_distinct [OF this assms(2), of "s_head b"] tail show ?thesis
      by (simp add: ring_snoc_def ob_list_def nth_append)
  qed
qed (simp add: ring_snoc_def)

lemma ob_push_ring:
  "ob_push d b = ring_snoc d (if s_count b = OB_CAPACITY then ring_tl b else b)"
  by (simp add: ob_push_def ring_snoc_def ring_tl_def Let_def)

text \<open>The ring with room made in it.\<close>

definition ring_room :: "OfflineBuffer \<Rightarrow> OfflineBuffer" where
  "ring_room b = (if s_count b = OB_CAPACITY then ring_tl b else b)"

lemma ring_room_inv: "ob_inv b \<Longrightarrow> ob_inv (ring_room b) \<and> s_count (ring_room b) < OB_CAPACITY"
proof (cases "s_count b = OB_CAPACITY")
  case True
  assume "ob_inv b"
  with True show ?thesis
    using ring_tl_inv [of b] capacity_pos by (simp add: ring_room_def) (simp add: ring_tl_def)
qed (simp add: ring_room_def ob_inv_def le_less)

lemma ring_room_list:
  "ob_list (ring_room b) =
     (if length (ob_list b) = OB_CAPACITY then tl (ob_list b) else ob_list b)"
  using ring_tl_list [of b] capacity_pos by (auto simp: ring_room_def)

lemma ob_push_room: "ob_push d b = ring_snoc d (ring_room b)"
  by (simp add: ob_push_ring ring_room_def)

lemma ob_drop_front_ring:
  "snd (ob_drop_front b) = (if s_count b = 0 then b else ring_tl b)"
  by (simp add: ob_drop_front_def ring_tl_def)

interpretation offline: drop_oldest_fifo ob_inv ob_list OB_CAPACITY ob_push ob_peek
  "\<lambda>b. snd (ob_drop_front b)"
proof
  fix b d
  assume b: "ob_inv b"
  then show "length (ob_list b) \<le> OB_CAPACITY" by (simp add: ob_inv_def)
  show "ob_inv (ob_push d b)" "ob_list (ob_push d b) =
      (if length (ob_list b) = OB_CAPACITY then tl (ob_list b) else ob_list b) @ [d]"
    using ring_room_inv [OF b]
    by (simp_all add: ob_push_room ring_snoc_inv ring_snoc_list ring_room_list)
  show "ob_inv (snd (ob_drop_front b))"
    using b by (simp add: ob_drop_front_ring ring_tl_inv)
  show "ob_list (snd (ob_drop_front b)) = tl (ob_list b)"
    by (simp add: ob_drop_front_ring ring_tl_list) (simp add: ob_list_def)
  show "ob_peek b = (case ob_list b of [] \<Rightarrow> None | x # _ \<Rightarrow> Some x)"
    using b by (cases "s_count b")
      (simp_all add: ob_peek_def ob_list_def ob_inv_def upt_conv_Cons del: upt_Suc)
qed simp

lemma ob_pop_split: "ob_pop b = (ob_peek b, snd (ob_drop_front b))"
  by (simp add: ob_pop_def ob_peek_def ob_drop_front_def)

lemma ob_reset_inv: "ob_inv b \<Longrightarrow> ob_inv (ob_reset b) \<and> ob_list (ob_reset b) = []"
  by (simp add: ob_inv_def ob_reset_def ob_list_def)

lemma ob_new_inv: "ob_inv OfflineBuffer_new \<and> ob_list OfflineBuffer_new = []"
  by (simp add: ob_inv_def OfflineBuffer_new_def ob_list_def)

section \<open>Properties\<close>

text \<open>
  C26: after a reset and any number of pushes the buffer is the last 75 snapshots pushed, oldest
  first: reading it by repeated peek and drop gives exactly that list, and the count is its
  length.
\<close>

lemma offline_keeps_last_75:
  "map (\<lambda>n. ob_peek (((\<lambda>b. snd (ob_drop_front b)) ^^ n) (fold ob_push ds OfflineBuffer_new)))
      [0..<ob_count (fold ob_push ds OfflineBuffer_new)] = map Some (last_n 75 ds)"
proof -
  let ?b = "fold ob_push ds OfflineBuffer_new"
  have b: "ob_inv ?b" "ob_list ?b = last_n 75 ds"
    using offline.inv_pushes [of OfflineBuffer_new ds]
      offline.contents_pushes [of OfflineBuffer_new ds] ob_new_inv
    by (simp_all add: OB_CAPACITY_def)
  then have n: "ob_count ?b = length (last_n 75 ds)"
    by (metis length_ob_list ob_count_def)
  show ?thesis
    unfolding n
    by (rule nth_equalityI)
      (use offline.peek_after_drops [OF b(1)] b(2) in \<open>simp_all\<close>)
qed

end
