(* ===== verification/Link_Monitor.thy ===== *)
theory Link_Monitor
  imports Aks_Prelude
begin

text \<open>
  The pure parts of the LoRa link supervision: the heartbeat timeout with its boot grace
  (\<open>include/LinkMonitor.h\<close>), the classification of received bytes and the throttled warning about
  unknown ones (\<open>include/LoraRxHandler.h\<close>). Times are 64-bit milliseconds since boot.
\<close>

section \<open>Configuration\<close>

definition UKS_HEARTBEAT_BYTE :: u8 where [aks_config]: "UKS_HEARTBEAT_BYTE = 0xB0"
definition LINK_TIMEOUT_MS :: u32 where [aks_config]: "LINK_TIMEOUT_MS = 3000"
definition BOOT_LINK_GRACE_MS :: u32 where [aks_config]: "BOOT_LINK_GRACE_MS = 5000"

definition LORA_UNKNOWN_BYTE_WARN_INTERVAL_MS :: u32 where
  [aks_config]: "LORA_UNKNOWN_BYTE_WARN_INTERVAL_MS = 10000"

section \<open>The functions\<close>

definition link_check_timeout :: "u64 \<Rightarrow> u64 \<Rightarrow> u32 \<Rightarrow> bool" where
  "link_check_timeout now_ms last_hb_ms timeout_ms =
     (if last_hb_ms = 0 then False else ucast timeout_ms < now_ms - last_hb_ms)"

definition link_check_timeout_with_boot_grace ::
  "u64 \<Rightarrow> u64 \<Rightarrow> u32 \<Rightarrow> u64 \<Rightarrow> u32 \<Rightarrow> bool" where
  "link_check_timeout_with_boot_grace now_ms last_hb_ms timeout_ms boot_ms boot_grace_ms =
     (if last_hb_ms = 0 then ucast boot_grace_ms < now_ms - boot_ms
      else link_check_timeout now_ms last_hb_ms timeout_ms)"

datatype LoraRxByteKind = HEARTBEAT | UNKNOWN

definition lora_classify_rx_byte :: "u8 \<Rightarrow> LoraRxByteKind" where
  "lora_classify_rx_byte rx_byte = (if rx_byte = UKS_HEARTBEAT_BYTE then HEARTBEAT else UNKNOWN)"

text \<open>The result is the warning decision, the new count and the new time of the last warning.\<close>

definition lora_note_unknown_byte ::
  "u64 \<Rightarrow> u32 \<Rightarrow> u64 \<Rightarrow> u32 \<Rightarrow> bool \<times> u32 \<times> u64" where
  "lora_note_unknown_byte now_ms count last_warn_ms warn_interval_ms =
     (if ucast warn_interval_ms \<le> now_ms - last_warn_ms
      then (True, count + 1, now_ms)
      else (False, count + 1, last_warn_ms))"

section \<open>Lemmas\<close>

lemma unat_ucast_32_64 [simp]: "unat (ucast (w :: u32) :: u64) = unat w"
  using unat_32_less [of w] by (simp add: unsigned_ucast_eq take_bit_nat_eq_self)

lemma unat_sub_64: "b \<le> a \<Longrightarrow> unat (a - b :: u64) = unat a - unat b"
  by (rule unat_sub)

text \<open>For a clock that does not run backwards the tests are the plain comparisons.\<close>

lemma link_check_timeout_unat:
  "last_hb_ms \<le> now_ms \<Longrightarrow>
   link_check_timeout now_ms last_hb_ms timeout_ms \<longleftrightarrow>
     last_hb_ms \<noteq> 0 \<and> unat timeout_ms < unat now_ms - unat last_hb_ms"
  by (simp add: link_check_timeout_def word_less_nat_alt unat_sub_64)

lemma boot_grace_unat:
  "boot_ms \<le> now_ms \<Longrightarrow> last_hb_ms \<le> now_ms \<Longrightarrow>
   link_check_timeout_with_boot_grace now_ms last_hb_ms timeout_ms boot_ms grace \<longleftrightarrow>
     (if last_hb_ms = 0 then unat grace < unat now_ms - unat boot_ms
      else unat timeout_ms < unat now_ms - unat last_hb_ms)"
  by (simp add: link_check_timeout_with_boot_grace_def link_check_timeout_unat word_less_nat_alt
      unat_sub_64)

section \<open>Warnings about unknown bytes\<close>

text \<open>A run of unknown bytes at given times, and the times at which it warns.\<close>

fun warn_times :: "u32 \<Rightarrow> u64 list \<Rightarrow> u32 \<times> u64 \<Rightarrow> u64 list" where
  "warn_times interval [] s = []"
| "warn_times interval (t # ts) (count, last_warn) =
     (let (warn, count', last') = lora_note_unknown_byte t count last_warn interval
      in (if warn then [t] else []) @ warn_times interval ts (count', last'))"

lemma warn_times_spaced:
  "sorted (map unat (last_warn # ts)) \<Longrightarrow>
   sorted_wrt (\<lambda>a b. unat a + unat interval \<le> unat b) (last_warn # warn_times interval ts (count, last_warn))"
proof (induction ts arbitrary: count last_warn)
  case (Cons t ts)
  have le: "last_warn \<le> t" using Cons.prems by (simp add: word_le_nat_alt)
  show ?case
  proof (cases "ucast interval \<le> t - last_warn")
    case False
    then show ?thesis
      using Cons by (simp add: lora_note_unknown_byte_def)
  next
    case True
    then have gap: "unat last_warn + unat interval \<le> unat t"
      using le by (simp add: word_le_nat_alt unat_sub_64)
    have "sorted_wrt (\<lambda>a b. unat a + unat interval \<le> unat b)
        (t # warn_times interval ts (count + 1, t))"
      using Cons.prems by (intro Cons.IH) simp
    with True gap show ?thesis
      by (auto simp: lora_note_unknown_byte_def)
  qed
qed simp

section \<open>Properties\<close>

text \<open>
  The link counts as timed out exactly when more than the timeout has passed since the last
  heartbeat or, when none was ever received, more than the grace period since boot; at the exact
  limit it does not.
\<close>

lemma link_timeout_exact:
  assumes "boot_ms \<le> now_ms" "last_hb_ms \<le> now_ms"
  shows "link_check_timeout_with_boot_grace now_ms last_hb_ms LINK_TIMEOUT_MS boot_ms
      BOOT_LINK_GRACE_MS \<longleftrightarrow>
    (if last_hb_ms = 0 then 5000 < unat now_ms - unat boot_ms
     else 3000 < unat now_ms - unat last_hb_ms)"
  by (simp add: boot_grace_unat [OF assms] LINK_TIMEOUT_MS_def BOOT_LINK_GRACE_MS_def)

lemma link_timeout_exact_witness:
  "link_check_timeout_with_boot_grace 9001 6000 LINK_TIMEOUT_MS 100 BOOT_LINK_GRACE_MS"
  by (subst link_timeout_exact) simp_all

text \<open>
  Warnings about unknown received bytes are throttled: for bytes at non-decreasing times, any
  two warnings are at least the interval apart.
\<close>

lemma unknown_byte_warnings_throttled:
  assumes "sorted (map unat (last_warn # ts))"
  shows "sorted_wrt (\<lambda>a b. unat a + unat interval \<le> unat b)
    (warn_times interval ts (count, last_warn))"
  using warn_times_spaced [OF assms, of interval count] by simp

lemma unknown_byte_warnings_throttled_witness:
  "sorted_wrt (\<lambda>a b. unat a + 10000 \<le> unat b)
    (warn_times LORA_UNKNOWN_BYTE_WARN_INTERVAL_MS [10000, 10001, 15000, 20000, 40000] (0, 0))"
  using unknown_byte_warnings_throttled
    [of 0 "[10000, 10001, 15000, 20000, 40000]" LORA_UNKNOWN_BYTE_WARN_INTERVAL_MS 0]
  by (simp add: LORA_UNKNOWN_BYTE_WARN_INTERVAL_MS_def)

end
