(* ===== verification/Lora_Task.thy ===== *)
theory Lora_Task
  imports Offline_Buffer Link_Monitor Uks_Frame
begin

text \<open>
  The body of \<open>vTask_LoRa_UKS\<close> (\<open>src/main.cpp\<close>): one iteration reads the radio, supervises the
  link and, once per transmission period, either replays buffered snapshots and sends the live one
  or, while the link is down, samples the live one into the offline buffer. What an iteration reads
  from timers, the UART, the AUX pin and the sensor queue is its input record; \<open>pdMS_TO_TICKS\<close> is
  a parameter (\<open>ms\<close>). The set-up and the boot configuration of the radio module precede the
  loop; they are in \<open>Lora_Start\<close>.
\<close>

section \<open>State and inputs\<close>

definition LORA_TX_PERIOD_MS :: u32 where [aks_config]: "LORA_TX_PERIOD_MS = 200"
definition OFFLINE_SAMPLE_PERIOD_MS :: u32 where [aks_config]: "OFFLINE_SAMPLE_PERIOD_MS = 1000"
definition REPLAY_BURST_PER_TICK :: nat where [aks_config]: "REPLAY_BURST_PER_TICK = 1"

record LoraTask =
  LO_telemetry :: Telemetry
  LO_buffer :: OfflineBuffer
  s_linkDown :: bool
  s_lastHeartbeatMs :: u64
  s_unknownRxByteCount :: u32
  s_lastUnknownRxByteWarnMs :: u64
  LO_lastTelemetryTick :: TickType_t
  LO_auxNotReadyLogged :: bool
  LO_bootMs :: u64
  LO_lastOfflineSampleMs :: u64
  LO_offlineFirstTs :: u32
  LO_offlineLastTs :: u32
  LO_offlineHasSamples :: bool

definition LoraTask_start :: "u64 \<Rightarrow> LoraTask" where
  "LoraTask_start boot_ms = \<lparr>
     LO_telemetry = snd (Telemetry_begin Telemetry_new), LO_buffer = OfflineBuffer_new,
     s_linkDown = False, s_lastHeartbeatMs = 0,
     s_unknownRxByteCount = 0, s_lastUnknownRxByteWarnMs = 0,
     LO_lastTelemetryTick = 0, LO_auxNotReadyLogged = False, LO_bootMs = boot_ms,
     LO_lastOfflineSampleMs = 0, LO_offlineFirstTs = 0, LO_offlineLastTs = 0,
     LO_offlineHasSamples = False\<rparr>"

text \<open>
  The bytes received in this iteration with the time at which each is handled (at most four: the
  size of the read buffer); the time of the link check; the tick; whether the sensor queue exists
  and what peeking it gives; for the \<open>i\<close>-th replayed packet the AUX level and what
  \<open>uart_write_bytes\<close> returns; the same for the live packet; the time of the sampling test.
\<close>

record lora_in =
  IN_rx :: "(u8 \<times> u64) list"
  IN_linkMs :: u64
  IN_tick :: TickType_t
  IN_queue :: bool
  IN_live :: "TelemetryData option"
  IN_replay :: "nat \<Rightarrow> bool \<times> int"
  IN_aux :: bool
  IN_written :: int
  IN_sampleMs :: u64

datatype lora_log =
    LogUnknownByte u8 u32
  | LogLinkDown
  | LogLinkUp "(nat \<times> u32 \<times> u32) option"
  | LogAuxNotReady

datatype lora_out = Uplink string | LoraLog lora_log

section \<open>The iteration\<close>

definition lora_rx_byte :: "u8 \<times> u64 \<Rightarrow> LoraTask \<Rightarrow> LoraTask \<times> lora_out list" where
  "lora_rx_byte bt s =
     (case bt of (b, now_ms) \<Rightarrow>
        case lora_classify_rx_byte b of
          HEARTBEAT \<Rightarrow> (s\<lparr>s_lastHeartbeatMs := now_ms\<rparr>, [])
        | UNKNOWN \<Rightarrow>
            let (warn, count, last) = lora_note_unknown_byte now_ms (s_unknownRxByteCount s)
                  (s_lastUnknownRxByteWarnMs s) LORA_UNKNOWN_BYTE_WARN_INTERVAL_MS
            in (s\<lparr>s_unknownRxByteCount := count, s_lastUnknownRxByteWarnMs := last\<rparr>,
                if warn then [LoraLog (LogUnknownByte b count)] else []))"

fun lora_rx :: "(u8 \<times> u64) list \<Rightarrow> LoraTask \<Rightarrow> LoraTask \<times> lora_out list" where
  "lora_rx [] s = (s, [])"
| "lora_rx (bt # bts) s =
     (let (s1, o1) = lora_rx_byte bt s; (s2, o2) = lora_rx bts s1 in (s2, o1 @ o2))"

definition lora_timeout :: "u64 \<Rightarrow> LoraTask \<Rightarrow> bool" where
  "lora_timeout now_ms s = link_check_timeout_with_boot_grace now_ms (s_lastHeartbeatMs s)
     LINK_TIMEOUT_MS (LO_bootMs s) BOOT_LINK_GRACE_MS"

definition lora_link :: "u64 \<Rightarrow> LoraTask \<Rightarrow> LoraTask \<times> lora_out list" where
  "lora_link now_ms s =
     (let timeout = lora_timeout now_ms s
      in if timeout \<and> \<not> s_linkDown s then
           (s\<lparr>s_linkDown := True, LO_lastOfflineSampleMs := 0, LO_offlineHasSamples := False\<rparr>,
            [LoraLog LogLinkDown])
         else if \<not> timeout \<and> s_linkDown s \<and> s_lastHeartbeatMs s \<noteq> 0 then
           (s\<lparr>s_linkDown := False\<rparr>,
            [LoraLog (LogLinkUp
               (if LO_offlineHasSamples s
                then Some (ob_count (LO_buffer s), LO_offlineFirstTs s, LO_offlineLastTs s)
                else None))])
         else (s, []))"

definition LoRa_IsLinkDown :: "LoraTask \<Rightarrow> bool" where
  "LoRa_IsLinkDown s = s_linkDown s"

text \<open>One sanitised transmission.\<close>

definition lora_send :: "int \<Rightarrow> TelemetryData \<Rightarrow> LoraTask \<Rightarrow> LoraTask \<times> lora_out list" where
  "lora_send written d s =
     (let (t, line) = sendStatus written (sanitizeForUplink d) (LO_telemetry s)
      in (s\<lparr>LO_telemetry := t\<rparr>, case line of None \<Rightarrow> [] | Some l \<Rightarrow> [Uplink l]))"

definition lora_aux_skip :: "LoraTask \<Rightarrow> LoraTask \<times> lora_out list" where
  "lora_aux_skip s =
     (if LO_auxNotReadyLogged s then (s, [])
      else (s\<lparr>LO_auxNotReadyLogged := True\<rparr>, [LoraLog LogAuxNotReady]))"

text \<open>The replay loop: its bound, the index of the packet and the environment of each packet.\<close>

fun lora_replay :: "nat \<Rightarrow> nat \<Rightarrow> (nat \<Rightarrow> bool \<times> int) \<Rightarrow> LoraTask \<Rightarrow> LoraTask \<times> lora_out list" where
  "lora_replay 0 i env s = (s, [])"
| "lora_replay (Suc n) i env s =
     (case ob_peek (LO_buffer s) of
        None \<Rightarrow> (s, [])
      | Some d \<Rightarrow>
          let (aux_ready, written) = env i
          in if \<not> aux_ready then lora_aux_skip s
             else
               let (s1, o1) = lora_send written d s;
                   s2 = s1\<lparr>LO_buffer := snd (ob_drop_front (LO_buffer s1)),
                           LO_auxNotReadyLogged := False\<rparr>;
                   (s3, o3) = lora_replay n (Suc i) env s2
               in (s3, o1 @ o3))"

definition lora_live :: "lora_in \<Rightarrow> LoraTask \<Rightarrow> LoraTask \<times> lora_out list" where
  "lora_live i s =
     (case IN_live i of
        None \<Rightarrow> (s, [])
      | Some d \<Rightarrow>
          if IN_aux i then
            let (s1, o1) = lora_send (IN_written i) d s
            in (s1\<lparr>LO_auxNotReadyLogged := False\<rparr>, o1)
          else lora_aux_skip s)"

definition lora_offline :: "lora_in \<Rightarrow> LoraTask \<Rightarrow> LoraTask" where
  "lora_offline i s =
     (case IN_live i of
        None \<Rightarrow> s
      | Some d \<Rightarrow>
          if offline_should_sample (IN_sampleMs i) (LO_lastOfflineSampleMs s)
               (LO_offlineHasSamples s) OFFLINE_SAMPLE_PERIOD_MS
          then
            let s1 = s\<lparr>LO_lastOfflineSampleMs := IN_sampleMs i, LO_buffer := ob_push d (LO_buffer s)\<rparr>;
                s2 = (if \<not> LO_offlineHasSamples s1
                      then s1\<lparr>LO_offlineFirstTs := TEL_timestampMs d, LO_offlineHasSamples := True\<rparr>
                      else s1)
            in s2\<lparr>LO_offlineLastTs := TEL_timestampMs d\<rparr>
          else s)"

definition lora_telemetry ::
  "(u32 \<Rightarrow> TickType_t) \<Rightarrow> lora_in \<Rightarrow> LoraTask \<Rightarrow> LoraTask \<times> lora_out list" where
  "lora_telemetry ms i s =
     (if ms LORA_TX_PERIOD_MS \<le> IN_tick i - LO_lastTelemetryTick s then
        let s1 = s\<lparr>LO_lastTelemetryTick := IN_tick i\<rparr>
        in if \<not> IN_queue i then (s1, [])
           else if \<not> LoRa_IsLinkDown s1 then
             let (s2, o2) = lora_replay REPLAY_BURST_PER_TICK 0 (IN_replay i) s1;
                 (s3, o3) = lora_live i s2
             in (s3, o2 @ o3)
           else (lora_offline i s1, [])
      else (s, []))"

definition lora_step ::
  "(u32 \<Rightarrow> TickType_t) \<Rightarrow> lora_in \<Rightarrow> LoraTask \<Rightarrow> LoraTask \<times> lora_out list" where
  "lora_step ms i s =
     (let (s1, o1) = lora_rx (take 4 (IN_rx i)) s;
          (s2, o2) = lora_link (IN_linkMs i) s1;
          (s3, o3) = lora_telemetry ms i s2
      in (s3, o1 @ o2 @ o3))"

section \<open>Frame lemmas\<close>

lemma rx_byte_frame [simp]:
  "LO_buffer (fst (lora_rx_byte bt s)) = LO_buffer s"
  "s_linkDown (fst (lora_rx_byte bt s)) = s_linkDown s"
  "LO_telemetry (fst (lora_rx_byte bt s)) = LO_telemetry s"
  "LO_lastTelemetryTick (fst (lora_rx_byte bt s)) = LO_lastTelemetryTick s"
  "LO_bootMs (fst (lora_rx_byte bt s)) = LO_bootMs s"
  "Uplink l \<notin> set (snd (lora_rx_byte bt s))"
  by (simp_all add: lora_rx_byte_def Let_def split: prod.split LoraRxByteKind.split)

lemma rx_frame [simp]:
  "LO_buffer (fst (lora_rx bts s)) = LO_buffer s"
  "s_linkDown (fst (lora_rx bts s)) = s_linkDown s"
  "LO_telemetry (fst (lora_rx bts s)) = LO_telemetry s"
  "LO_lastTelemetryTick (fst (lora_rx bts s)) = LO_lastTelemetryTick s"
  "LO_bootMs (fst (lora_rx bts s)) = LO_bootMs s"
  "Uplink l \<notin> set (snd (lora_rx bts s))"
  by (induction bts arbitrary: s) (simp_all add: case_prod_beta Let_def)

lemma link_frame [simp]:
  "LO_buffer (fst (lora_link n s)) = LO_buffer s"
  "LO_telemetry (fst (lora_link n s)) = LO_telemetry s"
  "LO_lastTelemetryTick (fst (lora_link n s)) = LO_lastTelemetryTick s"
  "s_lastHeartbeatMs (fst (lora_link n s)) = s_lastHeartbeatMs s"
  "Uplink l \<notin> set (snd (lora_link n s))"
  by (simp_all add: lora_link_def Let_def)

lemma link_down:
  "s_linkDown (fst (lora_link n s)) \<longleftrightarrow>
     lora_timeout n s \<or> s_linkDown s \<and> s_lastHeartbeatMs s = 0"
  by (auto simp: lora_link_def Let_def)

lemma aux_skip_frame [simp]:
  "LO_buffer (fst (lora_aux_skip s)) = LO_buffer s"
  "s_linkDown (fst (lora_aux_skip s)) = s_linkDown s"
  "LO_telemetry (fst (lora_aux_skip s)) = LO_telemetry s"
  "Uplink l \<notin> set (snd (lora_aux_skip s))"
  by (simp_all add: lora_aux_skip_def)

lemma send_frame [simp]:
  "LO_buffer (fst (lora_send w d s)) = LO_buffer s"
  "s_linkDown (fst (lora_send w d s)) = s_linkDown s"
  "TEL_isInitialized (LO_telemetry (fst (lora_send w d s))) = TEL_isInitialized (LO_telemetry s)"
  using sendStatus_keeps_initialized [of w "sanitizeForUplink d" "LO_telemetry s"]
  by (simp_all add: lora_send_def case_prod_beta Let_def del: sendStatus_keeps_initialized)

lemma snd_lora_send:
  "TEL_isInitialized (LO_telemetry s) \<Longrightarrow> snd (lora_send w d s) =
     [Uplink (tel_line (TEL_sequenceCounter (LO_telemetry s)) (sanitizeForUplink d))]"
  by (simp add: lora_send_def sendStatus_initialized Let_def)

lemma send_uplink:
  "Uplink l \<in> set (snd (lora_send w d s)) \<Longrightarrow> \<exists>seq. l = tel_line seq (sanitizeForUplink d)"
proof (cases "TEL_isInitialized (LO_telemetry s)")
  case False
  assume "Uplink l \<in> set (snd (lora_send w d s))"
  with False show ?thesis
    by (simp add: lora_send_def sendStatus_not_initialized)
qed (auto simp: snd_lora_send)

lemma live_frame [simp]:
  "LO_buffer (fst (lora_live i s)) = LO_buffer s"
  "s_linkDown (fst (lora_live i s)) = s_linkDown s"
  "TEL_isInitialized (LO_telemetry (fst (lora_live i s))) = TEL_isInitialized (LO_telemetry s)"
  by (simp_all add: lora_live_def case_prod_beta Let_def split: option.split)

section \<open>Replay\<close>

fun sent :: "lora_out list \<Rightarrow> string list" where
  "sent [] = []"
| "sent (Uplink l # os) = l # sent os"
| "sent (LoraLog _ # os) = sent os"

lemma sent_append [simp]: "sent (xs @ ys) = sent xs @ sent ys"
  by (induction xs rule: sent.induct) simp_all

lemma set_sent: "l \<in> set (sent os) \<longleftrightarrow> Uplink l \<in> set os"
  by (induction os rule: sent.induct) auto

lemma sent_Nil: "sent os = [] \<longleftrightarrow> (\<forall>l. Uplink l \<notin> set os)"
  by (induction os rule: sent.induct) auto

text \<open>A line that carries a snapshot, sanitised, under some sequence number.\<close>

definition carries :: "string \<Rightarrow> TelemetryData \<Rightarrow> bool" where
  "carries l d \<longleftrightarrow> (\<exists>seq. l = tel_line seq (sanitizeForUplink d))"

definition lora_inv :: "LoraTask \<Rightarrow> bool" where
  "lora_inv s \<longleftrightarrow> ob_inv (LO_buffer s) \<and> TEL_isInitialized (LO_telemetry s)"

lemma sent_lora_send:
  "TEL_isInitialized (LO_telemetry s) \<Longrightarrow>
   \<exists>l. sent (snd (lora_send w d s)) = [l] \<and> carries l d"
  by (auto simp: snd_lora_send carries_def)

lemma lora_inv_start: "lora_inv (LoraTask_start boot)"
  using ob_new_inv by (simp add: lora_inv_def LoraTask_start_def Telemetry_begin_def)

lemma lora_inv_replay: "lora_inv s \<Longrightarrow> lora_inv (fst (lora_replay n i env s))"
proof (induction n arbitrary: i s)
  case (Suc n)
  then show ?case
    by (auto simp: lora_inv_def case_prod_beta Let_def offline.inv_drop split: option.split)
qed simp

lemma replay_link [simp]: "s_linkDown (fst (lora_replay n i env s)) = s_linkDown s"
  by (induction n arbitrary: i s) (simp_all add: case_prod_beta Let_def split: option.split)

lemma lora_inv_offline: "lora_inv s \<Longrightarrow> lora_inv (lora_offline i s)"
  by (auto simp: lora_inv_def lora_offline_def Let_def offline.inv_push split: option.split)

lemma offline_link [simp]: "s_linkDown (lora_offline i s) = s_linkDown s"
  by (simp add: lora_offline_def Let_def split: option.split)

lemma lora_inv_telemetry: "lora_inv s \<Longrightarrow> lora_inv (fst (lora_telemetry ms i s))"
proof -
  assume "lora_inv s"
  then have s1: "lora_inv (s\<lparr>LO_lastTelemetryTick := IN_tick i\<rparr>)" by (simp add: lora_inv_def)
  have "lora_inv (fst (lora_live i t))" if "lora_inv t" for t
    using that by (simp add: lora_inv_def)
  then show ?thesis
    using s1 \<open>lora_inv s\<close>
    by (simp add: lora_telemetry_def case_prod_beta Let_def lora_inv_replay lora_inv_offline)
qed

lemma lora_inv_step: "lora_inv s \<Longrightarrow> lora_inv (fst (lora_step ms i s))"
proof -
  have "lora_inv (fst (lora_link n (fst (lora_rx bts s)))) = lora_inv s" for n bts
    by (simp add: lora_inv_def)
  then show "lora_inv s \<Longrightarrow> lora_inv (fst (lora_step ms i s))"
    by (simp add: lora_step_def case_prod_beta Let_def lora_inv_telemetry)
qed

lemma telemetry_link [simp]: "s_linkDown (fst (lora_telemetry ms i s)) = s_linkDown s"
  by (simp add: lora_telemetry_def case_prod_beta Let_def)

text \<open>What a replay burst does: the oldest snapshots leave the buffer and go out, in order.\<close>

lemma replay_spec:
  "lora_inv s \<Longrightarrow> \<exists>k \<le> n.
     ob_list (LO_buffer (fst (lora_replay n i env s))) = drop k (ob_list (LO_buffer s)) \<and>
     list_all2 carries (sent (snd (lora_replay n i env s))) (take k (ob_list (LO_buffer s)))"
proof (induction n arbitrary: i s)
  case (Suc n)
  have inv: "ob_inv (LO_buffer s)" and init: "TEL_isInitialized (LO_telemetry s)"
    using Suc.prems by (simp_all add: lora_inv_def)
  show ?case
  proof (cases "ob_list (LO_buffer s)")
    case Nil
    then have "ob_peek (LO_buffer s) = None" using offline.peek_front [OF inv] by simp
    with Nil show ?thesis by (intro exI [of _ 0]) simp
  next
    case (Cons d ds)
    then have peek: "ob_peek (LO_buffer s) = Some d" using offline.peek_front [OF inv] by simp
    show ?thesis
    proof (cases "fst (env i)")
      case False
      have "sent (snd (lora_aux_skip s)) = []" by (simp add: sent_Nil)
      with False peek show ?thesis by (intro exI [of _ 0]) (simp add: case_prod_beta)
    next
      case True
      let ?s1 = "fst (lora_send (snd (env i)) d s)"
      let ?s2 = "?s1\<lparr>LO_buffer := snd (ob_drop_front (LO_buffer ?s1)), LO_auxNotReadyLogged := False\<rparr>"
      have buf: "ob_list (LO_buffer ?s2) = ds"
        using offline.contents_drop [OF inv] Cons by simp
      have inv2: "lora_inv ?s2"
        using inv init by (simp add: lora_inv_def offline.inv_drop)
      obtain k where k: "k \<le> n"
        "ob_list (LO_buffer (fst (lora_replay n (Suc i) env ?s2))) = drop k ds"
        "list_all2 carries (sent (snd (lora_replay n (Suc i) env ?s2))) (take k ds)"
        using Suc.IH [OF inv2, of "Suc i"] buf by auto
      obtain l where "sent (snd (lora_send (snd (env i)) d s)) = [l]" "carries l d"
        using sent_lora_send [OF init] by blast
      with k peek True Cons show ?thesis
        by (intro exI [of _ "Suc k"]) (simp add: case_prod_beta Let_def)
    qed
  qed
qed simp

text \<open>The state in which the telemetry part of an iteration starts.\<close>

definition lora_mid :: "lora_in \<Rightarrow> LoraTask \<Rightarrow> LoraTask" where
  "lora_mid i s = fst (lora_link (IN_linkMs i) (fst (lora_rx (take 4 (IN_rx i)) s)))"

lemma lora_step_mid:
  "fst (lora_step ms i s) = fst (lora_telemetry ms i (lora_mid i s))"
  "sent (snd (lora_step ms i s)) = sent (snd (lora_telemetry ms i (lora_mid i s)))"
proof -
  have "sent (snd (lora_rx bts s)) = []" "sent (snd (lora_link n t)) = []" for bts n t
    by (simp_all add: sent_Nil)
  then show "fst (lora_step ms i s) = fst (lora_telemetry ms i (lora_mid i s))"
    "sent (snd (lora_step ms i s)) = sent (snd (lora_telemetry ms i (lora_mid i s)))"
    by (simp_all add: lora_step_def lora_mid_def case_prod_beta Let_def)
qed

lemma mid_frame [simp]:
  "LO_buffer (lora_mid i s) = LO_buffer s" "LO_telemetry (lora_mid i s) = LO_telemetry s"
  "LO_lastTelemetryTick (lora_mid i s) = LO_lastTelemetryTick s"
  by (simp_all add: lora_mid_def)

lemma step_link: "s_linkDown (fst (lora_step ms i s)) = s_linkDown (lora_mid i s)"
  by (simp add: lora_step_mid)

text \<open>Whether this iteration reaches the telemetry part.\<close>

definition tx_due :: "(u32 \<Rightarrow> TickType_t) \<Rightarrow> lora_in \<Rightarrow> LoraTask \<Rightarrow> bool" where
  "tx_due ms i s \<longleftrightarrow> ms LORA_TX_PERIOD_MS \<le> IN_tick i - LO_lastTelemetryTick s \<and> IN_queue i"

lemma telemetry_up:
  assumes "\<not> s_linkDown s" "tx_due ms i s"
  shows "lora_telemetry ms i s =
    (let (s2, o2) = lora_replay REPLAY_BURST_PER_TICK 0 (IN_replay i)
           (s\<lparr>LO_lastTelemetryTick := IN_tick i\<rparr>);
         (s3, o3) = lora_live i s2
     in (s3, o2 @ o3))"
  using assms by (simp add: lora_telemetry_def tx_due_def LoRa_IsLinkDown_def)

lemma telemetry_quiet:
  "\<not> tx_due ms i s \<Longrightarrow> LO_buffer (fst (lora_telemetry ms i s)) = LO_buffer s \<and>
     snd (lora_telemetry ms i s) = []"
  by (auto simp: lora_telemetry_def tx_due_def Let_def)

lemma telemetry_down:
  assumes "s_linkDown s"
  shows "snd (lora_telemetry ms i s) = []"
    "lora_inv s \<Longrightarrow> ob_list (LO_buffer (fst (lora_telemetry ms i s))) =
       (case IN_live i of
          Some d \<Rightarrow>
            if tx_due ms i s \<and> offline_should_sample (IN_sampleMs i) (LO_lastOfflineSampleMs s)
                 (LO_offlineHasSamples s) OFFLINE_SAMPLE_PERIOD_MS
            then last_n 75 (ob_list (LO_buffer s) @ [d]) else ob_list (LO_buffer s)
        | None \<Rightarrow> ob_list (LO_buffer s))"
proof -
  show "snd (lora_telemetry ms i s) = []"
    using assms by (simp add: lora_telemetry_def LoRa_IsLinkDown_def Let_def)
  assume "lora_inv s"
  then have push: "ob_list (ob_push d (LO_buffer s)) = last_n 75 (ob_list (LO_buffer s) @ [d])" for d
    using offline.contents_push_last_n [of "LO_buffer s" d] by (simp add: lora_inv_def OB_CAPACITY_def)
  show "ob_list (LO_buffer (fst (lora_telemetry ms i s))) =
       (case IN_live i of
          Some d \<Rightarrow>
            if tx_due ms i s \<and> offline_should_sample (IN_sampleMs i) (LO_lastOfflineSampleMs s)
                 (LO_offlineHasSamples s) OFFLINE_SAMPLE_PERIOD_MS
            then last_n 75 (ob_list (LO_buffer s) @ [d]) else ob_list (LO_buffer s)
        | None \<Rightarrow> ob_list (LO_buffer s))"
    using assms push
    by (auto simp: lora_telemetry_def LoRa_IsLinkDown_def lora_offline_def tx_due_def Let_def
        split: option.split)
qed

text \<open>The live snapshot, if this iteration sends it.\<close>

definition live_list :: "lora_in \<Rightarrow> TelemetryData list" where
  "live_list i = (case IN_live i of Some d \<Rightarrow> if IN_aux i then [d] else [] | None \<Rightarrow> [])"

lemma set_live_list: "set (live_list i) \<subseteq> set_option (IN_live i)"
  by (auto simp: live_list_def split: option.split)

lemma live_sent:
  "lora_inv s \<Longrightarrow> list_all2 carries (sent (snd (lora_live i s))) (live_list i)"
proof (cases "IN_live i")
  case (Some d)
  assume "lora_inv s"
  then have "\<exists>l. sent (snd (lora_send (IN_written i) d s)) = [l] \<and> carries l d"
    by (intro sent_lora_send) (simp add: lora_inv_def)
  moreover have "sent (snd (lora_aux_skip s)) = []" by (simp add: sent_Nil)
  ultimately show ?thesis
    using Some by (auto simp: lora_live_def live_list_def case_prod_beta Let_def)
qed (simp add: lora_live_def live_list_def)

text \<open>
  An iteration with the link up: at most the oldest buffered snapshots are replayed, in order,
  before the live one, and exactly those leave the buffer.
\<close>

lemma step_up:
  assumes "lora_inv s" "\<not> s_linkDown (fst (lora_step ms i s))"
  shows "\<exists>k \<le> REPLAY_BURST_PER_TICK. \<exists>ds.
    ob_list (LO_buffer (fst (lora_step ms i s))) = drop k (ob_list (LO_buffer s)) \<and>
    list_all2 carries (sent (snd (lora_step ms i s))) (take k (ob_list (LO_buffer s)) @ ds) \<and>
    set ds \<subseteq> set_option (IN_live i)"
proof (cases "tx_due ms i (lora_mid i s)")
  case False
  then show ?thesis
    by (intro exI [of _ 0] conjI exI [of _ "[]"]) (simp_all add: lora_step_mid telemetry_quiet)
next
  case True
  let ?s0 = "(lora_mid i s)\<lparr>LO_lastTelemetryTick := IN_tick i\<rparr>"
  have up: "\<not> s_linkDown (lora_mid i s)" using assms(2) by (simp add: step_link)
  have inv: "lora_inv ?s0" using assms(1) by (simp add: lora_inv_def)
  obtain k where k: "k \<le> REPLAY_BURST_PER_TICK"
    "ob_list (LO_buffer (fst (lora_replay REPLAY_BURST_PER_TICK 0 (IN_replay i) ?s0))) =
       drop k (ob_list (LO_buffer s))"
    "list_all2 carries (sent (snd (lora_replay REPLAY_BURST_PER_TICK 0 (IN_replay i) ?s0)))
       (take k (ob_list (LO_buffer s)))"
    using replay_spec [OF inv, of REPLAY_BURST_PER_TICK 0 "IN_replay i"] by auto
  have "list_all2 carries (sent (snd (lora_live i
      (fst (lora_replay REPLAY_BURST_PER_TICK 0 (IN_replay i) ?s0))))) (live_list i)"
    by (rule live_sent [OF lora_inv_replay [OF inv]])
  then show ?thesis
    using k set_live_list [of i] True up
    by (intro exI [of _ k] conjI exI [of _ "live_list i"])
      (simp_all add: lora_step_mid telemetry_up case_prod_beta Let_def list_all2_appendI)
qed

end
