(* ===== verification/Lora_Start.thy ===== *)
theory Lora_Start
  imports E22_Diagnostic Lora_Task
begin

text \<open>
  The start of \<open>vTask_LoRa_UKS\<close> (\<open>src/main.cpp\<close>) as a whole: pins, UART driver, configuration of the
  radio, then the state with which the loop of \<open>Lora_Task\<close> begins. What the module answers and what
  the ESP-IDF calls return are arbitrary.
\<close>

section \<open>The sequence\<close>

record lora_boot_in =
  LB_gpio :: "esp_err \<times> esp_err"
  LB_uart :: "(esp_err \<times> esp_err \<times> esp_err) list"
  LB_e22 :: e22_env
  LB_bootMs :: u64

datatype boot_out = BootSetup setup_out | BootRadio e22_out

text \<open>\<open>Inl\<close>: the program aborts; \<open>Inr\<close>: the loop begins; \<open>None\<close>: a wait is not over yet.\<close>

definition lora_boot ::
  "(u32 \<Rightarrow> TickType_t) \<Rightarrow> lora_boot_in \<Rightarrow> ((esp_err \<times> boot_out list) + (LoraTask \<times> boot_out list)) option" where
  "lora_boot ms i =
     (case lora_gpio_setup (LB_gpio i) of
        Inl (err, os) \<Rightarrow> Some (Inl (err, map BootSetup os))
      | Inr o1 \<Rightarrow>
          (case lora_uart_start False (LB_uart i) of
             None \<Rightarrow> None
           | Some o2 \<Rightarrow>
               map_option
                 (\<lambda>o3. Inr (LoraTask_start (LB_bootMs i), map BootSetup (o1 @ o2) @ map BootRadio o3))
                 (e22_boot ms (LB_e22 i))))"

section \<open>What goes to the radio\<close>

definition radio_writes :: "e22_out list \<Rightarrow> u8 list list" where
  "radio_writes os = [bs. UartWrite bs \<leftarrow> os]"

definition radio_modes :: "e22_out list \<Rightarrow> (nat \<times> nat) list" where
  "radio_modes os = [(m0, m1). SetMode m0 m1 \<leftarrow> os]"

definition radio_prints :: "e22_out list \<Rightarrow> string list" where
  "radio_prints os = [s. E22Print s \<leftarrow> os]"

lemmas radio_views = radio_writes_def radio_modes_def radio_prints_def

lemma radio_views_simps [simp]:
  "radio_writes [] = []" "radio_modes [] = []" "radio_prints [] = []"
  "radio_writes (xs @ ys) = radio_writes xs @ radio_writes ys"
  "radio_modes (xs @ ys) = radio_modes xs @ radio_modes ys"
  "radio_prints (xs @ ys) = radio_prints xs @ radio_prints ys"
  "radio_writes (UartWrite bs # xs) = bs # radio_writes xs" "radio_modes (UartWrite bs # xs) = radio_modes xs"
  "radio_writes (UartFlush # xs) = radio_writes xs" "radio_modes (UartFlush # xs) = radio_modes xs"
  "radio_writes (E22Log l # xs) = radio_writes xs" "radio_modes (E22Log l # xs) = radio_modes xs"
  "radio_writes (SetMode a b # xs) = radio_writes xs"
  "radio_modes (SetMode a b # xs) = (a, b) # radio_modes xs"
  "radio_prints (UartWrite bs # xs) = radio_prints xs" "radio_prints (UartFlush # xs) = radio_prints xs"
  "radio_prints (E22Log l # xs) = radio_prints xs" "radio_prints (SetMode a b # xs) = radio_prints xs"
  by (simp_all add: radio_views)

lemma radio_checks [simp]:
  "radio_writes (snd (e22_check_read r)) = []" "radio_modes (snd (e22_check_read r)) = []"
  "radio_writes (e22_check_confirm r) = []" "radio_modes (e22_check_confirm r) = []"
  "radio_prints (snd (e22_check_read r)) = []" "radio_prints (e22_check_confirm r) = []"
  by (auto simp: radio_views e22_check_read_def e22_check_confirm_def split: prod.split option.split)

lemma radio_dump [simp]:
  "radio_writes (E22_logHexDump l buf n) = []" "radio_modes (E22_logHexDump l buf n) = []"
proof -
  have "radio_writes (map (\<lambda>i. E22Print (f i)) ns) = [] \<and> radio_modes (map (\<lambda>i. E22Print (f i)) ns) = []"
    for f and ns :: "nat list"
    by (induction ns) (simp_all add: radio_views)
  then show "radio_writes (E22_logHexDump l buf n) = []" "radio_modes (E22_logHexDump l buf n) = []"
    by (simp_all add: E22_logHexDump_def) (simp_all add: radio_views)
qed

lemma e22_config_views:
  assumes "e22_boot_config ms env = Some outs"
  shows "radio_modes outs = [] \<and>
    radio_writes outs \<in> {[], [e22_buildReadAllCommand 3],
      [e22_buildReadAllCommand 3, e22_buildWriteCommand E22_CONTRACT_REGS 12]}"
  using assms
  by (auto simp: e22_boot_config_def e22_boot_write_def E22_REG_BLOCK_LEN_def Let_def case_prod_beta
      split: option.splits bool.splits if_splits)

lemma e22_config_ends:
  assumes "decisive (ms LORA_AUX_MODE_TIMEOUT_MS) (EV_cfg env)"
    and "decisive (ms LORA_AUX_CFG_TIMEOUT_MS) (EV_flash env)"
  shows "\<exists>outs. e22_boot_config ms env = Some outs"
proof -
  obtain b1 b2
    where "wait_aux (ms LORA_AUX_MODE_TIMEOUT_MS) (fst (EV_cfg env)) (snd (EV_cfg env)) = Some b1"
      "wait_aux (ms LORA_AUX_CFG_TIMEOUT_MS) (fst (EV_flash env)) (snd (EV_flash env)) = Some b2"
    using assms wait_aux_ends [of "ms LORA_AUX_MODE_TIMEOUT_MS" "fst (EV_cfg env)" "snd (EV_cfg env)"]
      wait_aux_ends [of "ms LORA_AUX_CFG_TIMEOUT_MS" "fst (EV_flash env)" "snd (EV_flash env)"] by auto
  then show ?thesis
    by (cases b1) (auto simp: e22_boot_config_def e22_boot_write_def Let_def case_prod_beta)
qed

text \<open>The boot and the bench diagnosis print the same lines for the same response.\<close>

lemma same_register_lines: "radio_prints (E22_logHexDump label buf n) = diag_prints (diag_raw_dump n buf)"
proof -
  have "radio_prints (map (\<lambda>i. E22Print (f i)) ns) = map f ns" for f and ns :: "nat list"
    by (induction ns) (simp_all add: radio_views)
  moreover have "radio_prints (E22DumpTitle t # xs) = radio_prints xs" for t xs
    by (simp add: radio_views)
  ultimately show ?thesis
    by (simp add: E22_logHexDump_def E22_REG_BLOCK_LEN_def diag_reg_line_def [abs_def] not_less)
qed

section \<open>Property\<close>

text \<open>
  C17: the radio task reaches its loop whatever the module answers. If the pins can be configured,
  some round of the retry loop installs the UART, and the three waits see the AUX pin or their
  timeout, then the start ends in the initial state of the loop; the module has been put into
  configuration mode once and back into transparent mode at the end, and the only bytes it was sent
  are the read command and at most one write command, which carries the contract.
\<close>

lemma lora_boot_reaches_loop:
  assumes "LB_gpio i = (ESP_OK, ESP_OK)" "list_ex all_ok (LB_uart i)"
    and "decisive (ms LORA_AUX_MODE_TIMEOUT_MS) (EV_cfg (LB_e22 i))"
    and "decisive (ms LORA_AUX_CFG_TIMEOUT_MS) (EV_flash (LB_e22 i))"
    and "decisive (ms LORA_AUX_MODE_TIMEOUT_MS) (EV_norm (LB_e22 i))"
  shows "\<exists>setup radio. lora_boot ms i =
      Some (Inr (LoraTask_start (LB_bootMs i), map BootSetup setup @ map BootRadio radio)) \<and>
    radio_modes radio = [(0, 1), (0, 0)] \<and>
    radio_writes radio \<in> {[], [e22_buildReadAllCommand 3],
      [e22_buildReadAllCommand 3, e22_buildWriteCommand E22_CONTRACT_REGS 12]}"
proof -
  obtain o1 where o1: "lora_gpio_setup (LB_gpio i) = Inr o1"
    using assms(1) by (simp add: lora_gpio_setup_def)
  obtain o2 where o2: "lora_uart_start False (LB_uart i) = Some o2"
    using uart_start_ends [OF assms(2)] by blast
  obtain mid where mid: "e22_boot_config ms (LB_e22 i) = Some mid"
    using e22_config_ends [OF assms(3,4)] by blast
  obtain b where b: "wait_aux (ms LORA_AUX_MODE_TIMEOUT_MS) (fst (EV_norm (LB_e22 i)))
      (snd (EV_norm (LB_e22 i))) = Some b"
    using assms(5) wait_aux_ends [of "ms LORA_AUX_MODE_TIMEOUT_MS" "fst (EV_norm (LB_e22 i))"
        "snd (EV_norm (LB_e22 i))"] by auto
  let ?radio = "[SetMode 0 1, E22Log E22_ConfigMode] @ mid
    @ [SetMode 0 0, E22Log (E22_NormalMode (EV_auxLevel (LB_e22 i)))]"
  have "lora_boot ms i =
      Some (Inr (LoraTask_start (LB_bootMs i), map BootSetup (o1 @ o2) @ map BootRadio ?radio))"
    using o1 o2 mid b by (simp add: lora_boot_def e22_boot_def)
  moreover have "radio_modes ?radio = [(0, 1), (0, 0)]" "radio_writes ?radio = radio_writes mid"
    using e22_config_views [OF mid] by simp_all
  ultimately show ?thesis using e22_config_views [OF mid] by metis
qed

text \<open>A module that answers nothing, on a UART that comes up in the second round.\<close>

definition mute_module :: lora_boot_in where
  "mute_module = \<lparr>LB_gpio = (0, 0), LB_uart = [(0, 0, 257), (0, 0, 0)],
     LB_e22 = \<lparr>EV_cfg = (0, [(50, False)]), EV_read = (0, replicate 12 0), EV_flash = (0, [(200, False)]),
       EV_confirm = (0, replicate 12 0), EV_norm = (300, [(301, True)]), EV_auxLevel = True\<rparr>, LB_bootMs = 9\<rparr>"

lemma lora_boot_reaches_loop_witness:
  "\<exists>outs. lora_boot (\<lambda>ms. ms div 10) mute_module = Some (Inr (LoraTask_start 9, outs))"
  using lora_boot_reaches_loop [of mute_module "\<lambda>ms. ms div 10"]
  by (auto simp: mute_module_def decisive_def all_ok_def ESP_OK_def aks_config)

end
