(* ===== verification/HMI_Helpers.thy ===== *)
theory HMI_Helpers
  imports Aks_Prelude
begin

text \<open>
  The helpers of the driver's display (\<open>lib/HMIHelpers\<close>): texts and sentinel values, the commands
  written to the Nextion display, and the classifier that separates operator frames from the
  display's own reset messages in the received byte stream.
\<close>

section \<open>Texts\<close>

datatype HMI_VcuState = HMI_INIT | HMI_IDLE | HMI_READY | HMI_DRIVE | HMI_EMERGENCY_STOP | HMI_FAULT

fun HMI_getStateText :: "HMI_VcuState \<Rightarrow> string" where
  "HMI_getStateText HMI_INIT = ''INIT''"
| "HMI_getStateText HMI_IDLE = ''IDLE''"
| "HMI_getStateText HMI_READY = ''READY''"
| "HMI_getStateText HMI_DRIVE = ''DRIVE''"
| "HMI_getStateText HMI_EMERGENCY_STOP = ''ESTOP''"
| "HMI_getStateText HMI_FAULT = ''FAULT''"

text \<open>
  The formatters write into a buffer of the given size; the result is the text left there (\<open>None\<close>
  if the size is zero and nothing is written).
\<close>

definition put_text :: "nat \<Rightarrow> string \<Rightarrow> string option" where
  "put_text outSize s = (if outSize = 0 then None else Some (fst (snprintf outSize s)))"

definition HMI_formatErrorText :: "u8 \<Rightarrow> nat \<Rightarrow> string option" where
  "HMI_formatErrorText errorFlags outputSize = put_text outputSize (''0x'' @ fmt_02X errorFlags)"

definition HMI_getValidityText :: "bool \<Rightarrow> bool \<Rightarrow> string" where
  "HMI_getValidityText dataValid timeoutActive =
     (if timeoutActive then ''TIMEOUT'' else if dataValid then ''VALID'' else ''INVALID'')"

definition HMI_getContactorText :: "bool \<Rightarrow> string" where
  "HMI_getContactorText contactorClosed = (if contactorClosed then ''CLOSED'' else ''OPEN'')"

section \<open>Values without a verified source\<close>

definition HMI_BATTERY_NO_DATA :: u8 where [aks_config]: "HMI_BATTERY_NO_DATA = 255"
definition HMI_TEMP_NO_DATA :: i16 where [aks_config]: "HMI_TEMP_NO_DATA = - 127"
definition HMI_CELL_VOLTAGE_NO_DATA :: u16 where [aks_config]: "HMI_CELL_VOLTAGE_NO_DATA = 65535"
definition HMI_CURRENT_NO_DATA :: i16 where [aks_config]: "HMI_CURRENT_NO_DATA = 0x8000"

definition HMI_SOC_SOURCE_VERIFIED :: bool where [aks_config]: "HMI_SOC_SOURCE_VERIFIED = False"
definition HMI_TEMP_SOURCE_VERIFIED :: bool where [aks_config]: "HMI_TEMP_SOURCE_VERIFIED = False"
definition HMI_CURRENT_SOURCE_VERIFIED :: bool where
  [aks_config]: "HMI_CURRENT_SOURCE_VERIFIED = False"
definition HMI_CELL_VOLTAGE_SOURCE_VERIFIED :: bool where
  [aks_config]: "HMI_CELL_VOLTAGE_SOURCE_VERIFIED = False"

definition HMI_batteryDisplayValue :: "bool \<Rightarrow> bool \<Rightarrow> u16 \<Rightarrow> u8" where
  "HMI_batteryDisplayValue sourceVerified bmsDataValid socHundredths =
     (if \<not> sourceVerified \<or> \<not> bmsDataValid then HMI_BATTERY_NO_DATA
      else let percent = socHundredths div 100
           in if 100 < percent then 100 else ucast percent)"

definition HMI_temperatureDisplayValue :: "bool \<Rightarrow> bool \<Rightarrow> i16 \<Rightarrow> i16" where
  "HMI_temperatureDisplayValue sourceVerified bmsDataValid temperatureC =
     (if \<not> sourceVerified \<or> \<not> bmsDataValid then HMI_TEMP_NO_DATA else temperatureC)"

definition HMI_currentDisplayValue :: "bool \<Rightarrow> bool \<Rightarrow> i16 \<Rightarrow> i16" where
  "HMI_currentDisplayValue sourceVerified bmsDataValid packCurrentDeciA =
     (if \<not> sourceVerified \<or> \<not> bmsDataValid then HMI_CURRENT_NO_DATA else packCurrentDeciA)"

definition HMI_formatBatteryText :: "u8 \<Rightarrow> nat \<Rightarrow> string option" where
  "HMI_formatBatteryText batteryValue outSize = put_text outSize
     (if batteryValue = HMI_BATTERY_NO_DATA then ''--'' else fmt_u (unat batteryValue))"

definition HMI_formatTempText :: "i16 \<Rightarrow> nat \<Rightarrow> string option" where
  "HMI_formatTempText tempValue outSize = put_text outSize
     (if tempValue = HMI_TEMP_NO_DATA then ''--'' else fmt_d (sint tempValue))"

definition HMI_formatCurrentText :: "i16 \<Rightarrow> nat \<Rightarrow> string option" where
  "HMI_formatCurrentText currentDeciA outSize = put_text outSize
     (if currentDeciA = HMI_CURRENT_NO_DATA then ''--''
      else let neg = sint currentDeciA < 0;
               mag = (if neg then - sint currentDeciA else sint currentDeciA)
           in (if neg then ''-'' else '''') @ fmt_d (mag div 10) @ ''.'' @ fmt_d (mag mod 10))"

section \<open>Commands to the display\<close>

text \<open>
  One call of \<open>uart_write_bytes\<close>: the text in the buffer and the number of bytes handed over.
\<close>

type_synonym uart_write = "string \<times> nat"

definition HMI_sendEndBytes :: "uart_write list" where
  "HMI_sendEndBytes = [([CHR 0xFF, CHR 0xFF, CHR 0xFF], 3)]"

definition HMI_sendNumericIfChanged ::
  "string \<Rightarrow> i32 \<Rightarrow> i32 \<Rightarrow> bool \<Rightarrow> uart_write list" where
  "HMI_sendNumericIfChanged component val lastValue force =
     (if \<not> force \<and> val = lastValue then []
      else let (command, commandLen) = snprintf 48 (component @ ''.val='' @ fmt_d (sint val))
           in if commandLen \<le> 0 then [] else (command, commandLen) # HMI_sendEndBytes)"

definition HMI_sendTextIfChanged ::
  "string \<Rightarrow> string \<Rightarrow> string \<Rightarrow> bool \<Rightarrow> uart_write list" where
  "HMI_sendTextIfChanged component val lastValue force =
     (if \<not> force \<and> val = lastValue then []
      else let (command, commandLen) = snprintf 64 (component @ ''.txt=\"'' @ val @ ''\"'')
           in if commandLen \<le> 0 then [] else (command, commandLen) # HMI_sendEndBytes)"

section \<open>Received bytes\<close>

datatype HMI_RxEvent = RX_NONE | RX_TOUCH | RX_NEXTION_RESET

record HMI_RxState =
  HMI_touchState :: u8
  HMI_pendingCmd :: u8
  HMI_zeroRun :: u8
  HMI_ffRun :: u8

definition HMI_RxState_new :: HMI_RxState where
  "HMI_RxState_new = \<lparr>HMI_touchState = 0, HMI_pendingCmd = 0, HMI_zeroRun = 0, HMI_ffRun = 0\<rparr>"

text \<open>The start-up tracker: what it does on a \<open>0x00\<close> or \<open>0xFF\<close> byte.\<close>

definition HMI_rxTrack :: "u8 \<Rightarrow> HMI_RxState \<Rightarrow> HMI_RxState \<times> HMI_RxEvent" where
  "HMI_rxTrack b st0 =
     (let st = st0\<lparr>HMI_touchState := 0, HMI_pendingCmd := 0\<rparr>
      in if b = 0x00 then
           (if 0 < HMI_ffRun st then st\<lparr>HMI_ffRun := 0, HMI_zeroRun := 1\<rparr>
            else if HMI_zeroRun st < 3 then st\<lparr>HMI_zeroRun := HMI_zeroRun st + 1\<rparr>
            else st, RX_NONE)
         else if 3 \<le> HMI_zeroRun st then
           let st1 = st\<lparr>HMI_ffRun := HMI_ffRun st + 1\<rparr>
           in if 3 \<le> HMI_ffRun st1 then (HMI_RxState_new, RX_NEXTION_RESET) else (st1, RX_NONE)
         else (st\<lparr>HMI_ffRun := 0, HMI_zeroRun := 0\<rparr>, RX_NONE))"

text \<open>The operator frame \<open>0x5A cmd ~cmd\<close>.\<close>

definition HMI_rxTouch :: "u8 \<Rightarrow> u8 \<Rightarrow> HMI_RxState \<Rightarrow> HMI_RxState \<times> HMI_RxEvent \<times> u8" where
  "HMI_rxTouch b outCmd st =
     (if HMI_touchState st = 0 then
        (if b = 0x5A then st\<lparr>HMI_touchState := 1\<rparr> else st, RX_NONE, outCmd)
      else if HMI_touchState st = 1 then
        (st\<lparr>HMI_pendingCmd := b, HMI_touchState := 2\<rparr>, RX_NONE, outCmd)
      else if HMI_touchState st = 2 then
        let expected = NOT (HMI_pendingCmd st); st1 = st\<lparr>HMI_touchState := 0\<rparr>
        in if b = expected then (st1, RX_TOUCH, HMI_pendingCmd st1) else (st1, RX_NONE, outCmd)
      else (st\<lparr>HMI_touchState := 0\<rparr>, RX_NONE, outCmd))"

definition HMI_rxClassifyByte :: "u8 \<Rightarrow> u8 \<Rightarrow> HMI_RxState \<Rightarrow> HMI_RxState \<times> HMI_RxEvent \<times> u8" where
  "HMI_rxClassifyByte b outCmd st =
     (if b = 0x88 then (HMI_RxState_new, RX_NEXTION_RESET, outCmd)
      else if b = 0x00 \<or> b = 0xFF then
        let (st1, ev) = HMI_rxTrack b st in (st1, ev, outCmd)
      else HMI_rxTouch b outCmd (st\<lparr>HMI_zeroRun := 0, HMI_ffRun := 0\<rparr>))"

end
