(* ===== verification/Hmi_Rx.thy ===== *)
theory Hmi_Rx
  imports HMI_Helpers
begin

text \<open>
  What the byte classifier of the display reports, in terms of the bytes received so far: when it
  reports a reset of the display, and when an operator command.
\<close>

section \<open>Histories\<close>

definition rx_after :: "HMI_RxState \<Rightarrow> u8 list \<Rightarrow> HMI_RxState" where
  "rx_after st bs = fold (\<lambda>b st. fst (HMI_rxClassifyByte b 0 st)) bs st"

definition rx_run :: "u8 list \<Rightarrow> HMI_RxState" where
  "rx_run bs = rx_after HMI_RxState_new bs"

definition rx_event :: "u8 list \<Rightarrow> u8 \<Rightarrow> HMI_RxEvent \<times> u8" where
  "rx_event bs b = snd (HMI_rxClassifyByte b 0 (rx_run bs))"

lemma rx_run_Nil [simp]: "rx_run [] = HMI_RxState_new"
  by (simp add: rx_run_def rx_after_def)

lemma rx_run_snoc [simp]: "rx_run (bs @ [b]) = fst (HMI_rxClassifyByte b 0 (rx_run bs))"
  by (simp add: rx_run_def rx_after_def)

lemma rx_after_simps [simp]:
  "rx_after st [] = st" "rx_after st (b # bs) = rx_after (fst (HMI_rxClassifyByte b 0 st)) bs"
  by (simp_all add: rx_after_def)

text \<open>The three kinds of byte.\<close>

lemma classify_88 [simp]:
  "HMI_rxClassifyByte 0x88 out st = (HMI_RxState_new, RX_NEXTION_RESET, out)"
  by (simp add: HMI_rxClassifyByte_def)

lemma classify_system:
  "b = 0 \<or> b = 0xFF \<Longrightarrow> HMI_rxClassifyByte b out st =
     (fst (HMI_rxTrack b st), snd (HMI_rxTrack b st), out)"
  by (auto simp: HMI_rxClassifyByte_def split: prod.split)

lemma classify_other:
  "b \<noteq> 0x88 \<Longrightarrow> b \<noteq> 0 \<Longrightarrow> b \<noteq> 0xFF \<Longrightarrow> HMI_rxClassifyByte b out st =
     HMI_rxTouch b out (st\<lparr>HMI_zeroRun := 0, HMI_ffRun := 0\<rparr>)"
  by (simp add: HMI_rxClassifyByte_def)

lemma touch_tracker [simp]:
  "HMI_zeroRun (fst (HMI_rxTouch b out st)) = HMI_zeroRun st"
  "HMI_ffRun (fst (HMI_rxTouch b out st)) = HMI_ffRun st"
  by (simp_all add: HMI_rxTouch_def Let_def)

text \<open>The reported command does not depend on the old value of the output parameter.\<close>

lemma touch_outCmd:
  "fst (HMI_rxTouch b o1 st) = fst (HMI_rxTouch b o2 st)"
  "fst (snd (HMI_rxTouch b o1 st)) = fst (snd (HMI_rxTouch b o2 st))"
  "fst (snd (HMI_rxTouch b o1 st)) = RX_TOUCH \<Longrightarrow>
     snd (snd (HMI_rxTouch b o1 st)) = snd (snd (HMI_rxTouch b o2 st))"
  by (simp_all add: HMI_rxTouch_def Let_def split: if_splits)

lemma track_no_touch: "snd (HMI_rxTrack b st) \<noteq> RX_TOUCH"
  by (simp add: HMI_rxTrack_def Let_def)

lemma classify_outCmd:
  "fst (HMI_rxClassifyByte b o1 st) = fst (HMI_rxClassifyByte b o2 st)"
  "fst (snd (HMI_rxClassifyByte b o1 st)) = fst (snd (HMI_rxClassifyByte b o2 st))"
  "fst (snd (HMI_rxClassifyByte b o1 st)) = RX_TOUCH \<Longrightarrow>
     snd (snd (HMI_rxClassifyByte b o1 st)) = snd (snd (HMI_rxClassifyByte b o2 st))"
  using touch_outCmd [of b o1 _ o2] track_no_touch
  by (cases "b = 0x88"; cases "b = 0 \<or> b = 0xFF"; simp add: classify_system classify_other)+

section \<open>The start-up tracker\<close>

text \<open>The two counters, read off the most recent bytes (most recent first).\<close>

definition ff_of :: "u8 list \<Rightarrow> u8" where
  "ff_of r = (if take 4 r = [0xFF, 0, 0, 0] then 1
              else if take 5 r = [0xFF, 0xFF, 0, 0, 0] then 2 else 0)"

definition zero_of :: "u8 list \<Rightarrow> u8" where
  "zero_of r = (if 0 < ff_of r \<or> take 3 r = [0, 0, 0] then 3
                else if take 2 r = [0, 0] then 2 else if take 1 r = [0] then 1 else 0)"

lemma take_numerals:
  "take 1 (x # xs) = [x]" "take 2 (x # xs) = x # take 1 xs" "take 3 (x # xs) = x # take 2 xs"
  "take 4 (x # xs) = x # take 3 xs" "take 5 (x # xs) = x # take 4 xs"
  by (simp_all add: numeral_eq_Suc)

lemma take_length_eq: "take (length p) r = p \<longleftrightarrow> (\<exists>t. r = p @ t)"
  by (metis append_eq_conv_conj append_take_drop_id)

lemma take_prefix:
  "take 3 r = [a, b, c] \<longleftrightarrow> (\<exists>t. r = a # b # c # t)"
  "take 4 r = [a, b, c, d] \<longleftrightarrow> (\<exists>t. r = a # b # c # d # t)"
  "take 5 r = [a, b, c, d, e] \<longleftrightarrow> (\<exists>t. r = a # b # c # d # e # t)"
  "take 6 r = [a, b, c, d, e, f] \<longleftrightarrow> (\<exists>t. r = a # b # c # d # e # f # t)"
  using take_length_eq [of "[a, b, c]" r] take_length_eq [of "[a, b, c, d]" r]
    take_length_eq [of "[a, b, c, d, e]" r] take_length_eq [of "[a, b, c, d, e, f]" r]
  by (simp_all add: numeral_eq_Suc)

lemma not_3_le_1: "\<not> (3 :: u8) \<le> 1"
  by (simp add: word_le_nat_alt)

text \<open>The counters after a further byte.\<close>

lemma counters_zero:
  "ff_of (0 # r) = 0"
  "zero_of (0 # r) = (if 0 < ff_of r then 1 else if zero_of r < 3 then zero_of r + 1 else zero_of r)"
  by (auto simp: ff_of_def zero_of_def take_numerals take_prefix)

lemma counters_ff:
  "ff_of (0xFF # r) = (if 3 \<le> zero_of r then (if ff_of r = 2 then 0 else ff_of r + 1) else 0)"
  "zero_of (0xFF # r) = (if 3 \<le> zero_of r \<and> ff_of r \<noteq> 2 then 3 else 0)"
  by (auto simp: ff_of_def zero_of_def take_numerals take_prefix not_3_le_1)

lemma counters_other: "b \<noteq> 0 \<Longrightarrow> b \<noteq> 0xFF \<Longrightarrow> ff_of (b # r) = 0 \<and> zero_of (b # r) = 0"
  by (simp add: ff_of_def zero_of_def take_numerals)

lemma zero_of_max: "3 \<le> zero_of r \<Longrightarrow> zero_of r = 3"
  by (auto simp: zero_of_def word_le_nat_alt split: if_splits)

lemma tracker_state:
  "HMI_zeroRun (rx_run bs) = zero_of (rev bs) \<and> HMI_ffRun (rx_run bs) = ff_of (rev bs)"
proof (induction bs rule: rev_induct)
  case Nil
  show ?case by (simp add: zero_of_def ff_of_def HMI_RxState_new_def)
next
  case (snoc b bs)
  have range: "ff_of r = 0 \<or> ff_of r = 1 \<or> ff_of r = 2" for r by (simp add: ff_of_def)
  consider "b = 0x88" | "b = 0" | "b = 0xFF" | "b \<noteq> 0x88" "b \<noteq> 0" "b \<noteq> 0xFF" by blast
  then show ?case
  proof cases
    case 1
    then show ?thesis by (simp add: counters_other HMI_RxState_new_def)
  next
    case 2
    then show ?thesis
      using snoc by (simp add: classify_system counters_zero HMI_rxTrack_def Let_def word_gt_0)
  next
    case 3
    then show ?thesis
      using snoc range [of "rev bs"] not_3_le_1
      by (auto simp: zero_of_max classify_system counters_ff HMI_rxTrack_def HMI_RxState_new_def Let_def)
  next
    case 4
    then show ?thesis by (simp add: classify_other counters_other)
  qed
qed

section \<open>Resets\<close>

lemma suffix_rev: "(\<exists>pre. bs = pre @ q) \<longleftrightarrow> (\<exists>t. rev bs = rev q @ t)"
  by (metis rev_append rev_rev_ident)

text \<open>
  The classifier reports a reset of the display exactly when the byte just received is
  \<open>0x88\<close> or completes the start-up sequence \<open>00 00 00 FF FF FF\<close>, whatever was received before.
\<close>

lemma reset_reported_exactly:
  "fst (rx_event bs b) = RX_NEXTION_RESET \<longleftrightarrow>
     b = 0x88 \<or> (\<exists>pre. bs @ [b] = pre @ [0, 0, 0, 0xFF, 0xFF, 0xFF])"
proof -
  have touch: "fst (snd (HMI_rxTouch b out st)) \<noteq> RX_NEXTION_RESET" for out st
    by (simp add: HMI_rxTouch_def Let_def)
  have track: "snd (HMI_rxTrack b (rx_run bs)) = RX_NEXTION_RESET \<longleftrightarrow>
      b \<noteq> 0 \<and> 3 \<le> zero_of (rev bs) \<and> 3 \<le> ff_of (rev bs) + 1"
    by (simp add: HMI_rxTrack_def Let_def tracker_state)
  have ff: "3 \<le> zero_of r \<and> 3 \<le> ff_of r + 1 \<longleftrightarrow> (\<exists>t. r = [0xFF, 0xFF, 0, 0, 0] @ t)" for r
    using not_3_le_1 by (auto simp: ff_of_def zero_of_def take_prefix word_le_nat_alt)
  have "(\<exists>pre. bs @ [b] = pre @ [0, 0, 0, 0xFF, 0xFF, 0xFF]) \<longleftrightarrow>
      (\<exists>pre. bs @ [b] = (pre @ [0, 0, 0, 0xFF, 0xFF]) @ [0xFF])" by simp
  also have "\<dots> \<longleftrightarrow> b = 0xFF \<and> (\<exists>pre. bs = pre @ [0, 0, 0, 0xFF, 0xFF])"
    unfolding append1_eq_conv by blast
  also have "(\<exists>pre. bs = pre @ [0, 0, 0, 0xFF, 0xFF]) \<longleftrightarrow>
      (\<exists>t. rev bs = [0xFF, 0xFF, 0, 0, 0] @ t)"
    using suffix_rev [of bs "[0, 0, 0, 0xFF, 0xFF]"] by simp
  finally have suffix: "(\<exists>pre. bs @ [b] = pre @ [0, 0, 0, 0xFF, 0xFF, 0xFF]) \<longleftrightarrow>
      b = 0xFF \<and> (\<exists>t. rev bs = [0xFF, 0xFF, 0, 0, 0] @ t)" .
  show ?thesis
    unfolding rx_event_def suffix
    using touch track ff [of "rev bs"]
    by (cases "b = 0x88"; cases "b = 0 \<or> b = 0xFF") (auto simp: classify_system classify_other)
qed

section \<open>Operator commands\<close>

text \<open>Where a frame is being read: the most recent bytes (most recent first).\<close>

definition frame_ok :: "HMI_RxState \<Rightarrow> u8 list \<Rightarrow> bool" where
  "frame_ok st r \<longleftrightarrow>
     HMI_touchState st = 0 \<or>
     HMI_touchState st = 1 \<and> take 1 r = [0x5A] \<or>
     HMI_touchState st = 2 \<and> take 2 r = [HMI_pendingCmd st, 0x5A] \<and>
       HMI_pendingCmd st \<notin> {0, 0xFF, 0x88}"

lemma frame_state: "frame_ok (rx_run bs) (rev bs)"
proof (induction bs rule: rev_induct)
  case (snoc b bs)
  then show ?case
    by (cases "b = 0x88"; cases "b = 0 \<or> b = 0xFF")
      (auto simp: frame_ok_def classify_system classify_other HMI_rxTrack_def HMI_rxTouch_def
        HMI_RxState_new_def Let_def take_numerals)
qed (simp add: frame_ok_def HMI_RxState_new_def)

lemma touch_ends_frame:
  "fst (rx_event bs b) = RX_TOUCH \<Longrightarrow>
   \<exists>pre. bs @ [b] = pre @ [0x5A, snd (rx_event bs b), NOT (snd (rx_event bs b))]"
proof -
  assume "fst (rx_event bs b) = RX_TOUCH"
  then have b: "b \<noteq> 0x88" "b \<noteq> 0" "b \<noteq> 0xFF"
    using track_no_touch by (auto simp: rx_event_def classify_system)
  with \<open>fst (rx_event bs b) = RX_TOUCH\<close>
  have st: "HMI_touchState (rx_run bs) = 2" "b = NOT (HMI_pendingCmd (rx_run bs))"
    "snd (rx_event bs b) = HMI_pendingCmd (rx_run bs)"
    by (simp_all add: rx_event_def classify_other HMI_rxTouch_def Let_def split: if_splits)
  then have "take 2 (rev bs) = [HMI_pendingCmd (rx_run bs), 0x5A]"
    using frame_state [of bs] by (auto simp: frame_ok_def)
  then have "\<exists>t. rev bs = rev [0x5A, HMI_pendingCmd (rx_run bs)] @ t"
    using take_length_eq [of "[HMI_pendingCmd (rx_run bs), 0x5A]" "rev bs"]
    by (simp add: numeral_eq_Suc)
  then have "\<exists>pre. bs = pre @ [0x5A, HMI_pendingCmd (rx_run bs)]"
    unfolding suffix_rev .
  with st show ?thesis by auto
qed

text \<open>The events of further bytes.\<close>

fun rx_events :: "HMI_RxState \<Rightarrow> u8 list \<Rightarrow> (HMI_RxEvent \<times> u8) list" where
  "rx_events st [] = []"
| "rx_events st (b # bs) =
     snd (HMI_rxClassifyByte b 0 st) # rx_events (fst (HMI_rxClassifyByte b 0 st)) bs"

definition touch_frame :: "u8 \<Rightarrow> u8 list" where
  "touch_frame c = [0x5A, c, NOT c]"

definition HMI_CMD_START :: u8 where "HMI_CMD_START = 1"
definition HMI_CMD_RESET :: u8 where "HMI_CMD_RESET = 2"
definition HMI_CMD_EMERGENCY_STOP :: u8 where "HMI_CMD_EMERGENCY_STOP = 3"
definition HMI_CMD_DRIVE_ENABLE :: u8 where "HMI_CMD_DRIVE_ENABLE = 4"

lemmas HMI_CMD_defs = HMI_CMD_START_def HMI_CMD_RESET_def HMI_CMD_EMERGENCY_STOP_def
  HMI_CMD_DRIVE_ENABLE_def

definition HMI_commands :: "u8 list" where
  "HMI_commands = [HMI_CMD_START, HMI_CMD_RESET, HMI_CMD_EMERGENCY_STOP, HMI_CMD_DRIVE_ENABLE]"

lemma touch_values: "HMI_touchState (rx_run bs) \<in> {0, 1, 2}"
  using frame_state [of bs] by (auto simp: frame_ok_def)

lemma rx_events_append:
  "rx_events st (as @ bs) = rx_events st as @ rx_events (rx_after st as) bs"
  by (induction as arbitrary: st) simp_all

text \<open>A byte that neither starts a frame nor belongs to the display's own messages.\<close>

definition plain_byte :: "u8 \<Rightarrow> bool" where
  "plain_byte b \<longleftrightarrow> b \<noteq> 0 \<and> b \<noteq> 0xFF \<and> b \<noteq> 0x88 \<and> b \<noteq> 0x5A"

lemma frame_from_idle:
  assumes "HMI_touchState st = 0" "plain_byte c" "plain_byte (NOT c)"
  shows "rx_events st (touch_frame c) = [(RX_NONE, 0), (RX_NONE, 0), (RX_TOUCH, c)]"
    "HMI_touchState (rx_after st (touch_frame c)) = 0"
  using assms by (simp_all add: plain_byte_def touch_frame_def classify_other HMI_rxTouch_def)

lemma frame_from_start:
  assumes "HMI_touchState st = 1" "plain_byte c" "plain_byte (NOT c)"
  shows "HMI_touchState (rx_after st (touch_frame c)) = 0"
  using assms
  by (cases "c = NOT 0x5A") (simp_all add: plain_byte_def touch_frame_def classify_other HMI_rxTouch_def Let_def)

lemma frame_from_command:
  assumes "HMI_touchState st = 2" "plain_byte c" "plain_byte (NOT c)"
  shows "HMI_touchState (rx_after st (touch_frame c)) = 0"
  using assms bit.compl_eq_compl_iff [of c "HMI_pendingCmd st"]
  by (cases "0x5A = NOT (HMI_pendingCmd st)")
    (auto simp del: bit.compl_eq_compl_iff simp: plain_byte_def touch_frame_def classify_other HMI_rxTouch_def Let_def)

lemma HMI_commands_plain: "c \<in> set HMI_commands \<Longrightarrow> plain_byte c \<and> plain_byte (NOT c)"
  by (auto simp: HMI_commands_def HMI_CMD_defs plain_byte_def)

lemma frame_events:
  assumes "HMI_touchState st \<in> {0, 1, 2}" "c \<in> set HMI_commands"
  shows "(RX_TOUCH, c) \<in> set (rx_events st (touch_frame c @ touch_frame c))"
proof -
  have "HMI_touchState (rx_after st (touch_frame c)) = 0"
    using assms HMI_commands_plain frame_from_idle frame_from_start frame_from_command by blast
  then show ?thesis
    using HMI_commands_plain [OF assms(2)] by (simp add: rx_events_append frame_from_idle)
qed

text \<open>
  A reported operator command was received as a complete frame with its complement, and an
  operator who sends a command twice is heard, whatever was received before: a stray start byte can
  swallow only one frame.
\<close>

lemma operator_frames:
  assumes "c \<in> set HMI_commands"
  shows "(fst (rx_event bs b) = RX_TOUCH \<longrightarrow>
      (\<exists>pre. bs @ [b] = pre @ touch_frame (snd (rx_event bs b)))) \<and>
    (RX_TOUCH, c) \<in> set (rx_events (rx_run bs) (touch_frame c @ touch_frame c))"
  using touch_ends_frame [of bs b] frame_events [OF touch_values assms]
  by (simp add: touch_frame_def)

lemma operator_frames_witness:
  "(RX_TOUCH, HMI_CMD_EMERGENCY_STOP) \<in> set (rx_events (rx_run [0x5A])
     (touch_frame HMI_CMD_EMERGENCY_STOP @ touch_frame HMI_CMD_EMERGENCY_STOP))"
  using operator_frames [of HMI_CMD_EMERGENCY_STOP "[0x5A]"] by (simp add: HMI_commands_def)

end
