(* ===== verification/Display_Hmi.thy ===== *)
theory Display_Hmi
  imports Hmi_Rx
begin

text \<open>
  The display driver (\<open>lib/DisplayHMI\<close>): the cached screen refresh and the scan for operator
  commands. What the UART delivers is an input of the operations and what they write their output.
  The display itself is not part of the repository: \<open>nextion\<close> reads the written bytes as its
  command syntax has them (\<open>attribute=value\<close>, ended by three \<open>0xFF\<close>).
\<close>

section \<open>State\<close>

record HMI_DisplayData =
  HMI_currentSpeed :: u16
  HMI_currentBattery :: u8
  HMI_bmsTemperatureC :: i16
  HMI_bmsPackVoltageDeciV :: u16
  HMI_packCurrentDeciA :: i16
  HMI_motorRpm :: u16
  HMI_motorTorqueFeedback :: i16
  HMI_motorErrorFlags :: u8
  HMI_motorDataValid :: bool
  HMI_motorTimeoutActive :: bool
  HMI_contactorClosed :: bool
  HMI_vcuState :: HMI_VcuState

definition HMI_DisplayData_zero :: HMI_DisplayData where
  "HMI_DisplayData_zero = \<lparr>HMI_currentSpeed = 0, HMI_currentBattery = 0, HMI_bmsTemperatureC = 0,
     HMI_bmsPackVoltageDeciV = 0, HMI_packCurrentDeciA = 0, HMI_motorRpm = 0,
     HMI_motorTorqueFeedback = 0, HMI_motorErrorFlags = 0, HMI_motorDataValid = False,
     HMI_motorTimeoutActive = False, HMI_contactorClosed = False, HMI_vcuState = HMI_INIT\<rparr>"

record DisplayHMI =
  HMI_isInitialized :: bool
  HMI_hasCachedScreen :: bool
  HMI_lastScreenData :: HMI_DisplayData
  HMI_rxState :: HMI_RxState
  HMI_nextionResetPending :: bool

definition DisplayHMI_new :: DisplayHMI where
  "DisplayHMI_new = \<lparr>HMI_isInitialized = False, HMI_hasCachedScreen = False,
     HMI_lastScreenData = HMI_DisplayData_zero, HMI_rxState = HMI_RxState_new,
     HMI_nextionResetPending = False\<rparr>"

section \<open>Start-up\<close>

text \<open>The receive buffer is read in chunks of 32 bytes until it is empty.\<close>

function HMI_drainRxBuffer :: "u8 list \<Rightarrow> u8 list" where
  "HMI_drainRxBuffer rx = (if rx = [] then rx else HMI_drainRxBuffer (drop 32 rx))"
  by pat_completeness auto
termination by (relation "measure length") auto

declare HMI_drainRxBuffer.simps [simp del]

lemma drain_empty [simp]: "HMI_drainRxBuffer rx = []"
  by (induction rx rule: HMI_drainRxBuffer.induct) (subst HMI_drainRxBuffer.simps, simp)

text \<open>
  The three driver calls succeed or not; \<open>rx1\<close> is pending at the first drain and \<open>rx2\<close> arrives
  before the second. The result: success, state, writes and what is left in the receive buffer.
\<close>

definition DisplayHMI_begin ::
  "bool \<times> bool \<times> bool \<Rightarrow> u8 list \<Rightarrow> u8 list \<Rightarrow> DisplayHMI \<Rightarrow>
   bool \<times> DisplayHMI \<times> uart_write list \<times> u8 list" where
  "DisplayHMI_begin oks rx1 rx2 st =
     (case oks of (param_ok, pin_ok, install_ok) \<Rightarrow>
        if HMI_isInitialized st then (True, st, [], rx1 @ rx2)
        else if \<not> param_ok then (False, st, [], rx1 @ rx2)
        else if \<not> pin_ok then (False, st, [], rx1 @ rx2)
        else if \<not> install_ok then (False, st, [], rx1 @ rx2)
        else
          (True,
           st\<lparr>HMI_isInitialized := True, HMI_hasCachedScreen := False,
              HMI_rxState := HMI_RxState_new, HMI_nextionResetPending := False\<rparr>,
           (''bkcmd=0'', 7) # HMI_sendEndBytes,
           HMI_drainRxBuffer (HMI_drainRxBuffer rx1 @ rx2)))"

section \<open>The screen refresh\<close>

text \<open>The text a formatter leaves in a local buffer of this size.\<close>

definition local_text :: "(nat \<Rightarrow> string option) \<Rightarrow> nat \<Rightarrow> string" where
  "local_text fmt bufSize = (case fmt bufSize of Some s \<Rightarrow> s | None \<Rightarrow> [])"

definition updateScreen :: "HMI_DisplayData \<Rightarrow> DisplayHMI \<Rightarrow> DisplayHMI \<times> uart_write list" where
  "updateScreen d st =
     (if \<not> HMI_isInitialized st then (st, [])
      else
        let forceRefresh = (\<not> HMI_hasCachedScreen st);
            l = HMI_lastScreenData st;
            errText = (\<lambda>x. local_text (HMI_formatErrorText (HMI_motorErrorFlags x)) 16);
            batText = (\<lambda>x. local_text (HMI_formatBatteryText (HMI_currentBattery x)) 8);
            tempText = (\<lambda>x. local_text (HMI_formatTempText (HMI_bmsTemperatureC x)) 8);
            currText = (\<lambda>x. local_text (HMI_formatCurrentText (HMI_packCurrentDeciA x)) 10);
            writes =
              HMI_sendNumericIfChanged ''speed'' (ucast (HMI_currentSpeed d))
                (ucast (HMI_currentSpeed l)) forceRefresh @
              HMI_sendTextIfChanged ''bat'' (batText d) (batText l) forceRefresh @
              HMI_sendNumericIfChanged ''rpm'' (ucast (HMI_motorRpm d)) (ucast (HMI_motorRpm l))
                forceRefresh @
              HMI_sendNumericIfChanged ''torque'' (scast (HMI_motorTorqueFeedback d))
                (scast (HMI_motorTorqueFeedback l)) forceRefresh @
              HMI_sendTextIfChanged ''temp'' (tempText d) (tempText l) forceRefresh @
              HMI_sendNumericIfChanged ''packv'' (ucast (HMI_bmsPackVoltageDeciV d))
                (ucast (HMI_bmsPackVoltageDeciV l)) forceRefresh @
              HMI_sendTextIfChanged ''packi'' (currText d) (currText l) forceRefresh @
              HMI_sendTextIfChanged ''state'' (HMI_getStateText (HMI_vcuState d))
                (HMI_getStateText (HMI_vcuState l)) forceRefresh @
              HMI_sendTextIfChanged ''motorErr'' (errText d) (errText l) forceRefresh @
              HMI_sendTextIfChanged ''valid''
                (HMI_getValidityText (HMI_motorDataValid d) (HMI_motorTimeoutActive d))
                (HMI_getValidityText (HMI_motorDataValid l) (HMI_motorTimeoutActive l))
                forceRefresh @
              HMI_sendTextIfChanged ''contactor'' (HMI_getContactorText (HMI_contactorClosed d))
                (HMI_getContactorText (HMI_contactorClosed l)) forceRefresh
        in (st\<lparr>HMI_lastScreenData := d, HMI_hasCachedScreen := True\<rparr>, writes))"

section \<open>Operator commands\<close>

text \<open>
  The scan over the bytes of one call: whether a command has been found, the command parameter and
  the driver.
\<close>

fun touch_scan :: "u8 list \<Rightarrow> bool \<Rightarrow> u8 \<Rightarrow> DisplayHMI \<Rightarrow> bool \<times> u8 \<times> DisplayHMI" where
  "touch_scan [] got command st = (got, command, st)"
| "touch_scan (b # bs) got command st =
     (let (rx, ev, cmd) = HMI_rxClassifyByte b 0 (HMI_rxState st);
          st1 = st\<lparr>HMI_rxState := rx\<rparr>
      in if ev = RX_NEXTION_RESET then
           touch_scan bs got command
             (st1\<lparr>HMI_hasCachedScreen := False, HMI_nextionResetPending := True\<rparr>)
         else if ev = RX_TOUCH \<and> \<not> got then touch_scan bs True cmd st1
         else touch_scan bs got command st1)"

definition readTouchCommand :: "u8 list \<Rightarrow> u8 \<Rightarrow> DisplayHMI \<Rightarrow> bool \<times> u8 \<times> DisplayHMI" where
  "readTouchCommand rx command st =
     (if \<not> HMI_isInitialized st then (False, command, st)
      else if rx = [] then (False, command, st)
      else touch_scan rx False command st)"

definition takeNextionResetFlag :: "DisplayHMI \<Rightarrow> bool \<times> DisplayHMI" where
  "takeNextionResetFlag st = (HMI_nextionResetPending st, st\<lparr>HMI_nextionResetPending := False\<rparr>)"

end
