(* ===== verification/Display_Screen.thy ===== *)
theory Display_Screen
  imports Display_Hmi
begin

text \<open>
  What the driver's display shows after a refresh: the bytes written are read by \<open>nextion\<close>, and the
  refresh, which writes only what changed, leaves the display with all of the new data.
\<close>

section \<open>The display\<close>

type_synonym screen = "string \<rightharpoonup> string"

definition wire :: "uart_write list \<Rightarrow> string" where
  "wire ws = concat (map (\<lambda>(s, n). take n s) ws)"

fun nextion_cmds :: "string \<Rightarrow> string \<Rightarrow> string list" where
  "nextion_cmds acc (c1 # c2 # c3 # cs) =
     (if c1 = CHR 0xFF \<and> c2 = CHR 0xFF \<and> c3 = CHR 0xFF then rev acc # nextion_cmds [] cs
      else nextion_cmds (c1 # acc) (c2 # c3 # cs))"
| "nextion_cmds acc cs = []"

definition nextion_exec :: "string \<Rightarrow> screen \<Rightarrow> screen" where
  "nextion_exec cmd scr =
     scr(takeWhile (\<lambda>c. c \<noteq> CHR ''='') cmd \<mapsto> drop 1 (dropWhile (\<lambda>c. c \<noteq> CHR ''='') cmd))"

definition nextion :: "string \<Rightarrow> screen \<Rightarrow> screen" where
  "nextion bytes scr = fold nextion_exec (nextion_cmds [] bytes) scr"

lemma nextion_cmds_body:
  "CHR 0xFF \<notin> set cmd \<Longrightarrow> nextion_cmds acc (cmd @ CHR 0xFF # CHR 0xFF # CHR 0xFF # cs) =
     (rev acc @ cmd) # nextion_cmds [] cs"
proof (induction cmd arbitrary: acc)
  case (Cons c cmd)
  then have "nextion_cmds acc ((c # cmd) @ CHR 0xFF # CHR 0xFF # CHR 0xFF # cs) =
      nextion_cmds (c # acc) (cmd @ CHR 0xFF # CHR 0xFF # CHR 0xFF # cs)"
    by (cases cmd; cases "tl cmd") auto
  with Cons show ?case by simp
qed simp

lemma nextion_Nil [simp]: "nextion [] scr = scr"
  by (simp add: nextion_def)

lemma wire_simps [simp]: "wire [] = []" "wire (w # ws) = take (snd w) (fst w) @ wire ws"
  "wire (as @ bs) = wire as @ wire bs"
  by (simp_all add: wire_def case_prod_beta)

lemma nextion_command:
  assumes "CHR 0xFF \<notin> set (k @ v)" "CHR ''='' \<notin> set k"
  shows "nextion ((k @ CHR ''='' # v) @ CHR 0xFF # CHR 0xFF # CHR 0xFF # cs) scr =
    nextion cs (scr(k \<mapsto> v))"
proof -
  have "takeWhile (\<lambda>c. c \<noteq> CHR ''='') (k @ CHR ''='' # v) = k"
    "dropWhile (\<lambda>c. c \<noteq> CHR ''='') (k @ CHR ''='' # v) = CHR ''='' # v"
    using assms(2) by (induction k) auto
  then have "nextion_exec (k @ CHR ''='' # v) scr = scr(k \<mapsto> v)"
    by (simp add: nextion_exec_def)
  moreover have "nextion_cmds [] ((k @ CHR ''='' # v) @ CHR 0xFF # CHR 0xFF # CHR 0xFF # cs) =
      (k @ CHR ''='' # v) # nextion_cmds [] cs"
    using nextion_cmds_body [of "k @ CHR ''='' # v" "[]" cs] assms(1) by simp
  ultimately show ?thesis by (simp add: nextion_def)
qed

section \<open>The effect of one send\<close>

text \<open>An attribute that is written only under a condition.\<close>

definition put_if :: "bool \<Rightarrow> string \<Rightarrow> string \<Rightarrow> screen \<Rightarrow> screen" where
  "put_if c k v scr = (if c then scr(k \<mapsto> v) else scr)"

lemma put_if_apply: "put_if c k v scr k' = (if k' = k \<and> c then Some v else scr k')"
  by (simp add: put_if_def)

text \<open>Component names and values that the commands can carry.\<close>

definition sendable :: "nat \<Rightarrow> string \<Rightarrow> bool" where
  "sendable n s \<longleftrightarrow> length s \<le> n \<and> CHR 0xFF \<notin> set s"

definition component_ok :: "string \<Rightarrow> bool" where
  "component_ok s \<longleftrightarrow> length s \<le> 9 \<and> CHR 0xFF \<notin> set s \<and> CHR ''='' \<notin> set s"

definition in_bounds :: "uart_write list \<Rightarrow> bool" where
  "in_bounds ws \<longleftrightarrow> list_all (\<lambda>(s, n). n = length s) ws"

lemma in_bounds_simps [simp]:
  "in_bounds []" "in_bounds (as @ bs) \<longleftrightarrow> in_bounds as \<and> in_bounds bs"
  by (simp_all add: in_bounds_def)

lemma fmt_d_no_ff: "CHR 0xFF \<notin> set (fmt_d i)"
  using set_fmt_d [of "CHR 0xFF" i] by (auto simp: is_digit_def)

lemma fmt_d_i32_length: "length (fmt_d (sint (x :: i32))) \<le> 11"
  using length_fmt_d [of "sint x" 9] sint_32_bounds [of x] by simp

lemma send_numeric:
  assumes "component_ok cn"
  shows "nextion (wire (HMI_sendNumericIfChanged cn v prev force) @ cs) scr =
      nextion cs (put_if (force \<or> v \<noteq> prev) (cn @ ''.val'') (fmt_d (sint v)) scr)"
    "in_bounds (HMI_sendNumericIfChanged cn v prev force)"
proof -
  have "snprintf 48 (cn @ ''.val='' @ fmt_d (sint v)) =
      (cn @ ''.val='' @ fmt_d (sint v), length (cn @ ''.val='' @ fmt_d (sint v)))"
    using assms fmt_d_i32_length [of v] by (intro snprintf_fits) (simp add: component_ok_def)
  then have eq: "HMI_sendNumericIfChanged cn v prev force = (if \<not> force \<and> v = prev then []
      else (cn @ ''.val='' @ fmt_d (sint v), length (cn @ ''.val='' @ fmt_d (sint v)))
             # HMI_sendEndBytes)"
    by (simp add: HMI_sendNumericIfChanged_def)
  show "nextion (wire (HMI_sendNumericIfChanged cn v prev force) @ cs) scr =
      nextion cs (put_if (force \<or> v \<noteq> prev) (cn @ ''.val'') (fmt_d (sint v)) scr)"
    using nextion_command [of "cn @ ''.val''" "fmt_d (sint v)" cs scr] assms fmt_d_no_ff
    by (auto simp: eq put_if_def HMI_sendEndBytes_def component_ok_def)
  show "in_bounds (HMI_sendNumericIfChanged cn v prev force)"
    by (simp add: eq in_bounds_def HMI_sendEndBytes_def)
qed

definition quoted :: "string \<Rightarrow> string" where
  "quoted s = ''\"'' @ s @ ''\"''"

lemma send_text:
  assumes "component_ok cn" "sendable 15 v"
  shows "nextion (wire (HMI_sendTextIfChanged cn v prev force) @ cs) scr =
      nextion cs (put_if (force \<or> v \<noteq> prev) (cn @ ''.txt'') (quoted v) scr)"
    "in_bounds (HMI_sendTextIfChanged cn v prev force)"
proof -
  let ?cmd = "cn @ ''.txt=\"'' @ v @ ''\"''"
  have "snprintf 64 ?cmd = (?cmd, length ?cmd)"
    using assms by (intro snprintf_fits) (simp add: component_ok_def sendable_def)
  then have eq: "HMI_sendTextIfChanged cn v prev force =
      (if \<not> force \<and> v = prev then [] else (?cmd, length ?cmd) # HMI_sendEndBytes)"
    by (simp add: HMI_sendTextIfChanged_def)
  show "nextion (wire (HMI_sendTextIfChanged cn v prev force) @ cs) scr =
      nextion cs (put_if (force \<or> v \<noteq> prev) (cn @ ''.txt'') (quoted v) scr)"
    using nextion_command [of "cn @ ''.txt''" "quoted v" cs scr] assms
    by (auto simp: eq put_if_def quoted_def HMI_sendEndBytes_def component_ok_def sendable_def)
  show "in_bounds (HMI_sendTextIfChanged cn v prev force)"
    by (simp add: eq in_bounds_def HMI_sendEndBytes_def)
qed

section \<open>The formatted texts\<close>

lemma local_text_put: "length s < n \<Longrightarrow> local_text (\<lambda>n. put_text n s) n = s"
  by (simp add: local_text_def put_text_def snprintf_def)

lemma sint_ucast_16_32 [simp]: "sint (ucast (w :: u16) :: i32) = uint w"
proof -
  have "uint w < 65536" using unsigned_less [of w, where ?'a = int] by simp
  moreover have "- (2 ^ 31) \<le> uint w"
    by (rule order_trans [OF _ unsigned_greater_eq]) simp
  ultimately show ?thesis
    by (simp add: sint_uint unsigned_ucast_eq signed_take_bit_int_eq_self take_bit_int_eq_self)
qed

lemma sint_scast_16_32 [simp]: "sint (scast (w :: i16) :: i32) = sint w"
  using sint_16_bounds [of w] by (simp add: signed_scast_eq signed_take_bit_int_eq_self)

text \<open>What the driver is meant to see for a value, sentinels included.\<close>

definition battery_text :: "u8 \<Rightarrow> string" where
  "battery_text v = (if v = 255 then ''--'' else fmt_d (uint v))"

definition temp_text :: "i16 \<Rightarrow> string" where
  "temp_text v = (if sint v = - 127 then ''--'' else fmt_d (sint v))"

definition current_text :: "i16 \<Rightarrow> string" where
  "current_text v = (if sint v = - 32768 then ''--''
     else (if sint v < 0 then ''-'' else []) @
       fmt_d (\<bar>sint v\<bar> div 10) @ ''.'' @ fmt_d (\<bar>sint v\<bar> mod 10))"

lemma fmt_d_uint: "fmt_d (uint v) = fmt_u (unat v)"
  by (simp add: fmt_d_def fmt_u_def nat_uint_eq)

lemma fmt_d_i16_length: "length (fmt_d (sint (x :: i16))) \<le> 6"
  using length_fmt_d [of "sint x" 4] sint_16_bounds [of x] by simp

lemma fmt_u_u8_length: "length (fmt_u (unat (x :: u8))) \<le> 3"
  using length_fmt_u [of "unat x" 2] unat_8_less [of x] by simp

lemma length_fmt_d_pos: "0 \<le> i \<Longrightarrow> i < 10 ^ Suc k \<Longrightarrow> length (fmt_d i) \<le> Suc k"
  by (simp add: fmt_d_def length_dec_digits nat_less_iff)

lemma battery_text_ok:
  "local_text (HMI_formatBatteryText v) 8 = battery_text v" "sendable 15 (battery_text v)"
proof -
  have eq: "HMI_formatBatteryText v = (\<lambda>n. put_text n (battery_text v))"
    by (simp add: HMI_formatBatteryText_def battery_text_def aks_config fmt_d_uint fun_eq_iff)
  have "length (battery_text v) \<le> 3"
    using fmt_u_u8_length [of v] by (simp add: battery_text_def fmt_d_uint)
  then show "local_text (HMI_formatBatteryText v) 8 = battery_text v" "sendable 15 (battery_text v)"
    using fmt_d_no_ff [of "uint v"] by (auto simp: eq local_text_put sendable_def battery_text_def)
qed

lemma no_data_values:
  "v = HMI_TEMP_NO_DATA \<longleftrightarrow> sint v = - 127" "v = HMI_CURRENT_NO_DATA \<longleftrightarrow> sint v = - 32768"
proof -
  have "sint HMI_TEMP_NO_DATA = - 127" "sint HMI_CURRENT_NO_DATA = - 32768"
    by (simp_all add: aks_config)
  then show "v = HMI_TEMP_NO_DATA \<longleftrightarrow> sint v = - 127" "v = HMI_CURRENT_NO_DATA \<longleftrightarrow> sint v = - 32768"
    by (metis word_eq_iff_signed)+
qed

lemma temp_text_ok:
  "local_text (HMI_formatTempText v) 8 = temp_text v" "sendable 15 (temp_text v)"
proof -
  have eq: "HMI_formatTempText v = (\<lambda>n. put_text n (temp_text v))"
    by (simp add: HMI_formatTempText_def temp_text_def no_data_values fun_eq_iff)
  have "length (temp_text v) \<le> 6"
    using fmt_d_i16_length [of v] by (simp add: temp_text_def)
  then show "local_text (HMI_formatTempText v) 8 = temp_text v" "sendable 15 (temp_text v)"
    using fmt_d_no_ff [of "sint v"] by (auto simp: eq local_text_put sendable_def temp_text_def)
qed

lemma current_text_length: "length (current_text v) \<le> 7"
proof -
  have "\<bar>sint v\<bar> \<le> 32768" using sint_16_bounds [of v] by linarith
  then have "\<bar>sint v\<bar> div 10 < 10 ^ Suc 3" "\<bar>sint v\<bar> mod 10 < 10 ^ Suc 0" by simp_all
  then have "length (fmt_d (\<bar>sint v\<bar> div 10)) \<le> Suc 3" "length (fmt_d (\<bar>sint v\<bar> mod 10)) \<le> Suc 0"
    by (intro length_fmt_d_pos; simp)+
  then show ?thesis by (cases "sint v < 0") (auto simp: current_text_def)
qed

lemma current_text_ok:
  "local_text (HMI_formatCurrentText v) 10 = current_text v" "sendable 15 (current_text v)"
proof -
  have eq: "HMI_formatCurrentText v = (\<lambda>n. put_text n (current_text v))"
    by (simp add: HMI_formatCurrentText_def current_text_def no_data_values Let_def fun_eq_iff)
  show "local_text (HMI_formatCurrentText v) 10 = current_text v" "sendable 15 (current_text v)"
    using current_text_length [of v] fmt_d_no_ff
    by (auto simp: eq local_text_put sendable_def current_text_def)
qed

lemma hex_char_no_ff: "n < 16 \<Longrightarrow> hex_char n \<noteq> CHR 0xFF"
proof
  assume "n < 16" "hex_char n = CHR 0xFF"
  then have "(of_char (hex_char n) :: nat) = 255" by simp
  with \<open>n < 16\<close> show False by (simp add: hex_char_def split: if_splits)
qed

definition error_text :: "u8 \<Rightarrow> string" where
  "error_text v = ''0x'' @ fmt_02X v"

lemma error_text_ok:
  "local_text (HMI_formatErrorText v) 16 = error_text v" "sendable 15 (error_text v)"
proof -
  have "unat v div 16 < 16" "unat v mod 16 < 16" using unat_8_less [of v] by simp_all
  then show "sendable 15 (error_text v)"
    using hex_char_no_ff [of "unat v div 16"] hex_char_no_ff [of "unat v mod 16"]
    by (auto simp: sendable_def fmt_02X_def error_text_def)
  have eq: "HMI_formatErrorText v = (\<lambda>n. put_text n (error_text v))"
    by (simp add: error_text_def HMI_formatErrorText_def fun_eq_iff)
  show "local_text (HMI_formatErrorText v) 16 = error_text v"
    by (simp add: eq local_text_put fmt_02X_def error_text_def)
qed

lemma fixed_texts_ok:
  "sendable 15 (HMI_getStateText s)" "sendable 15 (HMI_getValidityText dv ta)"
  "sendable 15 (HMI_getContactorText c)"
  by (cases s) (simp_all add: sendable_def HMI_getValidityText_def HMI_getContactorText_def)

section \<open>The refresh\<close>

text \<open>What the display must show for given data: every attribute with its text.\<close>

definition shown :: "HMI_DisplayData \<Rightarrow> (string \<times> string) list" where
  "shown d = [
     (''speed.val'', fmt_d (uint (HMI_currentSpeed d))),
     (''bat.txt'', quoted (battery_text (HMI_currentBattery d))),
     (''rpm.val'', fmt_d (uint (HMI_motorRpm d))),
     (''torque.val'', fmt_d (sint (HMI_motorTorqueFeedback d))),
     (''temp.txt'', quoted (temp_text (HMI_bmsTemperatureC d))),
     (''packv.val'', fmt_d (uint (HMI_bmsPackVoltageDeciV d))),
     (''packi.txt'', quoted (current_text (HMI_packCurrentDeciA d))),
     (''state.txt'', quoted (HMI_getStateText (HMI_vcuState d))),
     (''motorErr.txt'', quoted (error_text (HMI_motorErrorFlags d))),
     (''valid.txt'', quoted (HMI_getValidityText (HMI_motorDataValid d) (HMI_motorTimeoutActive d))),
     (''contactor.txt'', quoted (HMI_getContactorText (HMI_contactorClosed d)))]"

definition screen_shows :: "HMI_DisplayData \<Rightarrow> screen \<Rightarrow> bool" where
  "screen_shows d scr \<longleftrightarrow> list_all (\<lambda>(k, v). scr k = Some v) (shown d)"

text \<open>The cache claims no more than the display shows.\<close>

definition cache_ok :: "DisplayHMI \<Rightarrow> screen \<Rightarrow> bool" where
  "cache_ok st scr \<longleftrightarrow> (HMI_hasCachedScreen st \<longrightarrow> screen_shows (HMI_lastScreenData st) scr)"

text \<open>The conditions under which the eleven sends write, in their order.\<close>

definition changed :: "bool \<Rightarrow> HMI_DisplayData \<Rightarrow> HMI_DisplayData \<Rightarrow> bool list" where
  "changed f d l = map (\<lambda>c. f \<or> c) [
     (ucast (HMI_currentSpeed d) :: i32) \<noteq> ucast (HMI_currentSpeed l),
     battery_text (HMI_currentBattery d) \<noteq> battery_text (HMI_currentBattery l),
     (ucast (HMI_motorRpm d) :: i32) \<noteq> ucast (HMI_motorRpm l),
     (scast (HMI_motorTorqueFeedback d) :: i32) \<noteq> scast (HMI_motorTorqueFeedback l),
     temp_text (HMI_bmsTemperatureC d) \<noteq> temp_text (HMI_bmsTemperatureC l),
     (ucast (HMI_bmsPackVoltageDeciV d) :: i32) \<noteq> ucast (HMI_bmsPackVoltageDeciV l),
     current_text (HMI_packCurrentDeciA d) \<noteq> current_text (HMI_packCurrentDeciA l),
     HMI_getStateText (HMI_vcuState d) \<noteq> HMI_getStateText (HMI_vcuState l),
     error_text (HMI_motorErrorFlags d) \<noteq> error_text (HMI_motorErrorFlags l),
     HMI_getValidityText (HMI_motorDataValid d) (HMI_motorTimeoutActive d) \<noteq>
       HMI_getValidityText (HMI_motorDataValid l) (HMI_motorTimeoutActive l),
     HMI_getContactorText (HMI_contactorClosed d) \<noteq> HMI_getContactorText (HMI_contactorClosed l)]"

fun puts :: "bool list \<Rightarrow> (string \<times> string) list \<Rightarrow> screen \<Rightarrow> screen" where
  "puts (c # cs) ((k, v) # kvs) scr = puts cs kvs (put_if c k v scr)"
| "puts cs kvs scr = scr"

lemma puts_other: "k \<notin> fst ` set kvs \<Longrightarrow> puts cs kvs scr k = scr k"
  by (induction cs kvs scr rule: puts.induct) (auto simp: put_if_apply)

lemma puts_nth:
  "distinct (map fst kvs) \<Longrightarrow> i < length kvs \<Longrightarrow> i < length cs \<Longrightarrow>
   puts cs kvs scr (fst (kvs ! i)) =
     (if cs ! i then Some (snd (kvs ! i)) else scr (fst (kvs ! i)))"
proof (induction cs kvs scr arbitrary: i rule: puts.induct)
  case (1 c cs k v kvs scr)
  show ?case
  proof (cases i)
    case 0
    with 1 show ?thesis by (simp add: puts_other put_if_apply)
  next
    case (Suc j)
    then have "fst (kvs ! j) \<in> fst ` set kvs" using "1.prems" by simp
    then have "fst (kvs ! j) \<noteq> k" using "1.prems" by auto
    then have keep: "put_if c k v scr (fst (kvs ! j)) = scr (fst (kvs ! j))"
      by (simp add: put_if_def)
    have "puts cs kvs (put_if c k v scr) (fst (kvs ! j)) = (if cs ! j then Some (snd (kvs ! j))
        else put_if c k v scr (fst (kvs ! j)))"
      using "1.IH" [of j] "1.prems" Suc by simp
    with Suc keep show ?thesis by simp
  qed
qed simp_all

lemma puts_shows:
  assumes "distinct (map fst kvs)" "length cs = length kvs"
    "\<And>i. i < length kvs \<Longrightarrow> cs ! i \<or> scr (fst (kvs ! i)) = Some (snd (kvs ! i))"
  shows "list_all (\<lambda>(k, v). puts cs kvs scr k = Some v) kvs"
  using assms by (auto simp: list_all_length case_prod_beta puts_nth)

lemmas texts_ok = battery_text_ok temp_text_ok current_text_ok error_text_ok fixed_texts_ok

lemma component_names [simp]:
  "component_ok ''speed''" "component_ok ''bat''" "component_ok ''rpm''" "component_ok ''torque''"
  "component_ok ''temp''" "component_ok ''packv''" "component_ok ''packi''" "component_ok ''state''"
  "component_ok ''motorErr''" "component_ok ''valid''" "component_ok ''contactor''"
  by (simp_all add: component_ok_def)

lemma updateScreen_refresh:
  assumes "HMI_isInitialized st"
  shows "nextion (wire (snd (updateScreen d st))) scr =
      puts (changed (\<not> HMI_hasCachedScreen st) d (HMI_lastScreenData st)) (shown d) scr"
    "in_bounds (snd (updateScreen d st))"
  using assms
  by (simp_all add: updateScreen_def Let_def texts_ok send_numeric send_text changed_def shown_def
      send_numeric(1) [where cs = "[]", simplified] send_text(1) [where cs = "[]", simplified])

text \<open>The refresh ends on a command boundary: what follows is read as further commands.\<close>

lemma updateScreen_then:
  assumes "HMI_isInitialized st"
  shows "nextion (wire (snd (updateScreen d st)) @ cs) scr =
    nextion cs (nextion (wire (snd (updateScreen d st))) scr)"
proof -
  have "nextion (wire (snd (updateScreen d st)) @ cs) scr =
      nextion cs (puts (changed (\<not> HMI_hasCachedScreen st) d (HMI_lastScreenData st)) (shown d) scr)"
    using assms
    by (simp add: updateScreen_def Let_def texts_ok send_numeric send_text changed_def shown_def)
  then show ?thesis using updateScreen_refresh(1) [OF assms] by simp
qed

lemma changed_complete:
  "list_all2 (\<lambda>c (kv, kv'). c \<or> kv = kv') (changed f d l) (zip (shown d) (shown l))"
proof -
  have inj: "(ucast (a :: u16) :: i32) = ucast b \<longleftrightarrow> a = b"
    "(scast (c :: i16) :: i32) = scast e \<longleftrightarrow> c = e" for a b c e
    by (metis sint_ucast_16_32 word_uint_eq_iff, metis sint_scast_16_32 word_eq_iff_signed)
  show ?thesis by (simp add: changed_def shown_def inj)
qed

lemma shown_keys [simp]: "length (shown d) = 11" "distinct (map fst (shown d))"
  "map fst (shown d) = map fst (shown l)"
  by (simp_all add: shown_def)

lemma changed_nth:
  assumes "i < 11" "\<not> changed f d l ! i"
  shows "\<not> f" "shown d ! i = shown l ! i"
proof -
  have len: "length (changed f d l) = 11" by (simp add: changed_def)
  show "shown d ! i = shown l ! i"
    using list_all2_nthD [OF changed_complete, of i f d l] assms len by simp
  have "changed True d l ! i" using assms(1) len
    by (auto simp: changed_def less_Suc_eq numeral_eq_Suc)
  with assms(2) show "\<not> f" by (cases f) simp_all
qed

text \<open>The refresh repairs the display, and the cache then claims nothing false.\<close>

lemma display_refresh:
  assumes "HMI_isInitialized st" "cache_ok st scr"
  shows "screen_shows d (nextion (wire (snd (updateScreen d st))) scr) \<and>
    cache_ok (fst (updateScreen d st)) (nextion (wire (snd (updateScreen d st))) scr)"
proof -
  let ?l = "HMI_lastScreenData st" and ?f = "\<not> HMI_hasCachedScreen st"
  have "changed ?f d ?l ! i \<or> scr (fst (shown d ! i)) = Some (snd (shown d ! i))" if "i < 11" for i
  proof (cases "changed ?f d ?l ! i")
    case False
    with changed_nth [of i ?f d ?l] that assms(2) show ?thesis
      by (simp add: cache_ok_def screen_shows_def list_all_length case_prod_beta)
  qed simp
  then have "list_all (\<lambda>(k, v). puts (changed ?f d ?l) (shown d) scr k = Some v) (shown d)"
    by (intro puts_shows) (simp_all add: changed_def)
  then have shows_d: "screen_shows d (nextion (wire (snd (updateScreen d st))) scr)"
    by (simp only: screen_shows_def updateScreen_refresh(1) [OF assms(1)])
  then show ?thesis using assms(1) by (simp add: cache_ok_def updateScreen_def Let_def)
qed

text \<open>
  After a refresh the display shows all eleven values of the new data, provided the cache
  claimed nothing false, and the cache again claims nothing false; every write is within its buffer,
  and a refresh with unchanged data writes nothing.
\<close>

lemma display_shows_data:
  assumes "HMI_isInitialized st" "cache_ok st scr"
  shows "screen_shows d (nextion (wire (snd (updateScreen d st))) scr) \<and>
    cache_ok (fst (updateScreen d st)) (nextion (wire (snd (updateScreen d st))) scr) \<and>
    in_bounds (snd (updateScreen d st)) \<and>
    snd (updateScreen d (fst (updateScreen d st))) = []"
proof -
  have "fst (updateScreen d st) = st\<lparr>HMI_lastScreenData := d, HMI_hasCachedScreen := True\<rparr>"
    using assms(1) by (simp add: updateScreen_def Let_def)
  then have "snd (updateScreen d (fst (updateScreen d st))) = []"
    using assms(1) by (simp add: updateScreen_def Let_def HMI_sendNumericIfChanged_def
        HMI_sendTextIfChanged_def)
  with display_refresh [OF assms] updateScreen_refresh(2) [OF assms(1)] show ?thesis by simp
qed

lemma display_shows_data_witness:
  "screen_shows HMI_DisplayData_zero (nextion (wire (snd (updateScreen HMI_DisplayData_zero
     (DisplayHMI_new\<lparr>HMI_isInitialized := True\<rparr>)))) Map.empty)"
  using display_shows_data [of "DisplayHMI_new\<lparr>HMI_isInitialized := True\<rparr>" Map.empty HMI_DisplayData_zero]
  by (simp add: cache_ok_def DisplayHMI_new_def)

end
