(* ===== verification/Nextion_Packet.thy ===== *)
theory Nextion_Packet
  imports Bms_Algo HMI_Helpers
begin

text \<open>
  The cell page of the display (\<open>lib/BmsAlgo/BmsNextionPacket.cpp\<close>): one call emits, within a byte
  budget, the commands for the values that differ from the cache, and marks those as cached. A
  \<open>bms_slot\<close> is one display object together with its field of the cache; the callback's calls are
  the emitted list, and the caller appends the three end bytes to each.
\<close>

section \<open>Slots and cache\<close>

datatype bms_slot = Cell nat | Bar nat | Bal nat | CellMax | CellMin | Warn | CellCan

fun slot_name :: "bms_slot \<Rightarrow> string \<times> nat option" where
  "slot_name (Cell i) = (''cell'', Some i)"
| "slot_name (Bar i) = (''j'', Some i)"
| "slot_name (Bal i) = (''bal'', Some i)"
| "slot_name CellMax = (''cellmax'', None)"
| "slot_name CellMin = (''cellmin'', None)"
| "slot_name Warn = (''warn'', None)"
| "slot_name CellCan = (''cellcan'', None)"

record BmsNextionCache =
  NC_cellVoltageMv :: "u16 list"
  NC_cellBarFill :: "u8 list"
  NC_balanceFlag :: "u8 list"
  NC_cellMaxMv :: u16
  NC_cellMinMv :: u16
  NC_warningLevel :: u8
  NC_cellCanStatus :: u8
  NC_isWarm :: bool

definition BmsNextionCache_new :: BmsNextionCache where
  "BmsNextionCache_new = \<lparr>NC_cellVoltageMv = replicate BMS_CELL_COUNT 0,
     NC_cellBarFill = replicate BMS_CELL_COUNT 255, NC_balanceFlag = replicate BMS_CELL_COUNT 255,
     NC_cellMaxMv = 0, NC_cellMinMv = 0, NC_warningLevel = 255, NC_cellCanStatus = 255,
     NC_isWarm = False\<rparr>"

fun cached :: "BmsNextionCache \<Rightarrow> bms_slot \<Rightarrow> nat" where
  "cached c (Cell i) = unat (NC_cellVoltageMv c ! i)"
| "cached c (Bar i) = unat (NC_cellBarFill c ! i)"
| "cached c (Bal i) = unat (NC_balanceFlag c ! i)"
| "cached c CellMax = unat (NC_cellMaxMv c)"
| "cached c CellMin = unat (NC_cellMinMv c)"
| "cached c Warn = unat (NC_warningLevel c)"
| "cached c CellCan = unat (NC_cellCanStatus c)"

fun set_cached :: "bms_slot \<Rightarrow> nat \<Rightarrow> BmsNextionCache \<Rightarrow> BmsNextionCache" where
  "set_cached (Cell i) v c = c\<lparr>NC_cellVoltageMv := (NC_cellVoltageMv c)[i := of_nat v]\<rparr>"
| "set_cached (Bar i) v c = c\<lparr>NC_cellBarFill := (NC_cellBarFill c)[i := of_nat v]\<rparr>"
| "set_cached (Bal i) v c = c\<lparr>NC_balanceFlag := (NC_balanceFlag c)[i := of_nat v]\<rparr>"
| "set_cached CellMax v c = c\<lparr>NC_cellMaxMv := of_nat v\<rparr>"
| "set_cached CellMin v c = c\<lparr>NC_cellMinMv := of_nat v\<rparr>"
| "set_cached Warn v c = c\<lparr>NC_warningLevel := of_nat v\<rparr>"
| "set_cached CellCan v c = c\<lparr>NC_cellCanStatus := of_nat v\<rparr>"

definition cellBarFill :: "u16 \<Rightarrow> u8" where
  "cellBarFill mv =
     (if mv = 65535 then 0
      else if mv \<le> BMS_SOC_EMPTY_MV then 0
      else if BMS_SOC_FULL_MV \<le> mv then 100
      else ucast ((ucast (mv - BMS_SOC_EMPTY_MV) :: u32) * 100 div
             ucast (BMS_SOC_FULL_MV - BMS_SOC_EMPTY_MV)))"

text \<open>The value each object should show.\<close>

fun wanted :: "BmsComputed \<Rightarrow> BmsPackData \<Rightarrow> bool \<Rightarrow> bms_slot \<Rightarrow> nat" where
  "wanted bc raw verified (Cell i) = unat (BMS_cellVoltageMv raw ! i)"
| "wanted bc raw verified (Bar i) = unat (cellBarFill (BMS_cellVoltageMv raw ! i))"
| "wanted bc raw verified (Bal i) = (if BC_balanceFlag bc ! i then 1 else 0)"
| "wanted bc raw verified CellMax = unat (BC_cellMaxMv bc)"
| "wanted bc raw verified CellMin = unat (BC_cellMinMv bc)"
| "wanted bc raw verified Warn = unat (BC_warningLevel bc)"
| "wanted bc raw verified CellCan = (if verified then 1 else 0)"

section \<open>One call\<close>

record nx_run =
  NX_cache :: BmsNextionCache
  NX_currentBytes :: nat
  NX_budgetExhausted :: bool
  NX_allProcessed :: bool
  NX_emitted :: "uart_write list"

definition slot_command :: "bms_slot \<Rightarrow> nat \<Rightarrow> string" where
  "slot_command s v = (case slot_name s of (nm, index) \<Rightarrow>
     nm @ (case index of Some i \<Rightarrow> fmt_u i | None \<Rightarrow> []) @ ''.val='' @ fmt_d (int v))"

definition emitAndCheck :: "nat \<Rightarrow> bms_slot \<Rightarrow> nat \<Rightarrow> nx_run \<Rightarrow> bool \<times> nx_run" where
  "emitAndCheck maxBytes s v r =
     (if NX_budgetExhausted r then (False, r)
      else
        let (cmd, len) = snprintf 40 (slot_command s v)
        in if len \<le> 0 then (False, r)
           else if maxBytes < NX_currentBytes r + len + 3
             then (False, r\<lparr>NX_budgetExhausted := True\<rparr>)
           else (True, r\<lparr>NX_emitted := NX_emitted r @ [(cmd, len)],
                         NX_currentBytes := NX_currentBytes r + len + 3\<rparr>))"

definition nx_slot :: "nat \<Rightarrow> bool \<Rightarrow> (bms_slot \<Rightarrow> nat) \<Rightarrow> bms_slot \<Rightarrow> nx_run \<Rightarrow> nx_run" where
  "nx_slot maxBytes force want s r =
     (if force \<or> want s \<noteq> cached (NX_cache r) s then
        let (ok, r1) = emitAndCheck maxBytes s (want s) r
        in if \<not> ok then r1\<lparr>NX_allProcessed := False\<rparr>
           else r1\<lparr>NX_cache := set_cached s (want s) (NX_cache r1)\<rparr>
      else r)"

definition cell_slots :: "bms_slot list" where
  "cell_slots = map Cell [0..<BMS_CELL_COUNT] @ map Bar [0..<BMS_CELL_COUNT] @
     map Bal [0..<BMS_CELL_COUNT]"

definition summary_slots :: "bms_slot list" where
  "summary_slots = [CellMax, CellMin, Warn, CellCan]"

definition nx_start :: "BmsNextionCache \<Rightarrow> nx_run" where
  "nx_start cache = \<lparr>NX_cache = cache, NX_currentBytes = 0, NX_budgetExhausted = False,
     NX_allProcessed = True, NX_emitted = []\<rparr>"

definition nx_pass ::
  "nat \<Rightarrow> bool \<Rightarrow> (bms_slot \<Rightarrow> nat) \<Rightarrow> bool \<Rightarrow> BmsNextionCache \<Rightarrow> nx_run" where
  "nx_pass maxBytes force want mustProcessCells cache =
     (let r1 = (if mustProcessCells then fold (nx_slot maxBytes force want) cell_slots (nx_start cache)
                else nx_start cache)
      in fold (nx_slot maxBytes force want) summary_slots r1)"

definition buildBmsNextionCommands ::
  "BmsComputed \<Rightarrow> BmsPackData \<Rightarrow> BmsNextionCache \<Rightarrow> bool \<Rightarrow> bool \<Rightarrow> nat \<Rightarrow> bool \<Rightarrow>
   BmsNextionCache \<times> uart_write list" where
  "buildBmsNextionCommands bc raw cache forceFullRefresh updateCells maxBytes cellDataVerified =
     (let mustProcessCells = (updateCells \<or> forceFullRefresh \<or> \<not> NC_isWarm cache);
          r = nx_pass maxBytes forceFullRefresh (wanted bc raw cellDataVerified)
                mustProcessCells cache
      in (if NX_allProcessed r then (NX_cache r)\<lparr>NC_isWarm := True\<rparr> else NX_cache r,
          NX_emitted r))"

section \<open>The budget\<close>

text \<open>The bytes a call costs on the wire, the end bytes included.\<close>

definition wire_bytes :: "uart_write list \<Rightarrow> nat" where
  "wire_bytes ws = (\<Sum>(s, n)\<leftarrow>ws. n + 3)"

definition budget_inv :: "nat \<Rightarrow> nx_run \<Rightarrow> bool" where
  "budget_inv maxBytes r \<longleftrightarrow> NX_currentBytes r = wire_bytes (NX_emitted r) \<and>
     NX_currentBytes r \<le> maxBytes"

lemma budget_slot: "budget_inv m r \<Longrightarrow> budget_inv m (nx_slot m force want s r)"
  by (auto simp: budget_inv_def nx_slot_def emitAndCheck_def Let_def wire_bytes_def snprintf_def)

lemma budget_fold: "budget_inv m r \<Longrightarrow> budget_inv m (fold (nx_slot m force want) ss r)"
  by (induction ss arbitrary: r) (simp_all add: budget_slot)

lemma within_budget:
  "wire_bytes (snd (buildBmsNextionCommands bc raw cache force upd maxBytes ver)) \<le> maxBytes"
proof -
  have "budget_inv maxBytes (nx_start cache)"
    by (simp add: nx_start_def budget_inv_def wire_bytes_def)
  then have "budget_inv maxBytes (nx_pass maxBytes force want must cache)" for want must
    by (simp add: nx_pass_def budget_fold)
  then have "wire_bytes (NX_emitted (nx_pass maxBytes force want must cache)) \<le> maxBytes" for want must
    by (metis budget_inv_def)
  then show ?thesis by (simp add: buildBmsNextionCommands_def Let_def)
qed

section \<open>Slots that are out of date\<close>

lemma length_slot_command:
  assumes "v < 65536" "\<And>i. snd (slot_name s) = Some i \<Longrightarrow> i < 100"
  shows "length (slot_command s v) \<le> 17"
proof -
  have "length (fmt_d (int v)) \<le> 5"
    using assms(1) length_dec_digits [of v 4] by (simp add: fmt_d_def)
  moreover have "length (fmt_u i) \<le> 2" if "snd (slot_name s) = Some i" for i
    using assms(2) [OF that] length_fmt_u [of i 1] by simp
  ultimately show ?thesis by (cases s) (fastforce simp: slot_command_def)+
qed

definition slots :: "bms_slot list" where
  "slots = cell_slots @ summary_slots"

definition cache_wf :: "BmsNextionCache \<Rightarrow> bool" where
  "cache_wf c \<longleftrightarrow> length (NC_cellVoltageMv c) = 24 \<and> length (NC_cellBarFill c) = 24 \<and>
     length (NC_balanceFlag c) = 24"

text \<open>The values a slot's cache field can hold.\<close>

fun slot_range :: "bms_slot \<Rightarrow> nat" where
  "slot_range (Cell i) = 65536"
| "slot_range CellMax = 65536"
| "slot_range CellMin = 65536"
| "slot_range _ = 256"

lemma wanted_range: "wanted bc raw ver s < slot_range s"
  using unat_8_less unat_16_less by (cases s) simp_all

lemma slot_range_le: "slot_range s \<le> 65536"
  by (cases s) simp_all

lemma slots_index: "s \<in> set slots \<Longrightarrow> snd (slot_name s) = Some i \<Longrightarrow> i < 24"
  by (auto simp: slots_def cell_slots_def summary_slots_def BMS_CELL_COUNT_def)

lemma cached_set_cached:
  assumes "cache_wf c" "s \<in> set slots" "v < slot_range s"
  shows "cached (set_cached s v c) s' = (if s' = s then v else cached c s')"
proof -
  have "\<And>i. snd (slot_name s) = Some i \<Longrightarrow> i < 24" using slots_index assms(2) by blast
  moreover have "unat (of_nat v :: u8) = v" if "v < 256" using that by (simp add: unat_of_nat)
  moreover have "unat (of_nat v :: u16) = v" if "v < 65536" using that by (simp add: unat_of_nat)
  ultimately show ?thesis
    using assms(1,3) by (cases s; cases s') (auto simp: cache_wf_def nth_list_update)
qed

lemma cache_wf_set [simp]: "cache_wf (set_cached s v c) = cache_wf c"
  by (cases s) (simp_all add: cache_wf_def)

section \<open>Convergence\<close>

definition stale :: "(bms_slot \<Rightarrow> nat) \<Rightarrow> BmsNextionCache \<Rightarrow> bms_slot set" where
  "stale want c = {s \<in> set slots. cached c s \<noteq> want s}"

definition in_range :: "(bms_slot \<Rightarrow> nat) \<Rightarrow> bool" where
  "in_range want \<longleftrightarrow> (\<forall>s. want s < slot_range s)"

lemma finite_stale [simp]: "finite (stale want c)"
  by (simp add: stale_def)

lemma nx_slot_cache:
  "NX_cache (nx_slot m f want s r) = NX_cache r \<or>
   NX_cache (nx_slot m f want s r) = set_cached s (want s) (NX_cache r)"
  by (simp add: nx_slot_def emitAndCheck_def Let_def case_prod_beta)

lemma stale_set:
  assumes "cache_wf c" "s \<in> set slots" "in_range want"
  shows "stale want (set_cached s (want s) c) = stale want c - {s}"
proof -
  have eq: "cached (set_cached s (want s) c) s' = (if s' = s then want s else cached c s')" for s'
    using assms(3) by (intro cached_set_cached assms) (simp add: in_range_def)
  show ?thesis
    unfolding stale_def eq by auto
qed

lemma nx_slot_shrinks:
  assumes "cache_wf (NX_cache r)" "s \<in> set slots" "in_range want"
  shows "cache_wf (NX_cache (nx_slot m f want s r)) \<and>
    stale want (NX_cache (nx_slot m f want s r)) \<subseteq> stale want (NX_cache r)"
  using nx_slot_cache [of m f want s r]
proof
  assume "NX_cache (nx_slot m f want s r) = NX_cache r"
  then show ?thesis using assms(1) by simp
next
  assume eq: "NX_cache (nx_slot m f want s r) = set_cached s (want s) (NX_cache r)"
  show ?thesis unfolding eq stale_set [OF assms] using assms(1) by simp
qed

lemma nx_fold_shrinks:
  assumes "in_range want"
  shows "cache_wf (NX_cache r) \<Longrightarrow> set ss \<subseteq> set slots \<Longrightarrow>
    cache_wf (NX_cache (fold (nx_slot m f want) ss r)) \<and>
    stale want (NX_cache (fold (nx_slot m f want) ss r)) \<subseteq> stale want (NX_cache r)"
proof (induction ss arbitrary: r)
  case (Cons s ss)
  have s: "cache_wf (NX_cache (nx_slot m f want s r)) \<and>
      stale want (NX_cache (nx_slot m f want s r)) \<subseteq> stale want (NX_cache r)"
    using Cons.prems by (intro nx_slot_shrinks assms) auto
  with Cons.IH [of "nx_slot m f want s r"] Cons.prems show ?case by auto
qed simp

lemma nx_slot_fresh: "cached (NX_cache r) s = want s \<Longrightarrow> nx_slot m False want s r = r"
  by (simp add: nx_slot_def)

lemma nx_slot_first:
  assumes "NX_currentBytes r = 0" "\<not> NX_budgetExhausted r" "20 \<le> m" "s \<in> set slots" "in_range want"
    "cached (NX_cache r) s \<noteq> want s"
  shows "NX_cache (nx_slot m f want s r) = set_cached s (want s) (NX_cache r)"
proof -
  have "want s < 65536"
    using assms(5) slot_range_le [of s] by (auto simp: in_range_def intro: less_le_trans)
  then have "length (slot_command s (want s)) \<le> 17"
    using slots_index [OF assms(4)] by (intro length_slot_command) force+
  moreover have "length (slot_command s (want s)) \<noteq> 0"
    by (simp add: slot_command_def case_prod_beta)
  ultimately show ?thesis
    using assms by (simp add: nx_slot_def emitAndCheck_def snprintf_def Let_def)
qed

lemma nx_fold_progress:
  assumes "in_range want" "20 \<le> m"
  shows "NX_currentBytes r = 0 \<Longrightarrow> \<not> NX_budgetExhausted r \<Longrightarrow> cache_wf (NX_cache r) \<Longrightarrow>
    set ss \<subseteq> set slots \<Longrightarrow> set ss \<inter> stale want (NX_cache r) \<noteq> {} \<Longrightarrow>
    stale want (NX_cache (fold (nx_slot m False want) ss r)) \<subset> stale want (NX_cache r)"
proof (induction ss)
  case (Cons s ss)
  show ?case
  proof (cases "cached (NX_cache r) s = want s")
    case True
    then have "s \<notin> stale want (NX_cache r)" by (simp add: stale_def)
    with Cons True show ?thesis by (simp add: nx_slot_fresh)
  next
    case False
    let ?r1 = "nx_slot m False want s r"
    have s: "s \<in> set slots" using Cons.prems by simp
    have c1: "NX_cache ?r1 = set_cached s (want s) (NX_cache r)"
      using Cons.prems s False assms by (intro nx_slot_first) auto
    then have "stale want (NX_cache ?r1) = stale want (NX_cache r) - {s}"
      using Cons.prems s assms(1) by (simp add: stale_set)
    moreover have "s \<in> stale want (NX_cache r)" using s False by (simp add: stale_def)
    moreover have "stale want (NX_cache (fold (nx_slot m False want) ss ?r1)) \<subseteq> stale want (NX_cache ?r1)"
      using nx_fold_shrinks [OF assms(1), of ?r1 ss m False] Cons.prems c1 by simp
    ultimately show ?thesis by auto
  qed
qed simp

lemma nx_fold_fresh:
  "set ss \<inter> stale want (NX_cache r) = {} \<Longrightarrow> set ss \<subseteq> set slots \<Longrightarrow>
   fold (nx_slot m False want) ss r = r"
  by (induction ss) (auto simp: stale_def nx_slot_fresh)

lemma nx_pass_fresh:
  assumes "stale want c = {}"
  shows "nx_pass m False want must c = nx_start c"
proof -
  have fresh: "fold (nx_slot m False want) ss (nx_start c) = nx_start c" if "set ss \<subseteq> set slots" for ss
    using nx_fold_fresh [of ss want "nx_start c" m] assms that by (simp add: nx_start_def)
  have "set cell_slots \<subseteq> set slots" "set summary_slots \<subseteq> set slots" by (auto simp: slots_def)
  then show ?thesis by (simp add: nx_pass_def fresh)
qed

text \<open>One unforced call that looks at all objects.\<close>

definition repaint ::
  "BmsComputed \<Rightarrow> BmsPackData \<Rightarrow> bool \<Rightarrow> nat \<Rightarrow> BmsNextionCache \<Rightarrow> BmsNextionCache" where
  "repaint bc raw ver m c = fst (buildBmsNextionCommands bc raw c False True m ver)"

lemma stale_warm [simp]:
  "stale want (c\<lparr>NC_isWarm := b\<rparr>) = stale want c" "cache_wf (c\<lparr>NC_isWarm := b\<rparr>) = cache_wf c"
proof -
  have "cached (c\<lparr>NC_isWarm := b\<rparr>) s = cached c s" for s by (cases s) simp_all
  then show "stale want (c\<lparr>NC_isWarm := b\<rparr>) = stale want c" by (simp add: stale_def)
  show "cache_wf (c\<lparr>NC_isWarm := b\<rparr>) = cache_wf c" by (simp add: cache_wf_def)
qed

lemma nx_pass_all: "nx_pass m f want True c = fold (nx_slot m f want) slots (nx_start c)"
  by (simp add: nx_pass_def slots_def)

lemma repaint_progress:
  fixes bc :: BmsComputed and raw :: BmsPackData and ver :: bool
  assumes "cache_wf c" "20 \<le> m"
  defines "want \<equiv> wanted bc raw ver"
  shows "cache_wf (repaint bc raw ver m c)"
    "card (stale want (repaint bc raw ver m c)) \<le> card (stale want c) - 1"
proof -
  let ?r = "fold (nx_slot m False want) slots (nx_start c)"
  have want: "in_range want" by (simp add: in_range_def want_def wanted_range)
  have stale_r: "stale want (repaint bc raw ver m c) = stale want (NX_cache ?r)"
    and wf_r: "cache_wf (repaint bc raw ver m c) = cache_wf (NX_cache ?r)"
    by (simp_all add: repaint_def buildBmsNextionCommands_def Let_def nx_pass_all want_def)
  have *: "cache_wf (NX_cache ?r) \<and> stale want (NX_cache ?r) \<subseteq> stale want c"
    using nx_fold_shrinks [OF want, of "nx_start c" slots m False] assms(1) by (simp add: nx_start_def)
  then show "cache_wf (repaint bc raw ver m c)" by (simp add: wf_r)
  show "card (stale want (repaint bc raw ver m c)) \<le> card (stale want c) - 1"
  proof (cases "stale want c = {}")
    case False
    then have "set slots \<inter> stale want (NX_cache (nx_start c)) \<noteq> {}"
      by (auto simp: stale_def nx_start_def)
    then have "stale want (NX_cache ?r) \<subset> stale want c"
      using nx_fold_progress [OF want assms(2), of "nx_start c" slots] assms(1)
      by (simp add: nx_start_def)
    then show ?thesis
      unfolding stale_r by (metis One_nat_def Suc_pred card_gt_0_iff False finite_stale
          less_Suc_eq_le psubset_card_mono)
  qed (use * in \<open>simp add: stale_r\<close>)
qed

lemma length_slots: "length slots = 76"
  by (simp add: slots_def cell_slots_def summary_slots_def BMS_CELL_COUNT_def)

lemma card_stale_le: "card (stale want c) \<le> 76"
proof -
  have "card (stale want c) \<le> card (set slots)"
    by (intro card_mono) (auto simp: stale_def)
  also have "\<dots> \<le> 76" using card_length [of slots] by (simp add: length_slots)
  finally show ?thesis .
qed

lemma repaint_iterate:
  assumes "cache_wf c" "20 \<le> m"
  shows "cache_wf ((repaint bc raw ver m ^^ n) c) \<and>
    card (stale (wanted bc raw ver) ((repaint bc raw ver m ^^ n) c)) \<le> 76 - n"
proof (induction n)
  case 0
  show ?case using assms(1) by (simp add: card_stale_le)
next
  case (Suc n)
  let ?c = "(repaint bc raw ver m ^^ n) c"
  have "cache_wf (repaint bc raw ver m ?c)"
    "card (stale (wanted bc raw ver) (repaint bc raw ver m ?c)) \<le> card (stale (wanted bc raw ver) ?c) - 1"
    using repaint_progress Suc.IH assms(2) by blast+
  moreover have "(repaint bc raw ver m ^^ Suc n) c = repaint bc raw ver m ?c" by simp
  moreover have "card (stale (wanted bc raw ver) ?c) \<le> 76 - n" using Suc.IH ..
  ultimately show ?case by (simp only: simp_thms)
qed



section \<open>The forced refresh\<close>

text \<open>Once the budget is spent, nothing more is emitted.\<close>

lemma nx_slot_spent:
  "NX_budgetExhausted r \<or> NX_currentBytes r = m \<Longrightarrow>
   NX_emitted (nx_slot m f want s r) = NX_emitted r \<and>
   (NX_budgetExhausted (nx_slot m f want s r) \<or> NX_currentBytes (nx_slot m f want s r) = m)"
  by (auto simp: nx_slot_def emitAndCheck_def Let_def case_prod_beta)

lemma nx_fold_spent:
  "NX_budgetExhausted r \<or> NX_currentBytes r = m \<Longrightarrow>
   NX_emitted (fold (nx_slot m f want) ss r) = NX_emitted r"
proof (induction ss arbitrary: r)
  case (Cons s ss)
  with nx_slot_spent [of r m f want s] show ?case by simp
qed simp

lemma nx_slot_forced:
  assumes "\<not> NX_budgetExhausted r" "length (slot_command s (want s)) = n" "0 < n" "n < 40"
    "NX_currentBytes r + n + 3 \<le> m"
  shows "NX_emitted (nx_slot m True want s r) = NX_emitted r @ [(slot_command s (want s), n)]"
    "NX_currentBytes (nx_slot m True want s r) = NX_currentBytes r + n + 3"
    "\<not> NX_budgetExhausted (nx_slot m True want s r)"
  using assms by (simp_all add: nx_slot_def emitAndCheck_def Let_def case_prod_beta snprintf_def)

lemma cell_command_length: "i < 5 \<Longrightarrow> length (slot_command (Cell i) 65535) = 15"
  by (simp add: slot_command_def fmt_u_def fmt_d_def dec_digits.simps)

lemma forced_cells:
  fixes c :: BmsNextionCache
  assumes "\<And>i. i < 24 \<Longrightarrow> want (Cell i) = 65535" "n \<le> 5"
  defines "r \<equiv> fold (nx_slot 90 True want) (map Cell [0..<n]) (nx_start c)"
  shows "NX_emitted r = map (\<lambda>i. (slot_command (Cell i) 65535, 15)) [0..<n] \<and>
    NX_currentBytes r = 18 * n \<and> \<not> NX_budgetExhausted r"
  using assms(2) unfolding r_def
proof (induction n)
  case 0
  show ?case by (simp add: nx_start_def)
next
  case (Suc n)
  let ?r = "fold (nx_slot 90 True want) (map Cell [0..<n]) (nx_start c)"
  have "length (slot_command (Cell n) (want (Cell n))) = 15"
    using Suc.prems assms(1) cell_command_length by simp
  with nx_slot_forced [of ?r "Cell n" want 15 90] Suc assms(1) show ?case by simp
qed

lemma slots_split: "slots = map Cell [0..<5] @ drop 5 slots"
proof -
  have "take 5 slots = map Cell [0..<5]"
    by (simp add: slots_def cell_slots_def BMS_CELL_COUNT_def take_map)
  then show ?thesis by (metis append_take_drop_id)
qed


definition pack_unverified :: BmsPackData where
  "pack_unverified = \<lparr>BMS_cellVoltageMv = replicate 24 65535, BMS_cellTempC = replicate 24 0,
     BMS_packCurrentMa = 0, BMS_isValid = True\<rparr>"


end
