(* ===== verification/Hmi_Task.thy ===== *)
theory Hmi_Task
  imports Display_Screen Nextion_Packet Vcu_Logic Relay_Manager "HOL-Library.Signed_Division"
begin

text \<open>
  The task \<open>vTask_HMI_Display\<close> (\<open>src/main.cpp\<close>): start-up with retries, and the iteration that
  refreshes the driver's page and the cell page and forwards operator commands. What an iteration
  reads from the other tasks and from the hardware is its input record: the sensor queue is peeked
  twice, once for each page. Outputs are the UART writes, the posted events and the log lines.
\<close>

section \<open>State, inputs and outputs\<close>

record HmiTask =
  HT_display :: DisplayHMI
  HT_incomingCommand :: u8
  HT_hmiCache :: BmsNextionCache
  HT_lastCellUpdateMs :: u32
  HT_firstRun :: bool

record hmi_in =
  IN_hmiQueue :: bool
  IN_screenPeek :: "TelemetryData option"
  IN_cellPeek :: "TelemetryData option"
  IN_vcuState :: VcuState
  IN_contactors :: bool
  IN_nowMs :: u32
  IN_touch :: "u8 list"

datatype hmi_log =
    LogHmiRetry
  | LogHmiDegraded
  | LogHmiCommand string
  | LogHmiUnknown u8

datatype hmi_out = HmiWrite uart_write | HmiPost VcuEvent | HmiLog hmi_log

definition HmiTask_start :: "DisplayHMI \<Rightarrow> HmiTask" where
  "HmiTask_start disp = \<lparr>HT_display = disp, HT_incomingCommand = 0,
     HT_hmiCache = BmsNextionCache_new, HT_lastCellUpdateMs = 0, HT_firstRun = True\<rparr>"

section \<open>Start-up\<close>

text \<open>
  The retry loop: \<open>n\<close> attempts are left, \<open>r\<close> have failed; \<open>env k\<close> is what the driver calls and the
  UART deliver to the \<open>k\<close>-th attempt.
\<close>

fun hmi_start_loop ::
  "nat \<Rightarrow> nat \<Rightarrow> (nat \<Rightarrow> (bool \<times> bool \<times> bool) \<times> u8 list \<times> u8 list) \<Rightarrow> DisplayHMI
     \<Rightarrow> bool \<times> DisplayHMI \<times> hmi_out list" where
  "hmi_start_loop 0 r env disp = (False, disp, [HmiLog LogHmiDegraded])"
| "hmi_start_loop (Suc n) r env disp =
     (case env r of (oks, rx1, rx2) \<Rightarrow>
        let (ok, disp1, ws, rest) = DisplayHMI_begin oks rx1 rx2 disp;
            o1 = map HmiWrite ws
        in if ok then (True, disp1, o1)
           else
             let (ok2, disp2, o2) = hmi_start_loop n (Suc r) env disp1
             in (ok2, disp2, o1 @ (if r = 0 then [HmiLog LogHmiRetry] else []) @ o2))"

definition HMI_MAX_ATTEMPTS :: nat where [aks_config]: "HMI_MAX_ATTEMPTS = 5"

definition hmi_start ::
  "(nat \<Rightarrow> (bool \<times> bool \<times> bool) \<times> u8 list \<times> u8 list) \<Rightarrow> bool \<times> HmiTask \<times> hmi_out list" where
  "hmi_start env =
     (let (ok, disp, os) = hmi_start_loop HMI_MAX_ATTEMPTS 0 env DisplayHMI_new
      in (ok, HmiTask_start disp, os))"

section \<open>The driver's page\<close>

fun HMI_mapVcuState :: "VcuState \<Rightarrow> HMI_VcuState" where
  "HMI_mapVcuState VS_INIT = HMI_INIT"
| "HMI_mapVcuState VS_IDLE = HMI_IDLE"
| "HMI_mapVcuState VS_READY = HMI_READY"
| "HMI_mapVcuState VS_DRIVE = HMI_DRIVE"
| "HMI_mapVcuState VS_EMERGENCY_STOP = HMI_EMERGENCY_STOP"
| "HMI_mapVcuState VS_FAULT = HMI_FAULT"

definition HMI_areAllContactorsClosed :: "RelayManager \<Rightarrow> bool" where
  "HMI_areAllContactorsClosed r =
     list_all (\<lambda>channel. getRelayState (of_nat channel) r) [0..<RELAY_TOTAL_CHANNELS]"

text \<open>The part of the screen data that comes from a snapshot.\<close>

definition screen_of_telemetry :: "TelemetryData \<Rightarrow> HMI_DisplayData \<Rightarrow> HMI_DisplayData" where
  "screen_of_telemetry t d = d\<lparr>
     HMI_currentSpeed := TEL_speedKmhX10 t div 10,
     HMI_currentBattery := HMI_batteryDisplayValue HMI_SOC_SOURCE_VERIFIED (TEL_bmsDataValid t)
       (TEL_bmsSocHundredths t),
     HMI_motorRpm := TEL_motorRpm t,
     HMI_motorErrorFlags := TEL_motorErrorFlags t,
     HMI_motorDataValid := TEL_motorDataValid t,
     HMI_motorTimeoutActive := TEL_motorTimeoutActive t,
     HMI_bmsTemperatureC := HMI_temperatureDisplayValue HMI_TEMP_SOURCE_VERIFIED
       (TEL_bmsDataValid t) (scast (TEL_bmsTempHighestC t)),
     HMI_bmsPackVoltageDeciV := TEL_bmsPackVoltageDeciV t,
     HMI_packCurrentDeciA := HMI_currentDisplayValue HMI_CURRENT_SOURCE_VERIFIED
       (TEL_bmsDataValid t) (word_of_int (sint (TEL_bmsCurrentCentiMa t) sdiv 100))\<rparr>"

definition hmi_screen_data :: "hmi_in \<Rightarrow> HMI_DisplayData" where
  "hmi_screen_data i =
     (let d = HMI_DisplayData_zero\<lparr>HMI_currentBattery := HMI_BATTERY_NO_DATA,
            HMI_bmsTemperatureC := HMI_TEMP_NO_DATA,
            HMI_packCurrentDeciA := HMI_CURRENT_NO_DATA\<rparr>;
          d1 = (if IN_hmiQueue i then
                  (case IN_screenPeek i of Some t \<Rightarrow> screen_of_telemetry t d | None \<Rightarrow> d)
                else d)
      in d1\<lparr>HMI_vcuState := HMI_mapVcuState (IN_vcuState i),
            HMI_contactorClosed := IN_contactors i\<rparr>)"

section \<open>The cell page\<close>

definition BMS_emitNextionCommand :: "uart_write \<Rightarrow> uart_write list" where
  "BMS_emitNextionCommand w = w # HMI_sendEndBytes"

text \<open>\<open>BmsPackData BMS_raw = {}\<close>, then what the two paths put into it and the computed values.\<close>

definition BmsPackData_zero :: BmsPackData where
  "BmsPackData_zero = \<lparr>BMS_cellVoltageMv = replicate BMS_CELL_COUNT 0,
     BMS_cellTempC = replicate BMS_CELL_COUNT 0, BMS_packCurrentMa = 0, BMS_isValid = False\<rparr>"

definition cell_page_data :: "bool \<Rightarrow> TelemetryData option \<Rightarrow> BmsPackData \<times> BmsComputed" where
  "cell_page_data verified peek =
     (let t = (case peek of Some t \<Rightarrow> t | None \<Rightarrow> TelemetryData_zero);
          bmsValid = (peek \<noteq> None \<and> TEL_bmsDataValid t);
          raw = BmsPackData_zero\<lparr>BMS_isValid := bmsValid\<rparr>
      in if bmsValid \<and> verified then
           let raw1 = raw\<lparr>
                 BMS_packCurrentMa := word_of_int (sint (TEL_bmsCurrentCentiMa t) sdiv 100),
                 BMS_cellVoltageMv := replicate BMS_CELL_COUNT
                   (of_nat (unat (TEL_bmsPackVoltageDeciV t) * 100 div BMS_CELL_COUNT)),
                 BMS_cellTempC := replicate BMS_CELL_COUNT (scast (TEL_bmsTempHighestC t))\<rparr>;
               bc = computePack raw1
           in (raw1, bc\<lparr>BC_cellMaxMv := TEL_bmsCellVoltageMaxDeciMv t div 10,
                        BC_cellMinMv := TEL_bmsCellVoltageMinDeciMv t div 10\<rparr>)
         else
           (raw\<lparr>BMS_cellVoltageMv := replicate BMS_CELL_COUNT HMI_CELL_VOLTAGE_NO_DATA\<rparr>,
            BmsComputed_zero\<lparr>BC_balanceFlag := replicate BMS_CELL_COUNT False,
              BC_cellMaxMv := HMI_CELL_VOLTAGE_NO_DATA, BC_cellMinMv := HMI_CELL_VOLTAGE_NO_DATA,
              BC_warningLevel := (if bmsValid then BMS_WARN_OK else BMS_WARN_CRITICAL)\<rparr>))"

definition HMI_CELL_PAGE_BUDGET :: nat where [aks_config]: "HMI_CELL_PAGE_BUDGET = 90"

definition hmi_cell_page :: "hmi_in \<Rightarrow> bool \<Rightarrow> HmiTask \<Rightarrow> HmiTask \<times> uart_write list" where
  "hmi_cell_page i forceFromReset s =
     (if \<not> IN_hmiQueue i then (s, [])
      else
        let (raw, bc) = cell_page_data HMI_CELL_VOLTAGE_SOURCE_VERIFIED (IN_cellPeek i);
            forceRefresh = (HT_firstRun s \<or> forceFromReset);
            updateCells = (forceRefresh \<or> 1000 \<le> IN_nowMs i - HT_lastCellUpdateMs s);
            s1 = (if forceRefresh then s\<lparr>HT_firstRun := False, HT_lastCellUpdateMs := IN_nowMs i\<rparr>
                  else if updateCells then s\<lparr>HT_lastCellUpdateMs := IN_nowMs i\<rparr> else s);
            (cache, emitted) = buildBmsNextionCommands bc raw (HT_hmiCache s1) forceRefresh
               updateCells HMI_CELL_PAGE_BUDGET HMI_CELL_VOLTAGE_SOURCE_VERIFIED
        in (s1\<lparr>HT_hmiCache := cache\<rparr>, concat (map BMS_emitNextionCommand emitted)))"

section \<open>Operator commands\<close>

definition hmi_command :: "u8 \<Rightarrow> hmi_out list" where
  "hmi_command cmd =
     (if cmd = HMI_CMD_START then [HmiLog (LogHmiCommand ''START''), HmiPost VE_START_REQUEST]
      else if cmd = HMI_CMD_RESET then [HmiLog (LogHmiCommand ''RESET''), HmiPost VE_RESET]
      else if cmd = HMI_CMD_EMERGENCY_STOP then
        [HmiLog (LogHmiCommand ''EMERGENCY STOP''), HmiPost VE_EMERGENCY_STOP]
      else if cmd = HMI_CMD_DRIVE_ENABLE then
        [HmiLog (LogHmiCommand ''DRIVE ENABLE''), HmiPost VE_DRIVE_ENABLE]
      else [HmiLog (LogHmiUnknown cmd)])"

section \<open>The iteration\<close>

definition hmi_step :: "hmi_in \<Rightarrow> HmiTask \<Rightarrow> HmiTask \<times> hmi_out list" where
  "hmi_step i s =
     (let (bmsForce, disp1) = takeNextionResetFlag (HT_display s);
          (disp2, ws1) = updateScreen (hmi_screen_data i) disp1;
          (s2, ws2) = hmi_cell_page i bmsForce (s\<lparr>HT_display := disp2\<rparr>);
          (got, cmd, disp3) = readTouchCommand (IN_touch i) (HT_incomingCommand s2) (HT_display s2)
      in (s2\<lparr>HT_display := disp3, HT_incomingCommand := cmd\<rparr>,
          map HmiWrite ws1 @ map HmiWrite ws2 @ (if got then hmi_command cmd else [])))"

end
