(* ===== verification/Driver_Setup.thy ===== *)
theory Driver_Setup
  imports Hmi_Task Can_Manager Relay_Manager Board_Setup
begin

text \<open>
  The driver calls of \<open>CanManager::begin\<close>, \<open>DisplayHMI::begin\<close> and \<open>RelayManager::begin\<close> with
  their arguments and results, in the order they are made, and what of the acquired resources is
  held afterwards. The definitions of \<open>Can_Manager\<close>, \<open>Display_Hmi\<close> and \<open>Relay_Manager\<close> say what the
  same functions do to the state. Pins and rates are those of \<open>include/SystemConfig.h\<close>.
\<close>

section \<open>Pins\<close>

definition CAN_TX_PIN :: nat where [aks_config]: "CAN_TX_PIN = 5"
definition CAN_RX_PIN :: nat where [aks_config]: "CAN_RX_PIN = 4"
definition HMI_UART_NUM :: nat where [aks_config]: "HMI_UART_NUM = 1"
definition HMI_TX_PIN :: nat where [aks_config]: "HMI_TX_PIN = 33"
definition HMI_RX_PIN :: nat where [aks_config]: "HMI_RX_PIN = 32"
definition RELAY_SPI_MOSI :: nat where [aks_config]: "RELAY_SPI_MOSI = 23"
definition RELAY_SPI_MISO :: nat where [aks_config]: "RELAY_SPI_MISO = 19"
definition RELAY_SPI_CLK :: nat where [aks_config]: "RELAY_SPI_CLK = 18"
definition RELAY_SPI_CS :: nat where [aks_config]: "RELAY_SPI_CS = 14"

section \<open>The calls\<close>

text \<open>Each call that can fail carries its success as its last argument.\<close>

datatype driver_call =
    MutexCreate bool
  | MutexDelete
  | TwaiInstall nat nat bool
  | TwaiStart bool
  | TwaiUninstall
  | UartParamConfig nat u32 bool
  | UartSetPin nat nat nat bool
  | UartDriverInstall nat nat nat bool
  | SpiBusInit nat nat nat bool
  | SpiAddDevice nat u32 bool

definition can_begin_calls :: "bool \<Rightarrow> bool \<Rightarrow> bool \<Rightarrow> CanManager \<Rightarrow> driver_call list" where
  "can_begin_calls mutex_ok install_ok start_ok c =
     (if CM_isInitialized c then []
      else if \<not> mutex_ok then [MutexCreate False]
      else if \<not> install_ok
        then [MutexCreate True, TwaiInstall CAN_TX_PIN CAN_RX_PIN False, MutexDelete]
      else if \<not> start_ok
        then [MutexCreate True, TwaiInstall CAN_TX_PIN CAN_RX_PIN True, TwaiStart False,
              TwaiUninstall, MutexDelete]
      else [MutexCreate True, TwaiInstall CAN_TX_PIN CAN_RX_PIN True, TwaiStart True])"

definition hmi_begin_calls :: "bool \<times> bool \<times> bool \<Rightarrow> DisplayHMI \<Rightarrow> driver_call list" where
  "hmi_begin_calls oks st =
     (case oks of (param_ok, pin_ok, install_ok) \<Rightarrow>
        if HMI_isInitialized st then []
        else UartParamConfig HMI_UART_NUM 9600 param_ok #
          (if \<not> param_ok then []
           else UartSetPin HMI_UART_NUM HMI_TX_PIN HMI_RX_PIN pin_ok #
             (if \<not> pin_ok then [] else [UartDriverInstall HMI_UART_NUM 256 256 install_ok])))"

definition relay_begin_calls :: "bool \<Rightarrow> bool \<Rightarrow> driver_call list" where
  "relay_begin_calls bus_ok dev_ok =
     SpiBusInit RELAY_SPI_MOSI RELAY_SPI_MISO RELAY_SPI_CLK bus_ok #
       (if \<not> bus_ok then [] else [SpiAddDevice RELAY_SPI_CS 1000000 dev_ok])"

text \<open>The retry loop of the display task, with the calls of all its rounds.\<close>

fun hmi_start_calls ::
  "nat \<Rightarrow> nat \<Rightarrow> (nat \<Rightarrow> (bool \<times> bool \<times> bool) \<times> u8 list \<times> u8 list) \<Rightarrow> DisplayHMI \<Rightarrow> driver_call list" where
  "hmi_start_calls 0 r env disp = []"
| "hmi_start_calls (Suc n) r env disp =
     (case env r of (oks, rx1, rx2) \<Rightarrow>
        let (ok, disp1, ws, rest) = DisplayHMI_begin oks rx1 rx2 disp
        in hmi_begin_calls oks disp @ (if ok then [] else hmi_start_calls n (Suc r) env disp1))"

section \<open>What is held\<close>

text \<open>How many mutexes, CAN drivers and running CAN drivers a sequence of calls leaves behind.\<close>

fun ledger :: "driver_call \<Rightarrow> int \<times> int \<times> int \<Rightarrow> int \<times> int \<times> int" where
  "ledger (MutexCreate ok) (m, d, r) = (m + of_bool ok, d, r)"
| "ledger MutexDelete (m, d, r) = (m - 1, d, r)"
| "ledger (TwaiInstall tx rx ok) (m, d, r) = (m, d + of_bool ok, r)"
| "ledger (TwaiStart ok) (m, d, r) = (m, d, r + of_bool ok)"
| "ledger TwaiUninstall (m, d, r) = (m, d - 1, r)"
| "ledger _ h = h"

definition installs :: "driver_call list \<Rightarrow> driver_call list" where
  "installs cs = filter (\<lambda>c. case c of UartDriverInstall u rx tx ok \<Rightarrow> ok | _ \<Rightarrow> False) cs"

lemma installs_simps [simp]:
  "installs [] = []" "installs (xs @ ys) = installs xs @ installs ys"
  by (simp_all add: installs_def)

text \<open>\<open>begin\<close> called again and again, whatever its driver calls return.\<close>

fun can_begins :: "(bool \<times> bool \<times> bool) list \<Rightarrow> CanManager \<Rightarrow> CanManager \<times> driver_call list" where
  "can_begins [] c = (c, [])"
| "can_begins ((m, i, s) # rs) c =
     (let (ok, c1, os) = CanManager_begin m i s c;
          (c2, cs) = can_begins rs c1
      in (c2, can_begin_calls m i s c @ cs))"

definition held_by :: "CanManager \<Rightarrow> int \<times> int \<times> int" where
  "held_by c = (of_bool (CM_mutex c), of_bool (CM_isInitialized c), of_bool (CM_isInitialized c))"

lemma begin_ledger:
  assumes "CM_mutex c = CM_isInitialized c"
  shows "fold ledger (can_begin_calls m i s c) (held_by c) = held_by (fst (snd (CanManager_begin m i s c)))"
    "CM_mutex (fst (snd (CanManager_begin m i s c))) = CM_isInitialized (fst (snd (CanManager_begin m i s c)))"
  using assms by (simp_all add: can_begin_calls_def CanManager_begin_def held_by_def)

lemma begins_ledger:
  "CM_mutex c = CM_isInitialized c \<Longrightarrow>
   fold ledger (snd (can_begins rs c)) (held_by c) = held_by (fst (can_begins rs c)) \<and>
   CM_mutex (fst (can_begins rs c)) = CM_isInitialized (fst (can_begins rs c))"
proof (induction rs arbitrary: c)
  case (Cons r rs)
  obtain m i s where r: "r = (m, i, s)" by (metis prod_cases3)
  show ?case using Cons.IH [OF begin_ledger(2) [OF Cons.prems, of m i s]] begin_ledger(1) [OF Cons.prems, of m i s]
    by (simp add: r case_prod_beta Let_def)
qed simp

lemma begins_stay:
  "CM_isInitialized c \<Longrightarrow> fst (can_begins rs c) = c \<and> snd (can_begins rs c) = []"
proof (induction rs arbitrary: c)
  case (Cons r rs)
  then show ?case by (cases r) (simp add: CanManager_begin_def can_begin_calls_def)
qed simp

lemma begins_succeed:
  "CM_isInitialized (fst (can_begins rs c)) \<longleftrightarrow> CM_isInitialized c \<or> (True, True, True) \<in> set rs"
proof (induction rs arbitrary: c)
  case (Cons r rs)
  obtain m i s where r: "r = (m, i, s)" by (metis prod_cases3)
  show ?case using Cons.IH [of "fst (snd (CanManager_begin m i s c))"]
    by (simp add: r case_prod_beta Let_def) (auto simp: CanManager_begin_def)
qed simp

text \<open>The display's loop: the driver is installed in the round that succeeds and in no other.\<close>

lemma hmi_begin_installs:
  "\<not> HMI_isInitialized st \<Longrightarrow>
   installs (hmi_begin_calls oks st) =
     (if fst (DisplayHMI_begin oks rx1 rx2 st) then [UartDriverInstall HMI_UART_NUM 256 256 True] else [])"
  by (cases oks) (simp add: hmi_begin_calls_def DisplayHMI_begin_def installs_def)

lemma hmi_begin_keeps:
  "\<not> fst (DisplayHMI_begin oks rx1 rx2 st) \<Longrightarrow> fst (snd (DisplayHMI_begin oks rx1 rx2 st)) = st"
  by (cases oks) (auto simp: DisplayHMI_begin_def split: if_splits)

lemma hmi_loop_installs:
  "\<not> HMI_isInitialized disp \<Longrightarrow>
   installs (hmi_start_calls n r env disp) =
     (if fst (hmi_start_loop n r env disp) then [UartDriverInstall HMI_UART_NUM 256 256 True] else [])"
proof (induction n arbitrary: r disp)
  case (Suc n)
  obtain oks rx1 rx2 where e: "env r = (oks, rx1, rx2)" by (metis prod_cases3)
  show ?case
    using Suc.IH [OF Suc.prems, of "Suc r"] hmi_begin_installs [OF Suc.prems, of oks rx1 rx2]
      hmi_begin_keeps [of oks rx1 rx2 disp]
    by (simp add: e case_prod_beta Let_def)
qed simp

section \<open>Pins are used once\<close>

fun call_pins :: "driver_call \<Rightarrow> nat list" where
  "call_pins (TwaiInstall tx rx ok) = [tx, rx]"
| "call_pins (UartSetPin u tx rx ok) = [tx, rx]"
| "call_pins (SpiBusInit mosi miso clk ok) = [mosi, miso, clk]"
| "call_pins (SpiAddDevice cs hz ok) = [cs]"
| "call_pins _ = []"

definition radio_pins :: "nat list" where
  "radio_pins = [LORA_TX_PIN, LORA_RX_PIN, LORA_AUX_PIN, LORA_M0_PIN, LORA_M1_PIN]"

lemma board_pins_distinct:
  "distinct (concat (map call_pins (can_begin_calls True True True CanManager_new @
      hmi_begin_calls (True, True, True) DisplayHMI_new @ relay_begin_calls True True)) @ radio_pins) \<and>
   HMI_UART_NUM \<noteq> LORA_UART_NUM"
  by (simp add: can_begin_calls_def hmi_begin_calls_def relay_begin_calls_def CanManager_new_def
      DisplayHMI_new_def radio_pins_def aks_config)

section \<open>Properties\<close>

text \<open>
  C40: \<open>CanManager::begin\<close> leaks nothing and acquires nothing twice, however often it is called and
  whatever its driver calls return: the mutexes created and not deleted, the CAN drivers installed
  and not uninstalled, and the successful starts are all one if some call of \<open>begin\<close> found
  everything succeeding, and none otherwise; and the receiver is initialised, and holds its mutex, in
  exactly that case.
\<close>

lemma can_begin_leaks_nothing:
  "let (c, calls) = can_begins rs (setEventCallback cb CanManager_new); good = (True, True, True) \<in> set rs
   in fold ledger calls (0, 0, 0) = (of_bool good, of_bool good, of_bool good) \<and>
      CM_isInitialized c = good \<and> CM_mutex c = good"
proof -
  let ?c = "setEventCallback cb CanManager_new"
  have new: "CM_mutex ?c = CM_isInitialized ?c" "held_by ?c = (0, 0, 0)" "\<not> CM_isInitialized ?c"
    by (simp_all add: setEventCallback_def CanManager_new_def held_by_def)
  show ?thesis using begins_ledger [OF new(1), of rs] begins_succeed [of rs ?c] new(2,3)
    by (simp add: case_prod_beta Let_def held_by_def)
qed

text \<open>
  The display task installs its UART driver at most once in its five attempts: exactly once, with
  256-byte buffers on UART 1, when the start-up succeeds, and never when it gives up. (The radio task's
  loop has no such guarantee.)
\<close>

lemma hmi_driver_installed_once:
  "installs (hmi_start_calls HMI_MAX_ATTEMPTS 0 env DisplayHMI_new) =
     (if fst (hmi_start env) then [UartDriverInstall 1 256 256 True] else [])"
proof -
  have "\<not> HMI_isInitialized DisplayHMI_new" by (simp add: DisplayHMI_new_def)
  from hmi_loop_installs [OF this, of HMI_MAX_ATTEMPTS 0 env] show ?thesis
    by (simp add: hmi_start_def case_prod_beta Let_def HMI_UART_NUM_def)
qed

end
