(* ===== verification/Hmi_Safety.thy ===== *)
theory Hmi_Safety
  imports Hmi_Task
begin

text \<open>
  What an iteration of the display task guarantees: the driver's page shows the current data, with
  the values that have no verified source blanked out, undisturbed by the writes of the cell page;
  and the operator's first command of a scan is posted, further ones are lost.
\<close>

section \<open>The writes of the cell page\<close>

definition slot_key :: "bms_slot \<Rightarrow> string" where
  "slot_key s = (case slot_name s of (nm, index) \<Rightarrow>
     nm @ (case index of Some i \<Rightarrow> fmt_u i | None \<Rightarrow> []) @ ''.val'')"

lemma slot_command_key: "slot_command s v = slot_key s @ CHR ''='' # fmt_d (int v)"
  by (simp add: slot_command_def slot_key_def case_prod_beta)

lemma fmt_u_plain: "CHR 0xFF \<notin> set (fmt_u i)" "CHR ''='' \<notin> set (fmt_u i)"
  using set_fmt_u [of "CHR 0xFF" i] set_fmt_u [of "CHR ''=''" i] by (auto simp: is_digit_def)

lemma slot_key_plain: "CHR 0xFF \<notin> set (slot_key s)" "CHR ''='' \<notin> set (slot_key s)"
  using fmt_u_plain by (cases s; simp add: slot_key_def)+

definition slot_write :: "uart_write \<Rightarrow> bool" where
  "slot_write w \<longleftrightarrow> (\<exists>s v. s \<in> set slots \<and> v < 65536 \<and>
     w = (slot_command s v, length (slot_command s v)))"

lemma nx_slot_writes:
  assumes "list_all slot_write (NX_emitted r)" "s \<in> set slots" "in_range want"
  shows "list_all slot_write (NX_emitted (nx_slot m f want s r))"
proof -
  have v: "want s < 65536"
    using assms(3) slot_range_le [of s] by (auto simp: in_range_def intro: less_le_trans)
  have "length (slot_command s (want s)) \<le> 17"
    using slots_index [OF assms(2)] v by (intro length_slot_command) force+
  then have "snprintf 40 (slot_command s (want s)) =
      (slot_command s (want s), length (slot_command s (want s)))"
    by (intro snprintf_fits) simp
  then show ?thesis
    using assms(1,2) v by (auto simp: nx_slot_def emitAndCheck_def Let_def slot_write_def)
qed

lemma nx_fold_writes:
  "list_all slot_write (NX_emitted r) \<Longrightarrow> set ss \<subseteq> set slots \<Longrightarrow> in_range want \<Longrightarrow>
   list_all slot_write (NX_emitted (fold (nx_slot m f want) ss r))"
  by (induction ss arbitrary: r) (simp_all add: nx_slot_writes)

lemma buildBms_writes:
  "list_all slot_write (snd (buildBmsNextionCommands bc raw c f u m ver))"
proof -
  have "in_range (wanted bc raw ver)" by (simp add: in_range_def wanted_range)
  moreover have "set cell_slots \<subseteq> set slots" "set summary_slots \<subseteq> set slots"
    by (auto simp: slots_def)
  ultimately show ?thesis
    by (simp add: buildBmsNextionCommands_def Let_def nx_pass_def nx_fold_writes nx_start_def)
qed

text \<open>The attributes of the cell page, and those of the driver's page.\<close>

definition cell_key :: "string \<Rightarrow> bool" where
  "cell_key k \<longleftrightarrow> k \<noteq> [] \<and> hd k \<in> {CHR ''c'', CHR ''j'', CHR ''b'', CHR ''w''} \<and> last k = CHR ''l''"

lemma slot_key_cell: "cell_key (slot_key s)"
  by (cases s) (simp_all add: cell_key_def slot_key_def)

lemma shown_not_cell: "(k, v) \<in> set (shown d) \<Longrightarrow> \<not> cell_key k"
  by (auto simp: shown_def cell_key_def)

lemma nextion_slot_write:
  assumes "slot_write w"
  shows "\<exists>k v. cell_key k \<and>
    (\<forall>cs scr. nextion (wire (BMS_emitNextionCommand w) @ cs) scr = nextion cs (scr(k \<mapsto> v)))"
proof -
  obtain s v where w: "w = (slot_command s v, length (slot_command s v))"
    using assms by (auto simp: slot_write_def)
  have "nextion (wire (BMS_emitNextionCommand w) @ cs) scr =
      nextion cs (scr(slot_key s \<mapsto> fmt_d (int v)))" for cs scr
    using nextion_command [of "slot_key s" "fmt_d (int v)" cs scr] slot_key_plain fmt_d_no_ff
    by (simp add: w BMS_emitNextionCommand_def HMI_sendEndBytes_def slot_command_key)
  then show ?thesis using slot_key_cell by blast
qed

lemma nextion_cell_page:
  "list_all slot_write ws \<Longrightarrow> \<not> cell_key k \<Longrightarrow>
   nextion (wire (concat (map BMS_emitNextionCommand ws))) scr k = scr k"
proof (induction ws arbitrary: scr)
  case (Cons w ws)
  obtain k' v where "cell_key k'"
    "nextion (wire (BMS_emitNextionCommand w) @ wire (concat (map BMS_emitNextionCommand ws))) scr =
      nextion (wire (concat (map BMS_emitNextionCommand ws))) (scr(k' \<mapsto> v))"
    using nextion_slot_write [of w] Cons.prems by auto
  with Cons show ?case by auto
qed simp

lemma cell_page_frame [simp]:
  "HT_display (fst (hmi_cell_page i f s)) = HT_display s"
  "HT_incomingCommand (fst (hmi_cell_page i f s)) = HT_incomingCommand s"
  by (simp_all add: hmi_cell_page_def Let_def case_prod_beta)

lemma cell_page_writes:
  "\<exists>ws. snd (hmi_cell_page i f s) = concat (map BMS_emitNextionCommand ws) \<and> list_all slot_write ws"
  using buildBms_writes
  by (cases "IN_hmiQueue i")
    (simp_all add: hmi_cell_page_def Let_def case_prod_beta exI [of _ "[]"], blast)

section \<open>The scan for commands\<close>

text \<open>The commands completed among the given events, in their order.\<close>

definition touches :: "(HMI_RxEvent \<times> u8) list \<Rightarrow> u8 list" where
  "touches evs = map snd (filter (\<lambda>ev. fst ev = RX_TOUCH) evs)"

lemma touches_simps [simp]:
  "touches [] = []"
  "touches (ev # evs) = (if fst ev = RX_TOUCH then snd ev # touches evs else touches evs)"
  by (simp_all add: touches_def)

lemma touch_scan_state:
  "HMI_rxState (snd (snd (touch_scan bs got cmd st))) = rx_after (HMI_rxState st) bs"
  "HMI_isInitialized (snd (snd (touch_scan bs got cmd st))) = HMI_isInitialized st"
  "HMI_lastScreenData (snd (snd (touch_scan bs got cmd st))) = HMI_lastScreenData st"
  by (induction bs arbitrary: got cmd st) (simp_all add: Let_def case_prod_beta)

lemma touch_scan_cache:
  "HMI_hasCachedScreen (snd (snd (touch_scan bs got cmd st))) \<longrightarrow> HMI_hasCachedScreen st"
proof (induction bs arbitrary: got cmd st)
  case (Cons b bs)
  let ?r = "HMI_rxClassifyByte b 0 (HMI_rxState st)"
  let ?st1 = "st\<lparr>HMI_rxState := fst ?r\<rparr>"
  let ?st2 = "?st1\<lparr>HMI_hasCachedScreen := False, HMI_nextionResetPending := True\<rparr>"
  show ?case
    using Cons.IH [of got cmd ?st2] Cons.IH [of True "snd (snd ?r)" ?st1] Cons.IH [of got cmd ?st1]
    by (simp add: Let_def case_prod_beta del: imp_conjL)
qed simp

lemma touch_scan_command:
  "fst (touch_scan bs got cmd st) \<longleftrightarrow> got \<or> touches (rx_events (HMI_rxState st) bs) \<noteq> []"
  "fst (snd (touch_scan bs got cmd st)) =
     (if got \<or> touches (rx_events (HMI_rxState st) bs) = [] then cmd
      else hd (touches (rx_events (HMI_rxState st) bs)))"
  by (induction bs arbitrary: got cmd st) (simp_all add: Let_def case_prod_beta)

section \<open>The iteration\<close>

definition hmi_writes :: "hmi_out list \<Rightarrow> uart_write list" where
  "hmi_writes os = concat (map (\<lambda>ev. case ev of HmiWrite w \<Rightarrow> [w] | _ \<Rightarrow> []) os)"

definition hmi_posts :: "hmi_out list \<Rightarrow> VcuEvent list" where
  "hmi_posts os = concat (map (\<lambda>ev. case ev of HmiPost e \<Rightarrow> [e] | _ \<Rightarrow> []) os)"

lemma hmi_out_simps [simp]:
  "hmi_writes [] = []" "hmi_writes (as @ bs) = hmi_writes as @ hmi_writes bs"
  "hmi_writes (map HmiWrite ws) = ws" "hmi_writes (hmi_command c) = []"
  "hmi_posts [] = []" "hmi_posts (as @ bs) = hmi_posts as @ hmi_posts bs"
  "hmi_posts (map HmiWrite ws) = []"
  by (simp_all add: hmi_writes_def hmi_posts_def hmi_command_def comp_def)

text \<open>The events a command byte stands for.\<close>

definition command_event :: "u8 \<Rightarrow> VcuEvent list" where
  "command_event c = (if c = 1 then [VE_START_REQUEST] else if c = 2 then [VE_RESET]
     else if c = 3 then [VE_EMERGENCY_STOP] else if c = 4 then [VE_DRIVE_ENABLE] else [])"

lemma hmi_posts_command [simp]: "hmi_posts (hmi_command c) = command_event c"
  by (simp add: hmi_posts_def hmi_command_def command_event_def HMI_CMD_defs)

lemma takeNextionResetFlag_simps [simp]:
  "HMI_isInitialized (snd (takeNextionResetFlag st)) = HMI_isInitialized st"
  "HMI_rxState (snd (takeNextionResetFlag st)) = HMI_rxState st"
  "cache_ok (snd (takeNextionResetFlag st)) scr = cache_ok st scr"
  by (simp_all add: takeNextionResetFlag_def cache_ok_def)

lemma updateScreen_simps [simp]:
  "HMI_isInitialized (fst (updateScreen d st)) = HMI_isInitialized st"
  "HMI_rxState (fst (updateScreen d st)) = HMI_rxState st"
  by (simp_all add: updateScreen_def Let_def)

lemma readTouchCommand_simps:
  "HMI_isInitialized (snd (snd (readTouchCommand bs c st))) = HMI_isInitialized st"
  "HMI_isInitialized st \<Longrightarrow>
     HMI_rxState (snd (snd (readTouchCommand bs c st))) = rx_after (HMI_rxState st) bs"
  "HMI_isInitialized st \<Longrightarrow> fst (readTouchCommand bs c st) \<longleftrightarrow>
     touches (rx_events (HMI_rxState st) bs) \<noteq> []"
  "HMI_isInitialized st \<Longrightarrow> touches (rx_events (HMI_rxState st) bs) \<noteq> [] \<Longrightarrow>
     fst (snd (readTouchCommand bs c st)) = hd (touches (rx_events (HMI_rxState st) bs))"
  by (auto simp: readTouchCommand_def touch_scan_command touch_scan_state)

lemma readTouchCommand_cache:
  "cache_ok st scr \<Longrightarrow> cache_ok (snd (snd (readTouchCommand bs c st))) scr"
  using touch_scan_cache [of bs False c st]
  by (auto simp: readTouchCommand_def touch_scan_state cache_ok_def)

text \<open>The three parts of an iteration.\<close>

definition hmi_refreshed :: "hmi_in \<Rightarrow> HmiTask \<Rightarrow> DisplayHMI \<times> uart_write list" where
  "hmi_refreshed i s = updateScreen (hmi_screen_data i) (snd (takeNextionResetFlag (HT_display s)))"

definition hmi_cells :: "hmi_in \<Rightarrow> HmiTask \<Rightarrow> HmiTask \<times> uart_write list" where
  "hmi_cells i s = hmi_cell_page i (fst (takeNextionResetFlag (HT_display s)))
     (s\<lparr>HT_display := fst (hmi_refreshed i s)\<rparr>)"

definition hmi_read :: "hmi_in \<Rightarrow> HmiTask \<Rightarrow> bool \<times> u8 \<times> DisplayHMI" where
  "hmi_read i s = readTouchCommand (IN_touch i) (HT_incomingCommand s) (fst (hmi_refreshed i s))"

lemma hmi_step_parts:
  "hmi_step i s =
     ((fst (hmi_cells i s))\<lparr>HT_display := snd (snd (hmi_read i s)),
        HT_incomingCommand := fst (snd (hmi_read i s))\<rparr>,
      map HmiWrite (snd (hmi_refreshed i s)) @ map HmiWrite (snd (hmi_cells i s)) @
      (if fst (hmi_read i s) then hmi_command (fst (snd (hmi_read i s))) else []))"
  by (simp add: hmi_step_def hmi_cells_def hmi_read_def hmi_refreshed_def Let_def case_prod_beta)

lemma hmi_step_display [simp]:
  "HMI_isInitialized (HT_display (fst (hmi_step i s))) = HMI_isInitialized (HT_display s)"
  by (simp add: hmi_step_parts hmi_read_def hmi_refreshed_def readTouchCommand_simps)

lemma no_data_texts:
  "battery_text HMI_BATTERY_NO_DATA = ''--''" "temp_text HMI_TEMP_NO_DATA = ''--''"
  "current_text HMI_CURRENT_NO_DATA = ''--''"
  using no_data_values [of HMI_TEMP_NO_DATA] no_data_values [of HMI_CURRENT_NO_DATA]
  by (simp_all add: battery_text_def temp_text_def current_text_def HMI_BATTERY_NO_DATA_def)

lemma screen_data_blanks:
  "HMI_currentBattery (hmi_screen_data i) = HMI_BATTERY_NO_DATA"
  "HMI_bmsTemperatureC (hmi_screen_data i) = HMI_TEMP_NO_DATA"
  "HMI_packCurrentDeciA (hmi_screen_data i) = HMI_CURRENT_NO_DATA"
  by (simp_all add: hmi_screen_data_def screen_of_telemetry_def Let_def HMI_batteryDisplayValue_def
      HMI_temperatureDisplayValue_def HMI_currentDisplayValue_def HMI_SOC_SOURCE_VERIFIED_def
      HMI_TEMP_SOURCE_VERIFIED_def HMI_CURRENT_SOURCE_VERIFIED_def split: option.split)

lemma screen_shows_cong:
  "(\<And>k. \<not> cell_key k \<Longrightarrow> scr' k = scr k) \<Longrightarrow> screen_shows d scr' = screen_shows d scr"
  using shown_not_cell [of _ _ d] by (auto simp: screen_shows_def list_all_iff)

lemma cache_ok_cong:
  "(\<And>k. \<not> cell_key k \<Longrightarrow> scr' k = scr k) \<Longrightarrow> cache_ok st scr' = cache_ok st scr"
  using screen_shows_cong [of scr' scr] by (simp add: cache_ok_def)

lemma hmi_step_screen:
  assumes "HMI_isInitialized (HT_display s)" "\<not> cell_key k"
  shows "nextion (wire (hmi_writes (snd (hmi_step i s)))) scr k =
    nextion (wire (snd (hmi_refreshed i s))) scr k"
proof -
  obtain ws where ws: "snd (hmi_cells i s) = concat (map BMS_emitNextionCommand ws)" "list_all slot_write ws"
    using cell_page_writes unfolding hmi_cells_def by blast
  have "nextion (wire (hmi_writes (snd (hmi_step i s)))) scr =
      nextion (wire (snd (hmi_cells i s))) (nextion (wire (snd (hmi_refreshed i s))) scr)"
    using assms(1) updateScreen_then [of "snd (takeNextionResetFlag (HT_display s))"]
    by (simp add: hmi_step_parts hmi_refreshed_def)
  then show ?thesis using nextion_cell_page [OF ws(2) assms(2)] ws(1) by simp
qed

lemma hmi_step_posts:
  assumes "HMI_isInitialized (HT_display s)"
  shows "hmi_posts (snd (hmi_step i s)) =
    (case touches (rx_events (HMI_rxState (HT_display s)) (IN_touch i)) of
       [] \<Rightarrow> [] | c # cs \<Rightarrow> command_event c)"
  using assms
  by (simp add: hmi_step_parts hmi_read_def hmi_refreshed_def readTouchCommand_simps split: list.split)

section \<open>Properties\<close>


text \<open>
  C28: an iteration posts the event of the first operator command that the scan of its received
  bytes completes, and no other: every further command in the same scan is lost, an emergency stop
  included.
\<close>

lemma only_first_command_posted:
  assumes "HMI_isInitialized (HT_display s)"
  shows "hmi_posts (snd (hmi_step i s)) =
    (case touches (rx_events (HMI_rxState (HT_display s)) (IN_touch i)) of
       [] \<Rightarrow> [] | c # cs \<Rightarrow> command_event c)"
  by (rule hmi_step_posts [OF assms])

text \<open>A display that has started, and an iteration that reads the given bytes.\<close>

definition hmi_booted :: HmiTask where
  "hmi_booted = HmiTask_start (DisplayHMI_new\<lparr>HMI_isInitialized := True\<rparr>)"

definition hmi_reading :: "u8 list \<Rightarrow> hmi_in" where
  "hmi_reading bytes = \<lparr>IN_hmiQueue = True, IN_screenPeek = Some makeTelemetryDataValid,
     IN_cellPeek = Some makeTelemetryDataValid, IN_vcuState = VS_IDLE, IN_contactors = False,
     IN_nowMs = 0, IN_touch = bytes\<rparr>"

lemma hmi_booted_simps [simp]:
  "HMI_isInitialized (HT_display hmi_booted)" "cache_ok (HT_display hmi_booted) scr"
  "HMI_rxState (HT_display hmi_booted) = HMI_RxState_new"
  by (simp_all add: hmi_booted_def HmiTask_start_def DisplayHMI_new_def cache_ok_def)


lemma only_first_command_posted_witness:
  "hmi_posts (snd (hmi_step (hmi_reading (touch_frame HMI_CMD_START @
     touch_frame HMI_CMD_EMERGENCY_STOP)) hmi_booted)) = [VE_START_REQUEST]"
proof -
  have "HMI_touchState HMI_RxState_new = 0" by (simp add: HMI_RxState_new_def)
  then have "touches (rx_events HMI_RxState_new (touch_frame HMI_CMD_START @
      touch_frame HMI_CMD_EMERGENCY_STOP)) = [HMI_CMD_START, HMI_CMD_EMERGENCY_STOP]"
    using frame_from_idle HMI_commands_plain
    by (simp add: rx_events_append HMI_commands_def)
  then show ?thesis
    using only_first_command_posted [of hmi_booted
        "hmi_reading (touch_frame HMI_CMD_START @ touch_frame HMI_CMD_EMERGENCY_STOP)"]
    by (simp add: hmi_reading_def command_event_def HMI_CMD_START_def)
qed

end
