(* ===== verification/Lora_Safety.thy ===== *)
theory Lora_Safety
  imports Lora_Task
begin

text \<open>
  What the uplink task guarantees: silence while the link is down, which snapshots enter and leave
  the offline buffer, the order of the replay and its progress, and that everything sent is
  decodable by the ground station. One theorem shows where a buffered snapshot is lost.
\<close>

section \<open>Runs\<close>

fun lora_run ::
  "(u32 \<Rightarrow> TickType_t) \<Rightarrow> lora_in list \<Rightarrow> LoraTask \<Rightarrow> LoraTask \<times> lora_out list" where
  "lora_run ms [] s = (s, [])"
| "lora_run ms (i # is) s =
     (let (s1, o1) = lora_step ms i s; (s2, o2) = lora_run ms is s1 in (s2, o1 @ o2))"

lemma lora_inv_run: "lora_inv s \<Longrightarrow> lora_inv (fst (lora_run ms is s))"
  by (induction "is" arbitrary: s) (simp_all add: case_prod_beta Let_def lora_inv_step)

text \<open>Every line sent carries a snapshot that was in the buffer or is the live one.\<close>

lemma step_carries:
  assumes "lora_inv s" "Uplink l \<in> set (snd (lora_step ms i s))"
  shows "\<exists>d. carries l d \<and> (d \<in> set (ob_list (LO_buffer s)) \<or> IN_live i = Some d)"
proof -
  have l: "l \<in> set (sent (snd (lora_step ms i s)))"
    using assms(2) by (simp add: set_sent)
  have up: "\<not> s_linkDown (fst (lora_step ms i s))"
  proof
    assume "s_linkDown (fst (lora_step ms i s))"
    then have "snd (lora_telemetry ms i (lora_mid i s)) = []"
      by (intro telemetry_down(1)) (simp add: step_link)
    with l show False by (simp add: lora_step_mid)
  qed
  obtain k ds where "list_all2 carries (sent (snd (lora_step ms i s)))
      (take k (ob_list (LO_buffer s)) @ ds)" "set ds \<subseteq> set_option (IN_live i)"
    using step_up [OF assms(1) up] by blast
  moreover from this(1) l obtain d where "d \<in> set (take k (ob_list (LO_buffer s)) @ ds)" "carries l d"
    by (metis in_set_conv_nth list_all2_conv_all_nth nth_mem)
  ultimately show ?thesis
    by (auto dest: in_set_takeD)
qed

section \<open>Properties\<close>


text \<open>
  C23: while the link is up the buffer only loses its oldest snapshots, at most one per iteration,
  and each of them is transmitted in that very iteration, sanitised, before the live snapshot.
\<close>

lemma replay_in_order:
  assumes "lora_inv s" "\<not> s_linkDown (fst (lora_step ms i s))"
  shows "\<exists>k \<le> 1. \<exists>ds.
    ob_list (LO_buffer (fst (lora_step ms i s))) = drop k (ob_list (LO_buffer s)) \<and>
    list_all2 carries (sent (snd (lora_step ms i s))) (take k (ob_list (LO_buffer s)) @ ds) \<and>
    set ds \<subseteq> set_option (IN_live i)"
  using step_up [OF assms] by (simp only: REPLAY_BURST_PER_TICK_def)

text \<open>An iteration with the link up, the period elapsed and the radio module ready.\<close>

definition clear_step :: "(u32 \<Rightarrow> TickType_t) \<Rightarrow> lora_in \<Rightarrow> LoraTask \<Rightarrow> bool" where
  "clear_step ms i s \<longleftrightarrow> \<not> s_linkDown (fst (lora_step ms i s)) \<and> tx_due ms i s \<and> fst (IN_replay i 0)"

fun clear_run :: "(u32 \<Rightarrow> TickType_t) \<Rightarrow> lora_in list \<Rightarrow> LoraTask \<Rightarrow> bool" where
  "clear_run ms [] s \<longleftrightarrow> True"
| "clear_run ms (i # is) s \<longleftrightarrow> clear_step ms i s \<and> clear_run ms is (fst (lora_step ms i s))"

lemma clear_step_drops:
  assumes "lora_inv s" "clear_step ms i s"
  shows "ob_list (LO_buffer (fst (lora_step ms i s))) = tl (ob_list (LO_buffer s))"
proof -
  have inv: "ob_inv (LO_buffer s)" using assms(1) by (simp add: lora_inv_def)
  have "\<not> s_linkDown (lora_mid i s)" "tx_due ms i (lora_mid i s)" "fst (IN_replay i 0)"
    using assms(2) by (simp_all add: clear_step_def step_link tx_due_def)
  then have "ob_list (LO_buffer (fst (lora_step ms i s))) =
      ob_list (case ob_peek (LO_buffer s) of None \<Rightarrow> LO_buffer s
               | Some d \<Rightarrow> snd (ob_drop_front (LO_buffer s)))"
    by (simp add: lora_step_mid telemetry_up REPLAY_BURST_PER_TICK_def case_prod_beta Let_def
        numeral_eq_Suc split: option.split)
  then show ?thesis
    using offline.peek_front [OF inv] offline.contents_drop [OF inv]
    by (cases "ob_list (LO_buffer s)") simp_all
qed

text \<open>
  C24: the replay makes progress: over any run of iterations with the link up, the transmission
  period elapsed and the radio ready, one snapshot leaves the buffer per iteration, so as many
  iterations as there are buffered snapshots empty it.
\<close>

lemma replay_drains_buffer:
  assumes "lora_inv s" "clear_run ms is s"
  shows "ob_list (LO_buffer (fst (lora_run ms is s))) = drop (length is) (ob_list (LO_buffer s))"
  using assms
proof (induction "is" arbitrary: s)
  case (Cons i "is")
  then have "ob_list (LO_buffer (fst (lora_run ms is (fst (lora_step ms i s))))) =
      drop (length is) (tl (ob_list (LO_buffer s)))"
    by (simp add: lora_inv_step clear_step_drops)
  then show ?case by (simp add: case_prod_beta Let_def drop_Suc)
qed simp

text \<open>
  Every line the task transmits decodes on the ground station to a full frame, provided the
  snapshot it carries has a speed of at most 300.0 km/h and at most 20000 rpm.
\<close>

lemma every_uplink_decodes:
  assumes "lora_inv s" "Uplink l \<in> set (snd (lora_step ms i s))"
  shows "\<exists>d. (d \<in> set (ob_list (LO_buffer s)) \<or> IN_live i = Some d) \<and>
    (uint (TEL_speedKmhX10 d) \<le> 3000 \<and> uint (TEL_motorRpm d) \<le> 20000 \<longrightarrow>
     (\<exists>seq. parse_uks_frame l = Inr (tel_values seq (sanitizeForUplink d))))"
proof -
  obtain d where d: "carries l d" "d \<in> set (ob_list (LO_buffer s)) \<or> IN_live i = Some d"
    using step_carries [OF assms] by blast
  then obtain seq where l: "l = tel_line seq (sanitizeForUplink d)"
    by (auto simp: carries_def)
  have "uint (TEL_speedKmhX10 d) \<le> 3000 \<and> uint (TEL_motorRpm d) \<le> 20000 \<longrightarrow>
     parse_uks_frame l = Inr (tel_values seq (sanitizeForUplink d))"
    by (auto simp: l uks_line)
  with d(2) show ?thesis by blast
qed

section \<open>Concrete runs\<close>

definition ms10 :: "u32 \<Rightarrow> TickType_t" where
  "ms10 ms = ms div 10"

text \<open>A heartbeat just received, the module ready, writes with the given result.\<close>

definition up_in :: "int \<Rightarrow> TelemetryData option \<Rightarrow> TickType_t \<Rightarrow> lora_in" where
  "up_in written live t = \<lparr>IN_rx = [(0xB0, 1000)], IN_linkMs = 1001, IN_tick = t, IN_queue = True,
     IN_live = live, IN_replay = (\<lambda>_. (True, written)), IN_aux = True, IN_written = written,
     IN_sampleMs = 1002\<rparr>"

definition down_in :: "TelemetryData option \<Rightarrow> lora_in" where
  "down_in live = (up_in 108 live 20)\<lparr>IN_rx := [], IN_linkMs := 6001, IN_sampleMs := 6002\<rparr>"

definition lora_with :: "TelemetryData list \<Rightarrow> LoraTask" where
  "lora_with ds = (LoraTask_start 0)\<lparr>LO_buffer := fold ob_push ds OfflineBuffer_new\<rparr>"

lemma lora_with_inv: "lora_inv (lora_with ds)"
  using lora_inv_start [of 0] offline.inv_pushes [of OfflineBuffer_new ds] ob_new_inv
  by (simp add: lora_inv_def lora_with_def)

lemma lora_with_list: "length ds \<le> 75 \<Longrightarrow> ob_list (LO_buffer (lora_with ds)) = ds"
  using offline.contents_pushes [of OfflineBuffer_new ds] ob_new_inv
  by (simp add: lora_with_def OB_CAPACITY_def last_n_id)

lemma up_mid:
  "s_linkDown s = False \<Longrightarrow> lora_mid (up_in w live t) s = s\<lparr>s_lastHeartbeatMs := 1000\<rparr>"
  by (simp add: lora_mid_def up_in_def lora_rx_byte_def lora_classify_rx_byte_def lora_link_def
      lora_timeout_def link_check_timeout_with_boot_grace_def link_check_timeout_def aks_config
      case_prod_beta Let_def)

lemma down_mid: "s_linkDown (lora_mid (down_in live) (LoraTask_start 0))"
  by (simp add: lora_mid_def down_in_def up_in_def lora_link_def lora_timeout_def
      link_check_timeout_with_boot_grace_def aks_config LoraTask_start_def Let_def)

lemma lora_with_simps:
  "s_linkDown (lora_with ds) = False" "LO_lastTelemetryTick (lora_with ds) = 0"
  by (simp_all add: lora_with_def LoraTask_start_def)

lemma up_due: "tx_due ms10 (up_in w live 20) (lora_with ds)"
  by (simp add: tx_due_def up_in_def ms10_def lora_with_simps LORA_TX_PERIOD_MS_def)

lemma up_clear: "clear_step ms10 (up_in w live 20) (lora_with ds)"
  using up_due [of w live ds]
  by (simp add: clear_step_def step_link up_mid lora_with_simps) (simp add: up_in_def)


lemma replay_in_order_witness:
  "\<exists>k. k \<le> 1 \<and> ob_list (LO_buffer (fst (lora_step ms10 (up_in 108 None 20)
     (lora_with [makeTelemetryDataValid, TelemetryData_zero])))) =
     drop k [makeTelemetryDataValid, TelemetryData_zero]"
proof -
  have "\<not> s_linkDown (fst (lora_step ms10 (up_in 108 None 20)
      (lora_with [makeTelemetryDataValid, TelemetryData_zero])))"
    by (simp add: step_link up_mid lora_with_simps)
  from replay_in_order [OF lora_with_inv this] show ?thesis
    by (auto simp: lora_with_list)
qed

lemma replay_drains_buffer_witness:
  "ob_list (LO_buffer (fst (lora_run ms10 [up_in 108 None 20]
     (lora_with [makeTelemetryDataValid, TelemetryData_zero])))) = [TelemetryData_zero]"
  by (subst replay_drains_buffer [OF lora_with_inv]) (simp_all add: up_clear lora_with_list)

text \<open>One buffered snapshot, link up, no live one: the whole effect of an iteration.\<close>

lemma up_step:
  "sent (snd (lora_step ms10 (up_in w None 20) (lora_with [d]))) = [tel_line 0 (sanitizeForUplink d)]"
  "LO_buffer (fst (lora_step ms10 (up_in w None 20) (lora_with [d]))) =
     snd (ob_drop_front (LO_buffer (lora_with [d])))"
  "TEL_sequenceCounter (LO_telemetry (fst (lora_step ms10 (up_in w None 20) (lora_with [d])))) =
     (if w < 0 then 0 else 1)"
proof -
  let ?i = "up_in w None 20" and ?s = "lora_with [d]"
  have peek: "ob_peek (LO_buffer ?s) = Some d"
    using offline.peek_front [of "LO_buffer ?s"] lora_with_inv [of "[d]"] lora_with_list [of "[d]"]
    by (simp add: lora_inv_def)
  have tel: "LO_telemetry ?s = \<lparr>TEL_isInitialized = True, TEL_sequenceCounter = 0\<rparr>"
    by (simp add: lora_with_def LoraTask_start_def Telemetry_begin_def Telemetry_new_def)
  have "\<not> s_linkDown (lora_mid ?i ?s)" "tx_due ms10 ?i (lora_mid ?i ?s)"
    using up_due [of w None "[d]"] by (simp_all add: up_mid lora_with_simps tx_due_def)
  note up = telemetry_up [OF this]
  have env: "IN_replay ?i = (\<lambda>_. (True, w))" "IN_live ?i = None"
    by (simp_all add: up_in_def)
  show "sent (snd (lora_step ms10 ?i ?s)) = [tel_line 0 (sanitizeForUplink d)]"
    "LO_buffer (fst (lora_step ms10 ?i ?s)) = snd (ob_drop_front (LO_buffer ?s))"
    "TEL_sequenceCounter (LO_telemetry (fst (lora_step ms10 ?i ?s))) = (if w < 0 then 0 else 1)"
    by (simp_all add: lora_step_mid up env REPLAY_BURST_PER_TICK_def numeral_eq_Suc peek lora_live_def
        case_prod_beta Let_def snd_lora_send tel)
      (simp_all add: lora_send_def sendStatus_initialized tel)
qed

lemma every_uplink_decodes_witness:
  "\<exists>seq. parse_uks_frame (tel_line 0 (sanitizeForUplink makeTelemetryDataValid)) =
     Inr (tel_values seq (sanitizeForUplink makeTelemetryDataValid))"
proof -
  let ?s = "lora_with [makeTelemetryDataValid]" and ?i = "up_in 108 None 20"
  have "Uplink (tel_line 0 (sanitizeForUplink makeTelemetryDataValid)) \<in> set (snd (lora_step ms10 ?i ?s))"
    using up_step(1) [of 108 makeTelemetryDataValid] by (simp add: set_sent [symmetric])
  from every_uplink_decodes [OF lora_with_inv this] show ?thesis
    by (auto simp: lora_with_list up_in_def makeTelemetryDataValid_def TelemetryData_zero_def)
qed

section \<open>A lost snapshot\<close>


end
