(* ===== verification/App_Main.thy ===== *)
theory App_Main
  imports Hmi_Safety Can_Safety Vcu_Safety Lora_Safety Vehicle_Speed
begin

text \<open>
  The application (\<open>src/main.cpp\<close>): \<open>app_main\<close> brings up the relays, the vehicle state machine and
  the sensor queue, then four tasks run concurrently. The tasks share the length-one sensor queue,
  the event queue and emergency flag of the state machine, and the relay bank. A step of the
  application is one iteration of one task; any order of steps is possible.
\<close>

section \<open>State\<close>

text \<open>
  \<open>APP_sensorQueue\<close> is \<open>None\<close> for a null handle, else the contents; a task that has ended
  (CAN without a driver) or sleeps forever (display) is \<open>None\<close>.
\<close>

record 'q App =
  APP_vcu :: "'q Vcu"
  APP_bank :: "RelayManager \<times> chip"
  APP_sensorQueue :: "TelemetryData option option"
  APP_can :: "CanManager option"
  APP_hmi :: "HmiTask option"
  APP_lora :: LoraTask

datatype app_out = OutCan can_out | OutVcu vcu_act | OutHmi hmi_out | OutLora lora_out

section \<open>Boot\<close>

text \<open>What the hardware and FreeRTOS deliver during boot and to the starting tasks.\<close>

record 'q boot_in =
  BOOT_bus :: bool
  BOOT_device :: bool
  BOOT_eventQueue :: "'q option"
  BOOT_mutex :: bool
  BOOT_sensorQueue :: bool
  BOOT_can :: "bool \<times> bool \<times> bool"
  BOOT_hmi :: "nat \<Rightarrow> (bool \<times> bool \<times> bool) \<times> u8 list \<times> u8 list"
  BOOT_ms :: u64

definition drive_bank :: "vcu_act list \<Rightarrow> RelayManager \<times> chip \<Rightarrow> RelayManager \<times> chip" where
  "drive_bank acts = fold (exec_cmd bank_on bank_off) (relay_cmds acts)"

definition can_task_start :: "bool \<times> bool \<times> bool \<Rightarrow> CanManager option" where
  "can_task_start oks =
     (case oks of (mutex_ok, install_ok, start_ok) \<Rightarrow>
        let (ok, can, os) = CanManager_begin mutex_ok install_ok start_ok
              (setEventCallback True CanManager_new)
        in if ok then Some can else None)"

text \<open>\<open>Inl\<close>: boot has stopped and no task runs; the relay bank is all there is.\<close>

definition app_main :: "'q boot_in \<Rightarrow> (RelayManager \<times> chip) + 'q App" where
  "app_main i =
     (let (ok, relay) = RelayManager_begin (BOOT_bus i) (BOOT_device i) RelayManager_new;
          bank = attach relay chip_reset
      in if \<not> ok then Inl bank
         else
           let (vcu, acts) = vcu_init (BOOT_eventQueue i) (BOOT_mutex i) Vcu_new;
               bank1 = drive_bank acts bank
           in if \<not> BOOT_sensorQueue i then Inl bank1
              else
                let (hmi_ok, hmi, os) = hmi_start (BOOT_hmi i)
                in Inr \<lparr>APP_vcu = vcu, APP_bank = bank1, APP_sensorQueue = Some None,
                        APP_can = can_task_start (BOOT_can i),
                        APP_hmi = (if hmi_ok then Some hmi else None),
                        APP_lora = LoraTask_start (BOOT_ms i)\<rparr>)"

section \<open>The tasks\<close>

fun CAN_handleEvent :: "CAN_Event \<Rightarrow> VcuEvent list" where
  "CAN_handleEvent CE_FAULT_DETECTED = [VE_FAULT_DETECTED]"
| "CAN_handleEvent CE_NONE = []"

definition can_events :: "can_out list \<Rightarrow> VcuEvent list" where
  "can_events os =
     concat (map (\<lambda>ev. case ev of EventCallback e \<Rightarrow> CAN_handleEvent e | _ \<Rightarrow> []) os)"

definition post_all ::
  "(VcuEvent \<Rightarrow> 'q \<Rightarrow> 'q option) \<Rightarrow> VcuEvent list \<Rightarrow> 'q Vcu \<Rightarrow> 'q Vcu" where
  "post_all send es v = fold (\<lambda>e v. fst (postEvent send e v)) es v"

text \<open>What the CAN task puts into the sensor queue.\<close>

definition can_snapshot :: "u32 \<Rightarrow> CanManager \<Rightarrow> TelemetryData" where
  "can_snapshot now_ms c =
     (let d = getTelemetryData c
      in d\<lparr>TEL_speedKmhX10 := rpmToSpeedKmhX10 (TEL_motorRpm d), TEL_timestampMs := now_ms\<rparr>)"

record can_in =
  IN_alerts :: "(bool \<times> bool) option"
  IN_frames :: "twai_rx list"
  IN_ticks :: "TickType_t \<times> TickType_t \<times> TickType_t"
  IN_stampMs :: u32

definition vTask_CAN_Comm ::
  "(VcuEvent \<Rightarrow> 'q \<Rightarrow> 'q option) \<Rightarrow> (u32 \<Rightarrow> TickType_t) \<Rightarrow> can_in \<Rightarrow> 'q App \<Rightarrow> 'q App \<times> app_out list" where
  "vTask_CAN_Comm send ms i a =
     (case APP_can a of
        None \<Rightarrow> (a, [])
      | Some c \<Rightarrow>
          let (c1, os) = processRxMessages ms (IN_alerts i) (IN_frames i) (IN_ticks i) c;
              a1 = a\<lparr>APP_can := Some c1, APP_vcu := post_all send (can_events os) (APP_vcu a)\<rparr>;
              a2 = (if APP_sensorQueue a1 \<noteq> None
                    then a1\<lparr>APP_sensorQueue := Some (Some (can_snapshot (IN_stampMs i) c1))\<rparr> else a1)
          in (a2, map OutCan os))"

definition vTask_VCU_Logic ::
  "('q \<Rightarrow> (VcuEvent \<times> 'q) option) \<Rightarrow> 'q App \<Rightarrow> 'q App \<times> app_out list" where
  "vTask_VCU_Logic recv a =
     (let v = (case APP_sensorQueue a of
                 Some (Some d) \<Rightarrow> setTelemetryData d (APP_vcu a)
               | _ \<Rightarrow> APP_vcu a);
          (v1, acts) = vcu_run recv v
      in (a\<lparr>APP_vcu := v1, APP_bank := drive_bank acts (APP_bank a)\<rparr>, map OutVcu acts))"

definition vTask_HMI_Display ::
  "(VcuEvent \<Rightarrow> 'q \<Rightarrow> 'q option) \<Rightarrow> u32 \<Rightarrow> u8 list \<Rightarrow> 'q App \<Rightarrow> 'q App \<times> app_out list" where
  "vTask_HMI_Display send now_ms touch a =
     (case APP_hmi a of
        None \<Rightarrow> (a, [])
      | Some h \<Rightarrow>
          let peek = (case APP_sensorQueue a of Some q \<Rightarrow> q | None \<Rightarrow> None);
              i = \<lparr>IN_hmiQueue = (APP_sensorQueue a \<noteq> None), IN_screenPeek = peek,
                   IN_cellPeek = peek, IN_vcuState = getState (APP_vcu a),
                   IN_contactors = HMI_areAllContactorsClosed (fst (APP_bank a)),
                   IN_nowMs = now_ms, IN_touch = touch\<rparr>;
              (h1, os) = hmi_step i h
          in (a\<lparr>APP_hmi := Some h1, APP_vcu := post_all send (hmi_posts os) (APP_vcu a)\<rparr>,
              map OutHmi os))"

text \<open>The sensor queue replaces what the input record says of it.\<close>

definition vTask_LoRa_UKS ::
  "(u32 \<Rightarrow> TickType_t) \<Rightarrow> lora_in \<Rightarrow> 'q App \<Rightarrow> 'q App \<times> app_out list" where
  "vTask_LoRa_UKS ms i a =
     (let (l1, os) = lora_step ms
            (i\<lparr>IN_queue := (APP_sensorQueue a \<noteq> None),
               IN_live := (case APP_sensorQueue a of Some q \<Rightarrow> q | None \<Rightarrow> None)\<rparr>) (APP_lora a)
      in (a\<lparr>APP_lora := l1\<rparr>, map OutLora os))"

section \<open>Runs of the application\<close>

datatype app_step = CanStep can_in | VcuStep | HmiStep u32 "u8 list" | LoraStep lora_in

fun app_iter ::
  "(VcuEvent \<Rightarrow> 'q \<Rightarrow> 'q option) \<Rightarrow> ('q \<Rightarrow> (VcuEvent \<times> 'q) option) \<Rightarrow> (u32 \<Rightarrow> TickType_t) \<Rightarrow>
   app_step \<Rightarrow> 'q App \<Rightarrow> 'q App \<times> app_out list" where
  "app_iter send recv ms (CanStep i) a = vTask_CAN_Comm send ms i a"
| "app_iter send recv ms VcuStep a = vTask_VCU_Logic recv a"
| "app_iter send recv ms (HmiStep now_ms touch) a = vTask_HMI_Display send now_ms touch a"
| "app_iter send recv ms (LoraStep i) a = vTask_LoRa_UKS ms i a"

text \<open>A step as a transition, and the states reached from a boot, with everything put out.\<close>

inductive app_trans for send recv ms where
  can: "(a', os) = vTask_CAN_Comm send ms i a \<Longrightarrow> app_trans send recv ms a (CanStep i) os a'"
| vcu: "(a', os) = vTask_VCU_Logic recv a \<Longrightarrow> app_trans send recv ms a VcuStep os a'"
| hmi: "(a', os) = vTask_HMI_Display send n t a \<Longrightarrow> app_trans send recv ms a (HmiStep n t) os a'"
| lora: "(a', os) = vTask_LoRa_UKS ms i a \<Longrightarrow> app_trans send recv ms a (LoraStep i) os a'"

inductive_cases app_transE:
  "app_trans send recv ms a (CanStep i) os a'" "app_trans send recv ms a VcuStep os a'"
  "app_trans send recv ms a (HmiStep n t) os a'" "app_trans send recv ms a (LoraStep i) os a'"

inductive_simps app_trans_simps:
  "app_trans send recv ms a (CanStep i) os a'" "app_trans send recv ms a VcuStep os a'"
  "app_trans send recv ms a (HmiStep n t) os a'" "app_trans send recv ms a (LoraStep i) os a'"

inductive app_reach for send recv ms boot where
  booted: "app_main boot = Inr a \<Longrightarrow> app_reach send recv ms boot a []"
| step: "app_reach send recv ms boot a os \<Longrightarrow> app_trans send recv ms a st os' a' \<Longrightarrow>
     app_reach send recv ms boot a' (os @ os')"

section \<open>Stack monitoring\<close>

text \<open>
  Each task reports its stack at most once in 30 s; the result is the tick of the last report and
  whether this call reported.
\<close>

definition STACK_LOG_INTERVAL_MS :: u32 where [aks_config]: "STACK_LOG_INTERVAL_MS = 30000"

definition logStackUsage :: "(u32 \<Rightarrow> TickType_t) \<Rightarrow> TickType_t \<Rightarrow> TickType_t \<Rightarrow> TickType_t \<times> bool" where
  "logStackUsage ms now lastLogTick =
     (if ms STACK_LOG_INTERVAL_MS \<le> now - lastLogTick then (now, True) else (lastLogTick, False))"

end
