(* ===== verification/App_Safety.thy ===== *)
theory App_Safety
  imports App_Main
begin

text \<open>
  What holds in every state the application can reach, whatever boot delivers and in whatever order
  the tasks run: the contactors follow the state machine and the display's contactor line is the
  truth, an operator's emergency stop takes effect, and every uplink line decodes. One theorem shows
  that a failed initialisation of the state machine does not lock the contactors.
\<close>

section \<open>The contactors\<close>

lemma post_all_simps [simp]:
  "VCU_state (post_all send es v) = VCU_state v"
  "stopped_open (post_all send es v) = stopped_open v"
  "live_state (post_all send es v) = live_state v"
  "VCU_latestData (post_all send es v) = VCU_latestData v"
  "VCU_dataMutex (post_all send es v) = VCU_dataMutex v"
  "VCU_eventQueue (post_all send es v) = None \<longleftrightarrow> VCU_eventQueue v = None"
  by (induction es arbitrary: v) (simp_all add: post_all_def)

lemma post_all_pending:
  "VCU_eStopPending v \<Longrightarrow> VCU_eStopPending (post_all send es v)"
  by (simp add: post_all_def posts_pending)

text \<open>The commands issued so far, and what they say about the state.\<close>

definition contactors_ok :: "'q Vcu \<Rightarrow> relay_cmd list \<Rightarrow> bool" where
  "contactors_ok v cmds \<longleftrightarrow>
     (stopped_open v \<longrightarrow> ends_with False cmds) \<and> (live_state v \<longrightarrow> ends_with True cmds) \<and>
     (VCU_state v = VS_INIT \<longrightarrow> cmds = [])"

lemma after_poll_stays_init:
  assumes "VCU_state (fst (after_poll recv v)) = VS_INIT"
  shows "VCU_state v = VS_INIT \<and> relay_cmds (snd (after_poll recv v)) = []"
proof -
  have v: "VCU_state v = VS_INIT"
    using assms by (auto simp: after_poll_state event_step_def split: if_splits)
  show ?thesis
  proof (cases "pollEvent recv v")
    case (Some p)
    then obtain e w' where p: "p = (e, w')" by force
    with Some obtain q where "w' = v\<lparr>VCU_eventQueue := Some q\<rparr>" using pollEvent_Some by blast
    with Some p v show ?thesis by (simp add: after_poll_def handleEvent_cmds periodic_cmds)
  qed (simp add: after_poll_def periodic_cmds v)
qed

lemma contactors_ok_after_poll:
  assumes "contactors_ok v cmds"
  shows "contactors_ok (fst (after_poll recv v)) (cmds @ relay_cmds (snd (after_poll recv v)))"
  using assms after_poll_flags [of recv v] after_poll_stays_init [of recv v]
  by (auto simp: contactors_ok_def ends_with_append)

lemma run_stays_init:
  assumes "VCU_state (fst (vcu_run recv v)) = VS_INIT"
  shows "VCU_state v = VS_INIT \<and> relay_cmds (snd (vcu_run recv v)) = []"
proof -
  have "VCU_state v = VS_INIT" and nd: "\<not> estop_due v" "\<not> fault_due v"
    using assms by (auto simp: vcu_run_state event_step_def split: if_splits)
  then show ?thesis
    using assms after_poll_stays_init [of recv "fst (updateWarning (tick v))"]
    by (simp add: vcu_run_cases)
qed

lemma contactors_ok_run:
  assumes "contactors_ok v cmds"
  shows "contactors_ok (fst (vcu_run recv v)) (cmds @ relay_cmds (snd (vcu_run recv v)))"
  using assms vcu_run_flags [of recv v] run_stays_init [of recv v]
  by (auto simp: contactors_ok_def ends_with_append)

lemma contactors_ok_boot:
  "contactors_ok (fst (vcu_init q mutex_ok Vcu_new)) (relay_cmds (snd (vcu_init q mutex_ok Vcu_new)))"
  by (simp add: contactors_ok_def vcu_init_def Let_def case_prod_beta stopped_open_def live_state_def
      Vcu_new_def)

lemma contactors_ok_cong:
  "VCU_state w = VCU_state v \<Longrightarrow> stopped_open w = stopped_open v \<Longrightarrow>
   contactors_ok w cmds = contactors_ok v cmds"
  by (simp add: contactors_ok_def live_state_def)

definition app_bank_ok :: "'q App \<Rightarrow> bool" where
  "app_bank_ok a \<longleftrightarrow> (\<exists>cmds. APP_bank a = relay_bank.exec cmds bank_boot \<and> contactors_ok (APP_vcu a) cmds)"

lemma app_main_eq:
  "app_main boot =
     (if \<not> (BOOT_bus boot \<and> BOOT_device boot) then Inl (RelayManager_new, chip_reset)
      else if \<not> BOOT_sensorQueue boot
        then Inl (drive_bank (snd (vcu_init (BOOT_eventQueue boot) (BOOT_mutex boot) Vcu_new)) bank_boot)
      else Inr \<lparr>APP_vcu = fst (vcu_init (BOOT_eventQueue boot) (BOOT_mutex boot) Vcu_new),
        APP_bank = drive_bank (snd (vcu_init (BOOT_eventQueue boot) (BOOT_mutex boot) Vcu_new)) bank_boot,
        APP_sensorQueue = Some None, APP_can = can_task_start (BOOT_can boot),
        APP_hmi = (if fst (hmi_start (BOOT_hmi boot)) then Some (fst (snd (hmi_start (BOOT_hmi boot)))) else None),
        APP_lora = LoraTask_start (BOOT_ms boot)\<rparr>)"
proof (cases "BOOT_bus boot \<and> BOOT_device boot")
  case False
  then obtain log where "RelayManager_begin (BOOT_bus boot) (BOOT_device boot) RelayManager_new =
      (False, RelayManager_new, [RelayLog log])"
    by (cases "BOOT_bus boot") (simp_all add: RelayManager_begin_def)
  with False show ?thesis by (auto simp: app_main_def attach_def)
next
  case True
  then have on: "BOOT_bus boot" "BOOT_device boot" by simp_all
  have "fst (RelayManager_begin True True RelayManager_new)" by (simp add: RelayManager_begin_def Let_def)
  with on show ?thesis
    unfolding app_main_def Let_def case_prod_beta bank_boot_def by (simp only: if_True if_False simp_thms)
qed

lemma boot_cases:
  assumes "app_main boot = Inr a"
  shows "APP_vcu a = fst (vcu_init (BOOT_eventQueue boot) (BOOT_mutex boot) Vcu_new) \<and>
    APP_bank a = drive_bank (snd (vcu_init (BOOT_eventQueue boot) (BOOT_mutex boot) Vcu_new)) bank_boot \<and>
    APP_sensorQueue a = Some None \<and> APP_can a = can_task_start (BOOT_can boot) \<and>
    APP_hmi a = (if fst (hmi_start (BOOT_hmi boot)) then Some (fst (snd (hmi_start (BOOT_hmi boot)))) else None) \<and>
    APP_lora a = LoraTask_start (BOOT_ms boot)"
proof -
  have "BOOT_bus boot \<and> BOOT_device boot"
    using assms unfolding app_main_eq by (cases "BOOT_bus boot \<and> BOOT_device boot") simp_all
  moreover from this have "BOOT_sensorQueue boot"
    using assms unfolding app_main_eq by (cases "BOOT_sensorQueue boot") simp_all
  moreover note assms
  ultimately show ?thesis unfolding app_main_eq by (simp only: simp_thms if_True if_False sum.inject) auto
qed

lemma task_bank:
  "APP_bank (fst (vTask_CAN_Comm send ms i a)) = APP_bank a"
  "APP_bank (fst (vTask_HMI_Display send n t a)) = APP_bank a"
  "APP_bank (fst (vTask_LoRa_UKS ms l a)) = APP_bank a"
  "VCU_state (APP_vcu (fst (vTask_CAN_Comm send ms i a))) = VCU_state (APP_vcu a)"
  "VCU_state (APP_vcu (fst (vTask_HMI_Display send n t a))) = VCU_state (APP_vcu a)"
  "VCU_state (APP_vcu (fst (vTask_LoRa_UKS ms l a))) = VCU_state (APP_vcu a)"
  "stopped_open (APP_vcu (fst (vTask_CAN_Comm send ms i a))) = stopped_open (APP_vcu a)"
  "stopped_open (APP_vcu (fst (vTask_HMI_Display send n t a))) = stopped_open (APP_vcu a)"
  "stopped_open (APP_vcu (fst (vTask_LoRa_UKS ms l a))) = stopped_open (APP_vcu a)"
  by (simp_all add: vTask_CAN_Comm_def vTask_HMI_Display_def vTask_LoRa_UKS_def Let_def case_prod_beta
      split: option.split)

definition vcu_fed :: "'q App \<Rightarrow> 'q Vcu" where
  "vcu_fed a = (case APP_sensorQueue a of Some (Some d) \<Rightarrow> setTelemetryData d (APP_vcu a) | _ \<Rightarrow> APP_vcu a)"

lemma vcu_task:
  "APP_vcu (fst (vTask_VCU_Logic recv a)) = fst (vcu_run recv (vcu_fed a))"
  "APP_bank (fst (vTask_VCU_Logic recv a)) =
     relay_bank.exec (relay_cmds (snd (vcu_run recv (vcu_fed a)))) (APP_bank a)"
  by (simp_all add: vTask_VCU_Logic_def vcu_fed_def drive_bank_def Let_def case_prod_beta)

lemma vcu_fed_simps [simp]:
  "VCU_state (vcu_fed a) = VCU_state (APP_vcu a)"
  "stopped_open (vcu_fed a) = stopped_open (APP_vcu a)"
  "VCU_eStopPending (vcu_fed a) = VCU_eStopPending (APP_vcu a)"
  by (simp_all add: vcu_fed_def split: option.split)

lemma app_bank_ok_trans:
  assumes "app_trans send recv ms a st os a'" "app_bank_ok a"
  shows "app_bank_ok a'"
proof -
  obtain cmds where cmds: "APP_bank a = relay_bank.exec cmds bank_boot" "contactors_ok (APP_vcu a) cmds"
    using assms(2) by (auto simp: app_bank_ok_def)
  show ?thesis
  proof (cases st)
    case VcuStep
    then have a': "a' = fst (vTask_VCU_Logic recv a)"
      using assms(1) by (metis app_trans_simps(2) fst_conv)
    have "contactors_ok (vcu_fed a) cmds"
      using cmds(2) contactors_ok_cong [of "vcu_fed a" "APP_vcu a"] by simp
    from contactors_ok_run [OF this, of recv] cmds(1) show ?thesis
      unfolding app_bank_ok_def a' vcu_task by (metis fold_append o_apply)
  qed (use assms(1) cmds task_bank contactors_ok_cong in
      \<open>metis app_bank_ok_def app_trans_simps fst_conv\<close>)+
qed

lemma reach_bank: "app_reach send recv ms boot a os \<Longrightarrow> app_bank_ok a"
proof (induction rule: app_reach.induct)
  case (booted a)
  then show ?case
    unfolding app_bank_ok_def drive_bank_def
    using contactors_ok_boot boot_cases [OF booted] by (metis drive_bank_def)
next
  case (step a os st os' a')
  then show ?case by (blast intro: app_bank_ok_trans)
qed

lemma all_closed_iff:
  assumes "bank_inv rk"
  shows "HMI_areAllContactorsClosed (fst rk) \<longleftrightarrow> (\<forall>i<10. energised (snd rk) i)"
proof -
  have "getRelayState (of_nat i) (fst rk) \<longleftrightarrow> energised (snd rk) i" if "i < 10" for i
    using that energised_iff [OF assms, of i]
    by (simp add: getRelayState_bit unat_of_nat RELAY_TOTAL_CHANNELS_def)
  then show ?thesis
    by (auto simp: HMI_areAllContactorsClosed_def list_all_iff RELAY_TOTAL_CHANNELS_def)
qed

lemma bank_ok_closed:
  assumes "app_bank_ok a" "i < 10"
  shows "(energised (snd (APP_bank a)) i \<longleftrightarrow> HMI_areAllContactorsClosed (fst (APP_bank a))) \<and>
    (live_state (APP_vcu a) \<longrightarrow> energised (snd (APP_bank a)) i) \<and>
    (stopped_open (APP_vcu a) \<or> VCU_state (APP_vcu a) = VS_INIT \<longrightarrow> \<not> energised (snd (APP_bank a)) i)"
proof -
  obtain cmds where cmds: "APP_bank a = relay_bank.exec cmds bank_boot" "contactors_ok (APP_vcu a) cmds"
    using assms(1) by (auto simp: app_bank_ok_def)
  have inv: "bank_inv (APP_bank a)"
    unfolding cmds(1) by (rule relay_bank.inv_exec [OF bank_inv_boot])
  have all: "energised (snd (APP_bank a)) j \<longleftrightarrow> cmds \<noteq> [] \<and> last cmds = AllOn" if "j < 10" for j
    using bank_after [OF that, of cmds] by (simp add: cmds(1))
  have "(\<forall>j<10. energised (snd (APP_bank a)) j) \<longleftrightarrow> cmds \<noteq> [] \<and> last cmds = AllOn"
    using all [of 0] all by (metis zero_less_numeral)
  then show ?thesis
    using all [OF assms(2)] all_closed_iff [OF inv] cmds(2)
    by (auto simp: contactors_ok_def ends_with_def)
qed

text \<open>A boot that stops before the tasks start leaves every relay open.\<close>

lemma halted_boot_open:
  assumes "app_main boot = Inl bank" "i < 10"
  shows "\<not> energised (snd bank) i"
proof -
  let ?acts = "snd (vcu_init (BOOT_eventQueue boot) (BOOT_mutex boot) (Vcu_new :: 'a Vcu))"
  have "\<not> ends_with True (relay_cmds ?acts)"
    by (simp add: vcu_init_def Let_def case_prod_beta ends_with_def)
  then have "\<not> energised (snd (drive_bank ?acts bank_boot)) i"
    using bank_after [OF assms(2), of "relay_cmds ?acts"] by (simp add: drive_bank_def ends_with_def)
  moreover have "\<not> energised (snd (RelayManager_new, chip_reset)) i"
    using safe_not_energised [of chip_reset i] by (simp add: chip_reset_def)
  moreover have "bank = (RelayManager_new, chip_reset) \<or> bank = drive_bank ?acts bank_boot"
    using assms(1) unfolding app_main_eq by (metis Inl_inject Inr_not_Inl)
  ultimately show ?thesis by blast
qed

section \<open>The emergency stop of the operator\<close>

definition app_run ::
  "(VcuEvent \<Rightarrow> 'q \<Rightarrow> 'q option) \<Rightarrow> ('q \<Rightarrow> (VcuEvent \<times> 'q) option) \<Rightarrow> (u32 \<Rightarrow> TickType_t) \<Rightarrow>
   app_step list \<Rightarrow> 'q App \<Rightarrow> 'q App" where
  "app_run send recv ms sts a = fold (\<lambda>st a. fst (app_iter send recv ms st a)) sts a"

definition stop_pending :: "'q App \<Rightarrow> bool" where
  "stop_pending a \<longleftrightarrow> VCU_eStopPending (APP_vcu a) \<and> VCU_state (APP_vcu a) \<noteq> VS_EMERGENCY_STOP"

lemma stop_pending_iter:
  "stop_pending a \<Longrightarrow> st \<noteq> VcuStep \<Longrightarrow> stop_pending (fst (app_iter send recv ms st a))"
  by (cases st) (simp_all add: stop_pending_def task_bank,
      simp_all add: vTask_CAN_Comm_def vTask_HMI_Display_def vTask_LoRa_UKS_def Let_def
        case_prod_beta post_all_pending split: option.split)

lemma stop_pending_run:
  "stop_pending a \<Longrightarrow> VcuStep \<notin> set sts \<Longrightarrow> stop_pending (app_run send recv ms sts a)"
  unfolding app_run_def by (induction sts arbitrary: a) (auto simp: stop_pending_iter)

lemma stop_pending_taken:
  "stop_pending a \<Longrightarrow>
   VCU_state (APP_vcu (fst (app_iter send recv ms VcuStep a))) = VS_EMERGENCY_STOP"
  by (simp add: vcu_task vcu_run_state estop_due_def stop_pending_def)

text \<open>The display task, once it runs, has a started driver.\<close>

definition app_hmi_ok :: "'q App \<Rightarrow> bool" where
  "app_hmi_ok a \<longleftrightarrow> (case APP_hmi a of Some h \<Rightarrow> HMI_isInitialized (HT_display h) | None \<Rightarrow> True)"

lemma hmi_start_loop_ok:
  "fst (hmi_start_loop n r env disp) \<Longrightarrow> HMI_isInitialized (fst (snd (hmi_start_loop n r env disp)))"
  by (induction n arbitrary: r disp)
    (auto simp: DisplayHMI_begin_def Let_def case_prod_beta split: if_splits)

lemma hmi_start_ok: "fst (hmi_start env) \<Longrightarrow> HMI_isInitialized (HT_display (fst (snd (hmi_start env))))"
  using hmi_start_loop_ok [of HMI_MAX_ATTEMPTS 0 env DisplayHMI_new]
  by (simp add: hmi_start_def Let_def case_prod_beta HmiTask_start_def)

lemma app_hmi_ok_iter: "app_hmi_ok a \<Longrightarrow> app_hmi_ok (fst (app_iter send recv ms st a))"
  by (cases st; cases "APP_hmi a"; cases "APP_can a")
    (simp_all add: app_hmi_ok_def vTask_CAN_Comm_def vTask_HMI_Display_def
      vTask_LoRa_UKS_def vTask_VCU_Logic_def Let_def case_prod_beta)

lemma app_trans_iter:
  "app_trans send recv ms a st os a' \<Longrightarrow> a' = fst (app_iter send recv ms st a) \<and> os = snd (app_iter send recv ms st a)"
  by (cases st) (auto elim!: app_transE simp: prod_eq_iff)

lemma reach_hmi_ok: "app_reach send recv ms boot a os \<Longrightarrow> app_hmi_ok a"
proof (induction rule: app_reach.induct)
  case (booted a)
  then show ?case using boot_cases [OF booted] hmi_start_ok [of "BOOT_hmi boot"]
    by (auto simp: app_hmi_ok_def split: if_splits)
next
  case (step a os st os' a')
  then show ?case using app_hmi_ok_iter app_trans_iter by metis
qed

section \<open>The uplink\<close>

definition speed_ok :: "TelemetryData \<Rightarrow> bool" where
  "speed_ok d \<longleftrightarrow> TEL_speedKmhX10 d = rpmToSpeedKmhX10 (TEL_motorRpm d)"

definition sensor_list :: "TelemetryData option option \<Rightarrow> TelemetryData list" where
  "sensor_list q = (case q of Some (Some d) \<Rightarrow> [d] | _ \<Rightarrow> [])"

text \<open>Every snapshot in the sensor queue and in the offline buffer carries the speed of its motor speed.\<close>

definition app_uplink_ok :: "'q App \<Rightarrow> bool" where
  "app_uplink_ok a \<longleftrightarrow> lora_inv (APP_lora a) \<and>
     list_all speed_ok (ob_list (LO_buffer (APP_lora a))) \<and> list_all speed_ok (sensor_list (APP_sensorQueue a))"

lemma lora_buffer_set:
  assumes "lora_inv s"
  shows "set (ob_list (LO_buffer (fst (lora_step ms i s)))) \<subseteq> set (ob_list (LO_buffer s)) \<union> set_option (IN_live i)"
proof (cases "s_linkDown (fst (lora_step ms i s))")
  case False
  with step_up [OF assms, of ms i] show ?thesis by (auto dest: in_set_dropD)
next
  case True
  have "lora_inv (lora_mid i s)" using assms by (simp add: lora_inv_def)
  with telemetry_down(2) [of "lora_mid i s" ms i] True show ?thesis
    by (auto simp: lora_step_mid step_link last_n_def dest!: in_set_dropD split: option.splits if_splits)
qed

definition lora_sees :: "lora_in \<Rightarrow> 'q App \<Rightarrow> lora_in" where
  "lora_sees i a = i\<lparr>IN_queue := (APP_sensorQueue a \<noteq> None),
     IN_live := (case APP_sensorQueue a of Some q \<Rightarrow> q | None \<Rightarrow> None)\<rparr>"

lemma lora_task:
  "APP_lora (fst (vTask_LoRa_UKS ms i a)) = fst (lora_step ms (lora_sees i a) (APP_lora a))"
  "snd (vTask_LoRa_UKS ms i a) = map OutLora (snd (lora_step ms (lora_sees i a) (APP_lora a)))"
  "APP_sensorQueue (fst (vTask_LoRa_UKS ms i a)) = APP_sensorQueue a"
  by (simp_all add: vTask_LoRa_UKS_def lora_sees_def Let_def case_prod_beta)

lemma lora_sees_live: "set_option (IN_live (lora_sees i a)) = set (sensor_list (APP_sensorQueue a))"
  by (cases "APP_sensorQueue a"; cases "the (APP_sensorQueue a)") (simp_all add: lora_sees_def sensor_list_def)

lemma other_tasks_lora:
  "APP_lora (fst (vTask_CAN_Comm send ms i a)) = APP_lora a"
  "APP_lora (fst (vTask_HMI_Display send n t a)) = APP_lora a"
  "APP_lora (fst (vTask_VCU_Logic recv a)) = APP_lora a"
  "APP_sensorQueue (fst (vTask_HMI_Display send n t a)) = APP_sensorQueue a"
  "APP_sensorQueue (fst (vTask_VCU_Logic recv a)) = APP_sensorQueue a"
  by (simp_all add: vTask_CAN_Comm_def vTask_HMI_Display_def vTask_VCU_Logic_def Let_def
      case_prod_beta split: option.split)

lemma can_task_sensor:
  "list_all speed_ok (sensor_list (APP_sensorQueue a)) \<Longrightarrow>
   list_all speed_ok (sensor_list (APP_sensorQueue (fst (vTask_CAN_Comm send ms i a))))"
  by (cases "APP_can a")
    (simp_all add: vTask_CAN_Comm_def sensor_list_def can_snapshot_def speed_ok_def Let_def case_prod_beta)

lemma app_uplink_ok_iter: "app_uplink_ok a \<Longrightarrow> app_uplink_ok (fst (app_iter send recv ms st a))"
proof (cases st)
  case (LoraStep i)
  assume ok: "app_uplink_ok a"
  then have "set (ob_list (LO_buffer (APP_lora (fst (vTask_LoRa_UKS ms i a))))) \<subseteq>
      set (ob_list (LO_buffer (APP_lora a))) \<union> set (sensor_list (APP_sensorQueue a))"
    using lora_buffer_set [of "APP_lora a" ms "lora_sees i a"]
    by (simp add: lora_task lora_sees_live app_uplink_ok_def)
  with ok LoraStep show ?thesis
    by (auto simp: app_uplink_ok_def lora_task lora_inv_step list_all_iff)
qed (simp_all add: app_uplink_ok_def other_tasks_lora can_task_sensor)

lemma reach_uplink: "app_reach send recv ms boot a os \<Longrightarrow> app_uplink_ok a"
proof (induction rule: app_reach.induct)
  case (booted a)
  then show ?case
    using boot_cases [OF booted] lora_inv_start [of "BOOT_ms boot"]
    by (simp add: app_uplink_ok_def sensor_list_def)
      (simp add: LoraTask_start_def ob_list_def OfflineBuffer_new_def)
next
  case (step a os st os' a')
  then show ?case using app_uplink_ok_iter app_trans_iter by metis
qed

lemma iter_uplink:
  assumes "app_uplink_ok a" "OutLora (Uplink l) \<in> set (snd (app_iter send recv ms st a))"
  shows "\<exists>d. carries l d \<and> speed_ok d"
proof -
  obtain i where "Uplink l \<in> set (snd (lora_step ms (lora_sees i a) (APP_lora a)))"
    using assms(2) by (cases st) (auto simp: lora_task vTask_CAN_Comm_def vTask_HMI_Display_def
        vTask_VCU_Logic_def Let_def case_prod_beta split: option.splits)
  moreover have "lora_inv (APP_lora a)" using assms(1) by (simp add: app_uplink_ok_def)
  ultimately obtain d where "carries l d"
    "d \<in> set (ob_list (LO_buffer (APP_lora a))) \<or> d \<in> set_option (IN_live (lora_sees i a))"
    using step_carries by (metis elem_set)
  with assms(1) show ?thesis by (auto simp: app_uplink_ok_def lora_sees_live list_all_iff)
qed

lemma reach_uplinks:
  "app_reach send recv ms boot a os \<Longrightarrow> OutLora (Uplink l) \<in> set os \<Longrightarrow> \<exists>d. carries l d \<and> speed_ok d"
proof (induction rule: app_reach.induct)
  case (step a os st os' a')
  then show ?case using reach_uplink iter_uplink app_trans_iter by (metis Un_iff set_append)
qed simp

lemma carried_decodes:
  assumes "carries l d" "speed_ok d"
  shows "\<exists>d seq. TEL_speedKmhX10 d = rpmToSpeedKmhX10 (TEL_motorRpm d) \<and>
    parse_uks_frame l = (if 20000 < uint (TEL_motorRpm d) then Inl range_fail
                         else Inr (tel_values seq (sanitizeForUplink d)))"
proof -
  obtain seq where l: "l = tel_line seq (sanitizeForUplink d)" using assms(1) by (auto simp: carries_def)
  have "uint (rpmToSpeedKmhX10 (TEL_motorRpm d)) \<le> 3000"
    using speed_limit [of "TEL_motorRpm d"] by (simp only: unat_eq_nat_uint nat_le_iff)
  then have "parse_uks_frame l = (if 20000 < uint (TEL_motorRpm d) then Inl range_fail
      else Inr (tel_values seq (sanitizeForUplink d)))"
    using assms(2) unfolding l uks_line speed_ok_def by simp
  then show ?thesis using assms(2) unfolding speed_ok_def by blast
qed

section \<open>Well-formed state\<close>

lemma buildBms_cache_wf:
  "cache_wf c \<Longrightarrow> cache_wf (fst (buildBmsNextionCommands bc raw c f u m ver))"
proof -
  assume c: "cache_wf c"
  have want: "in_range (wanted bc raw ver)" by (simp add: in_range_def wanted_range)
  have sub: "set cell_slots \<subseteq> set slots" "set summary_slots \<subseteq> set slots" by (auto simp: slots_def)
  have "cache_wf (NX_cache (nx_start c))" using c by (simp add: nx_start_def)
  then have "cache_wf (NX_cache (nx_pass m f (wanted bc raw ver) must c))" for must
    using nx_fold_shrinks [OF want] sub by (simp add: nx_pass_def)
  then show ?thesis by (simp add: buildBmsNextionCommands_def Let_def)
qed

definition hmi_wf :: "HmiTask \<Rightarrow> bool" where
  "hmi_wf h \<longleftrightarrow> HMI_isInitialized (HT_display h) \<and> cache_wf (HT_hmiCache h) \<and>
     (\<exists>bs. HMI_rxState (HT_display h) = rx_run bs)"

lemma rx_after_run: "rx_after (rx_run as) bs = rx_run (as @ bs)"
  by (simp add: rx_run_def rx_after_def)

lemma hmi_wf_step: "hmi_wf h \<Longrightarrow> hmi_wf (fst (hmi_step i h))"
  by (auto simp: hmi_wf_def hmi_step_parts hmi_read_def hmi_refreshed_def hmi_cells_def
      readTouchCommand_simps rx_after_run hmi_cell_page_def Let_def case_prod_beta buildBms_cache_wf)

lemma hmi_wf_start: "fst (hmi_start env) \<Longrightarrow> hmi_wf (fst (snd (hmi_start env)))"
proof -
  have "HMI_rxState (fst (snd (hmi_start_loop n r env DisplayHMI_new))) = HMI_RxState_new" for n r
  proof -
    have "HMI_rxState disp = HMI_RxState_new \<Longrightarrow>
        HMI_rxState (fst (snd (hmi_start_loop n r env disp))) = HMI_RxState_new" for disp
      by (induction n arbitrary: r disp) (auto simp: DisplayHMI_begin_def Let_def case_prod_beta)
    then show ?thesis by (simp add: DisplayHMI_new_def)
  qed
  then have "\<exists>bs. HMI_rxState (HT_display (fst (snd (hmi_start env)))) = rx_run bs"
    by (intro exI [of _ "[]"]) (simp add: hmi_start_def HmiTask_start_def Let_def case_prod_beta)
  moreover have "cache_wf (HT_hmiCache (fst (snd (hmi_start env))))"
    by (simp add: hmi_start_def HmiTask_start_def Let_def case_prod_beta cache_wf_def
        BmsNextionCache_new_def BMS_CELL_COUNT_def)
  moreover assume "fst (hmi_start env)"
  ultimately show ?thesis using hmi_start_ok [of env] by (simp add: hmi_wf_def)
qed

definition can_wf :: "CanManager \<Rightarrow> bool" where
  "can_wf c \<longleftrightarrow> can_inv c \<and> never_written (CM_telemetryData c)"

definition app_wf :: "'q App \<Rightarrow> bool" where
  "app_wf a \<longleftrightarrow> pred_option hmi_wf (APP_hmi a) \<and> pred_option can_wf (APP_can a)"

lemma can_task_boot: "can_task_start oks = Some c \<Longrightarrow> \<exists>m i s. c = can_boot m i s"
  by (cases oks) (auto simp: can_task_start_def can_boot_def Let_def case_prod_beta split: if_splits)

lemma can_wf_boot: "can_wf (can_boot m i s)"
  by (simp add: can_wf_def inv_boot never_written_boot)

lemma can_wf_process: "can_wf c \<Longrightarrow> can_wf (fst (processRxMessages ms al rx ns c))"
  by (simp add: can_wf_def inv_process never_written_process)

lemma app_wf_iter: "app_wf a \<Longrightarrow> app_wf (fst (app_iter send recv ms st a))"
  by (cases st; cases "APP_hmi a"; cases "APP_can a")
    (simp_all add: app_wf_def vTask_CAN_Comm_def vTask_HMI_Display_def vTask_LoRa_UKS_def
      vTask_VCU_Logic_def Let_def case_prod_beta hmi_wf_step can_wf_process)

lemma reach_wf: "app_reach send recv ms boot a os \<Longrightarrow> app_wf a"
proof (induction rule: app_reach.induct)
  case (booted a)
  have "pred_option can_wf (can_task_start (BOOT_can boot))"
    using can_task_boot [of "BOOT_can boot"] can_wf_boot
    by (cases "can_task_start (BOOT_can boot)") auto
  then show ?case
    using boot_cases [OF booted] hmi_wf_start [of "BOOT_hmi boot"] by (simp add: app_wf_def)
next
  case (step a os st os' a')
  then show ?case using app_wf_iter app_trans_iter by metis
qed

lemma reach_bank_inv: "app_reach send recv ms boot a os \<Longrightarrow> bank_inv (APP_bank a)"
  using reach_bank [of send recv ms boot a os] relay_bank.inv_exec [OF bank_inv_boot]
  by (auto simp: app_bank_ok_def)

section \<open>Properties\<close>

text \<open>A boot in which everything succeeds, and the application it starts.\<close>

definition good_boot :: "VcuEvent fake_queue boot_in" where
  "good_boot = \<lparr>BOOT_bus = True, BOOT_device = True,
     BOOT_eventQueue = Some (fake_xQueueCreate VCU_QUEUE_LENGTH), BOOT_mutex = True,
     BOOT_sensorQueue = True, BOOT_can = (True, True, True),
     BOOT_hmi = (\<lambda>_. ((True, True, True), [], [])), BOOT_ms = 0\<rparr>"

definition booted_app :: "VcuEvent fake_queue App" where
  "booted_app = projr (app_main good_boot)"

lemma good_boot_main: "app_main good_boot = Inr booted_app"
  unfolding booted_app_def app_main_eq by (simp add: good_boot_def)

lemma hmi_started [simp]:
  "hmi_start (\<lambda>_. ((True, True, True), [], [])) =
     (True, HmiTask_start (DisplayHMI_new\<lparr>HMI_isInitialized := True\<rparr>),
      map HmiWrite ((''bkcmd=0'', 7) # HMI_sendEndBytes))"
  by (simp add: hmi_start_def HMI_MAX_ATTEMPTS_def numeral_eq_Suc DisplayHMI_begin_def Let_def
      DisplayHMI_new_def HMI_RxState_new_def)

lemma booted_app_simps:
  "APP_hmi booted_app = Some hmi_booted" "VCU_state (APP_vcu booted_app) = VS_IDLE"
  "VCU_eventQueue (APP_vcu booted_app) \<noteq> None" "APP_lora booted_app = LoraTask_start 0"
  "APP_sensorQueue booted_app = Some None"
  using boot_cases [OF good_boot_main]
  by (simp_all add: good_boot_def hmi_booted_def vcu_init_def Let_def case_prod_beta)

lemma booted_app_reach: "app_reach send recv ms good_boot booted_app []"
  by (rule app_reach.booted [OF good_boot_main])

text \<open>
  In every state the application can reach, whichever parts of the boot failed, the ten relays
  agree, and the contactor line of the driver's display tells whether they are energised. They are
  energised in READY and DRIVE; they are not once a stop state has run its opening step, nor while
  the state machine has never left INIT.
\<close>

lemma app_contactors_follow_state:
  assumes "app_reach send recv ms boot a os" "i < 10"
  shows "(energised (snd (APP_bank a)) i \<longleftrightarrow> HMI_areAllContactorsClosed (fst (APP_bank a))) \<and>
    (VCU_state (APP_vcu a) \<in> {VS_READY, VS_DRIVE} \<longrightarrow> energised (snd (APP_bank a)) i) \<and>
    (VCU_state (APP_vcu a) = VS_EMERGENCY_STOP \<and> VCU_relaysOpenedInEstop (APP_vcu a) \<or>
     VCU_state (APP_vcu a) = VS_FAULT \<and> VCU_relaysOpenedInFault (APP_vcu a) \<or>
     VCU_state (APP_vcu a) = VS_INIT \<longrightarrow> \<not> energised (snd (APP_bank a)) i)"
  using bank_ok_closed [OF reach_bank [OF assms(1)] assms(2)]
  by (auto simp: live_state_def stopped_open_def)

lemma app_contactors_follow_state_witness:
  "energised (snd (APP_bank booted_app)) 3 \<longleftrightarrow> HMI_areAllContactorsClosed (fst (APP_bank booted_app))"
  using app_contactors_follow_state [OF booted_app_reach, of 3] by simp

text \<open>
  The state of every component is well formed in every reachable state: the arrays of the cell
  page's cache keep their 24 entries and the operator frame parser its three states, so every access
  is in range; the offline ring holds at most 75 snapshots inside its array; the CAN receiver's
  published data agree with its freshness state; the port expander drives its pins and its latches
  hold the complement of the driver's state.
\<close>

lemma app_state_well_formed:
  assumes "app_reach send recv ms boot a os"
  shows "pred_option (\<lambda>h. cache_wf (HT_hmiCache h) \<and>
      HMI_touchState (HMI_rxState (HT_display h)) \<in> {0, 1, 2}) (APP_hmi a) \<and>
    pred_option (\<lambda>c. can_inv c \<and> never_written (getTelemetryData c)) (APP_can a) \<and>
    ob_inv (LO_buffer (APP_lora a)) \<and> length (ob_list (LO_buffer (APP_lora a))) \<le> OB_CAPACITY \<and>
    bank_inv (APP_bank a)"
proof -
  have wf: "app_wf a" by (rule reach_wf [OF assms])
  have "pred_option (\<lambda>h. cache_wf (HT_hmiCache h) \<and>
      HMI_touchState (HMI_rxState (HT_display h)) \<in> {0, 1, 2}) (APP_hmi a)"
    using wf touch_values unfolding app_wf_def hmi_wf_def by (cases "APP_hmi a") (simp_all, metis)
  moreover have "pred_option (\<lambda>c. can_inv c \<and> never_written (getTelemetryData c)) (APP_can a)"
    using wf by (cases "APP_can a") (simp_all add: app_wf_def can_wf_def getTelemetryData_def)
  moreover have "ob_inv (LO_buffer (APP_lora a))"
    using reach_uplink [OF assms] by (simp add: app_uplink_ok_def lora_inv_def)
  ultimately show ?thesis
    using reach_bank_inv [OF assms] offline.bounded by blast
qed

lemma app_state_well_formed_witness: "bank_inv (APP_bank booted_app)"
  using app_state_well_formed [OF booted_app_reach] by blast

text \<open>
  An emergency stop whose frame is the first that the display task completes in a scan takes
  effect on the next iteration of the VCU task, from every reachable state in which the event queue
  exists, whatever the other tasks do in between.
\<close>

lemma operator_estop_taken:
  assumes "app_reach send recv ms boot a os" "APP_hmi a = Some h"
    and "VCU_eventQueue (APP_vcu a) \<noteq> None" "VCU_state (APP_vcu a) \<noteq> VS_EMERGENCY_STOP"
    and "touches (rx_events (HMI_rxState (HT_display h)) bytes) = 3 # cs" "VcuStep \<notin> set sts"
  shows "VCU_state (APP_vcu (app_run send recv ms (HmiStep now_ms bytes # sts @ [VcuStep]) a)) =
    VS_EMERGENCY_STOP"
proof -
  let ?a1 = "fst (app_iter send recv ms (HmiStep now_ms bytes) a)"
  have "HMI_isInitialized (HT_display h)"
    using reach_hmi_ok [OF assms(1)] assms(2) by (simp add: app_hmi_ok_def)
  then have "hmi_posts (snd (hmi_step i h)) = [VE_EMERGENCY_STOP]" if "IN_touch i = bytes" for i
    using that assms(5) by (simp add: hmi_step_posts command_event_def)
  then have "APP_vcu ?a1 = fst (postEvent send VE_EMERGENCY_STOP (APP_vcu a))"
    using assms(2) by (simp add: vTask_HMI_Display_def Let_def case_prod_beta post_all_def)
  then have "stop_pending ?a1"
    using assms(3,4) by (auto simp: stop_pending_def postEvent_def)
  from stop_pending_run [OF this assms(6), of send recv ms] show ?thesis
    unfolding app_run_def fold_simps fold_append o_apply by (rule stop_pending_taken)
qed

lemma estop_frame: "touches (rx_events HMI_RxState_new (touch_frame 3)) = [3]"
proof -
  have "plain_byte 3" "plain_byte (NOT 3)" by (simp_all add: plain_byte_def)
  then have "rx_events HMI_RxState_new (touch_frame 3) = [(RX_NONE, 0), (RX_NONE, 0), (RX_TOUCH, 3)]"
    by (intro frame_from_idle) (simp_all add: HMI_RxState_new_def)
  then show ?thesis by simp
qed

lemma operator_estop_taken_witness:
  "VCU_state (APP_vcu (app_run fake_xQueueSend fake_xQueueReceive ms10
     (HmiStep 0 (touch_frame 3) # [HmiStep 100 []] @ [VcuStep]) booted_app)) = VS_EMERGENCY_STOP"
  by (rule operator_estop_taken [OF booted_app_reach booted_app_simps(1,3), where cs = "[]"])
    (simp_all add: booted_app_simps(2) estop_frame)

text \<open>
  Every line the application ever transmits carries, sanitised, a snapshot whose speed is the
  converted motor speed, and the ground station decodes it to exactly these values, unless the motor
  controller has reported more than 20000 rpm, which costs the whole line.
\<close>

lemma app_uplinks_decode:
  assumes "app_reach send recv ms boot a os" "OutLora (Uplink l) \<in> set os"
  shows "\<exists>d seq. TEL_speedKmhX10 d = rpmToSpeedKmhX10 (TEL_motorRpm d) \<and>
    parse_uks_frame l = (if 20000 < uint (TEL_motorRpm d) then Inl range_fail
                         else Inr (tel_values seq (sanitizeForUplink d)))"
  using reach_uplinks [OF assms] carried_decodes by blast

text \<open>A CAN iteration without frames, then a LoRa iteration: the first line goes out.\<close>

definition quiet_can :: can_in where
  "quiet_can = \<lparr>IN_alerts = None, IN_frames = [], IN_ticks = (0, 0, 0), IN_stampMs = 7\<rparr>"

lemma can_keeps_lora: "APP_lora (fst (app_iter send recv ms (CanStep i) a)) = APP_lora a"
  by (simp add: other_tasks_lora)

lemma booted_can: "APP_can booted_app \<noteq> None"
  using boot_cases [OF good_boot_main]
  by (simp add: good_boot_def can_task_start_def CanManager_begin_def setEventCallback_def CanManager_new_def)

lemma can_fills_queue:
  "APP_can a \<noteq> None \<Longrightarrow> APP_sensorQueue a \<noteq> None \<Longrightarrow>
   \<exists>d. APP_sensorQueue (fst (vTask_CAN_Comm send ms i a)) = Some (Some d)"
  by (auto simp: vTask_CAN_Comm_def Let_def case_prod_beta)

lemma first_uplink:
  assumes "APP_sensorQueue a = Some (Some d)" "APP_lora a = LoraTask_start 0"
  shows "OutLora (Uplink (tel_line 0 (sanitizeForUplink d))) \<in>
    set (snd (vTask_LoRa_UKS ms10 (up_in 108 None 20) a))"
proof -
  let ?i = "up_in 108 (Some d) 20" and ?s = "LoraTask_start 0"
  have i: "lora_sees (up_in 108 None 20) a = ?i"
    using assms(1) by (simp add: lora_sees_def up_in_def)
  have start: "lora_with [] = ?s"
    by (simp add: lora_with_def LoraTask_start_def)
  have tel: "LO_telemetry ?s = \<lparr>TEL_isInitialized = True, TEL_sequenceCounter = 0\<rparr>"
    by (simp add: LoraTask_start_def Telemetry_begin_def Telemetry_new_def)
  have empty: "ob_peek (LO_buffer ?s) = None"
    using offline.peek_front [of "LO_buffer ?s"] ob_new_inv by (simp add: LoraTask_start_def)
  have "\<not> s_linkDown (lora_mid ?i ?s)" "tx_due ms10 ?i (lora_mid ?i ?s)"
    using up_due [of 108 "Some d" "[]"] lora_with_simps(1) [of "[]"] unfolding start
    by (simp_all add: up_mid tx_due_def)
  note up = telemetry_up [OF this]
  have env: "IN_live ?i = Some d" "IN_aux ?i" by (simp_all add: up_in_def)
  have "sent (snd (lora_step ms10 ?i ?s)) = [tel_line 0 (sanitizeForUplink d)]"
    by (simp add: lora_step_mid up env REPLAY_BURST_PER_TICK_def numeral_eq_Suc empty lora_live_def
        case_prod_beta Let_def snd_lora_send tel)
  then have "Uplink (tel_line 0 (sanitizeForUplink d)) \<in> set (snd (lora_step ms10 ?i ?s))"
    by (simp add: set_sent [symmetric])
  then show ?thesis by (simp add: lora_task i assms(2))
qed

lemma app_step_reach:
  "app_reach send recv ms boot a os \<Longrightarrow>
   app_reach send recv ms boot (fst (app_iter send recv ms st a)) (os @ snd (app_iter send recv ms st a))"
  using app_reach.step [of send recv ms boot a os st] by (cases st) (simp_all add: app_trans_simps)

definition first_sent :: "string \<Rightarrow> bool" where
  "first_sent l \<longleftrightarrow> OutLora (Uplink l) \<in> set (snd (vTask_LoRa_UKS ms10 (up_in 108 None 20)
     (fst (vTask_CAN_Comm fake_xQueueSend ms10 quiet_can booted_app))))"

lemma app_uplinks_decode_witness:
  "\<exists>l. first_sent l \<and> (\<exists>d seq. parse_uks_frame l = (if 20000 < uint (TEL_motorRpm d)
     then Inl range_fail else Inr (tel_values seq (sanitizeForUplink d))))"
proof -
  let ?a = "fst (app_iter fake_xQueueSend fake_xQueueReceive ms10 (CanStep quiet_can) booted_app)"
  obtain d where d: "APP_sensorQueue ?a = Some (Some d)"
    using can_fills_queue [OF booted_can, of fake_xQueueSend ms10 quiet_can]
    by (auto simp: booted_app_simps)
  have lora: "APP_lora ?a = LoraTask_start 0"
    unfolding can_keeps_lora by (rule booted_app_simps)
  let ?l = "tel_line 0 (sanitizeForUplink d)"
  have sent: "first_sent ?l" using first_uplink [OF d lora] by (simp add: first_sent_def)
  then have "OutLora (Uplink ?l) \<in> set (([] @ snd (app_iter fake_xQueueSend fake_xQueueReceive ms10
      (CanStep quiet_can) booted_app)) @ snd (app_iter fake_xQueueSend fake_xQueueReceive ms10
      (LoraStep (up_in 108 None 20)) ?a))"
    by (simp add: first_sent_def)
  from app_uplinks_decode [OF app_step_reach [OF app_step_reach [OF booted_app_reach]] this] sent
  show ?thesis by blast
qed

end
