(* ===== verification/Vcu_Interleaving.thy ===== *)
theory Vcu_Interleaving
  imports Vcu_Safety "HOL-Library.Multiset"
begin

text \<open>
  The task step of \<open>VcuLogic.cpp\<close> at the grain of its accesses to what other tasks write: the atomic
  exchange of the emergency flag begins it, the receive from the event queue decides the rest. Between
  the two, other tasks may post events. The theorem of this theory is that such a run cannot be told
  from one in which every task step is atomic, so that what \<open>Vcu_Safety\<close> shows of atomic steps holds
  under preemption and on two cores.
\<close>

section \<open>The two halves of a step\<close>

text \<open>
  Up to the receive: the result says whether the step goes on. A pending stop or a critical condition
  ends it before the queue is read.
\<close>

definition run_begin :: "'q Vcu \<Rightarrow> bool \<times> 'q Vcu \<times> vcu_act list" where
  "run_begin v =
     (let v1 = v\<lparr>VCU_stateTimer := VCU_stateTimer v + TASK_PERIOD_MS\<rparr>;
          pending = VCU_eStopPending v1;
          v2 = v1\<lparr>VCU_eStopPending := False\<rparr>
      in if pending \<and> VCU_state v2 \<noteq> VS_EMERGENCY_STOP
         then (False, transitionTo VS_EMERGENCY_STOP v2)
         else if VCU_state v2 \<in> {VS_IDLE, VS_READY, VS_DRIVE} \<and>
                 hasCriticalCondition (getTelemetrySnapshot v2) (VCU_state v2)
         then (False, andThen (v2, [VcuLog LogCritical]) (transitionTo VS_FAULT))
         else (True, updateWarning v2))"

text \<open>From the receive on.\<close>

definition run_finish ::
  "('q \<Rightarrow> (VcuEvent \<times> 'q) option) \<Rightarrow> 'q Vcu \<Rightarrow> 'q Vcu \<times> vcu_act list" where
  "run_finish recv v =
     (case pollEvent recv v of None \<Rightarrow> periodic v | Some (e, v') \<Rightarrow> handleEvent e v')"

lemma run_finish_after_poll: "run_finish recv = after_poll recv"
  by (rule ext) (simp add: run_finish_def after_poll_def)

lemma run_begin_cases:
  "estop_due v \<Longrightarrow> run_begin v = (False, transitionTo VS_EMERGENCY_STOP (tick v))"
  "fault_due v \<Longrightarrow> run_begin v = (False, andThen (tick v, [VcuLog LogCritical]) (transitionTo VS_FAULT))"
  "\<not> estop_due v \<Longrightarrow> \<not> fault_due v \<Longrightarrow> run_begin v = (True, updateWarning (tick v))"
  by (auto simp: run_begin_def estop_due_def fault_due_def tick_def getTelemetrySnapshot_def Let_def)

text \<open>Without anything in between, the halves are the step.\<close>

lemma run_halves:
  "vcu_run recv v =
     (case run_begin v of (goes_on, p) \<Rightarrow> if goes_on then andThen p (run_finish recv) else p)"
  by (cases v rule: run_exhaust)
    (simp_all add: run_begin_cases vcu_run_cases run_finish_after_poll)

section \<open>Interleavings\<close>

text \<open>
  The unit with its position in the step, and what can happen next: a post by another task at any
  time; new telemetry, which the same task stores, between two steps; the halves in their order.
  \<open>None\<close> means that the step is not possible in this position.
\<close>

datatype vcu_micro = MPost VcuEvent | MData TelemetryData | MBegin | MFinish

definition micro_step ::
  "(VcuEvent \<Rightarrow> 'q \<Rightarrow> 'q option) \<Rightarrow> ('q \<Rightarrow> (VcuEvent \<times> 'q) option) \<Rightarrow> vcu_micro \<Rightarrow> bool \<times> 'q Vcu
     \<Rightarrow> ((bool \<times> 'q Vcu) \<times> vcu_act list) option" where
  "micro_step send recv m s =
     (case s of (polling, v) \<Rightarrow>
        (case m of
           MPost e \<Rightarrow> Some ((polling, fst (postEvent send e v)), snd (postEvent send e v))
         | MData d \<Rightarrow> if polling then None else Some ((False, setTelemetryData d v), [])
         | MBegin \<Rightarrow> if polling then None
             else (case run_begin v of (goes_on, v', acts) \<Rightarrow> Some ((goes_on, v'), acts))
         | MFinish \<Rightarrow> if polling then Some ((False, fst (run_finish recv v)), snd (run_finish recv v))
             else None))"

fun micro_run ::
  "(VcuEvent \<Rightarrow> 'q \<Rightarrow> 'q option) \<Rightarrow> ('q \<Rightarrow> (VcuEvent \<times> 'q) option) \<Rightarrow> vcu_micro list \<Rightarrow> bool \<times> 'q Vcu
     \<Rightarrow> ((bool \<times> 'q Vcu) \<times> vcu_act list) option" where
  "micro_run send recv [] s = Some (s, [])"
| "micro_run send recv (m # ms) s =
     (case micro_step send recv m s of
        None \<Rightarrow> None
      | Some (s1, a1) \<Rightarrow> map_option (\<lambda>(s2, a2). (s2, a1 @ a2)) (micro_run send recv ms s1))"

lemma micro_run_snoc:
  "micro_run send recv (ms @ [m]) s =
     (case micro_run send recv ms s of
        None \<Rightarrow> None
      | Some (s1, a1) \<Rightarrow> map_option (\<lambda>(s2, a2). (s2, a1 @ a2)) (micro_step send recv m s1))"
  by (induction ms arbitrary: s)
    (auto simp: option.map_comp case_prod_unfold comp_def split: option.split)

text \<open>What the two grains have in common: the posts of each kind in their order, the data, the steps.\<close>

fun micro_queue_posts :: "vcu_micro list \<Rightarrow> VcuEvent list" where
  "micro_queue_posts [] = []"
| "micro_queue_posts (MPost e # ms) =
     (if e = VE_EMERGENCY_STOP then micro_queue_posts ms else e # micro_queue_posts ms)"
| "micro_queue_posts (_ # ms) = micro_queue_posts ms"

fun input_queue_posts :: "vcu_input list \<Rightarrow> VcuEvent list" where
  "input_queue_posts [] = []"
| "input_queue_posts (Post e # is) =
     (if e = VE_EMERGENCY_STOP then input_queue_posts is else e # input_queue_posts is)"
| "input_queue_posts (_ # is) = input_queue_posts is"

lemma micro_queue_posts_append [simp]:
  "micro_queue_posts (ms @ ms') = micro_queue_posts ms @ micro_queue_posts ms'"
  by (induction ms rule: micro_queue_posts.induct) simp_all

lemma input_queue_posts_append [simp]:
  "input_queue_posts (xs @ ys) = input_queue_posts xs @ input_queue_posts ys"
  by (induction xs rule: input_queue_posts.induct) simp_all

definition same_inputs :: "vcu_micro list \<Rightarrow> vcu_input list \<Rightarrow> bool" where
  "same_inputs ms is \<longleftrightarrow>
     input_queue_posts is = micro_queue_posts ms \<and>
     count_list is (Post VE_EMERGENCY_STOP) = count_list ms (MPost VE_EMERGENCY_STOP) \<and>
     [d. Data d \<leftarrow> is] = [d. MData d \<leftarrow> ms] \<and>
     count_list is Step = count_list ms MBegin"

section \<open>What commutes\<close>

text \<open>The second half neither reads nor writes the emergency flag.\<close>

abbreviation with_flag :: "bool \<Rightarrow> 'q Vcu \<Rightarrow> 'q Vcu" where
  "with_flag b v \<equiv> v\<lparr>VCU_eStopPending := b\<rparr>"

lemma transitionTo_flag:
  "transitionTo s (with_flag b v) = map_prod (with_flag b) id (transitionTo s v)"
  by (simp add: transitionTo_def Let_def)

lemma periodic_flag: "periodic (with_flag b v) = map_prod (with_flag b) id (periodic v)"
  by (simp add: periodic_def handleReady_def handleEmergencyStop_def handleFault_def Let_def
      split: VcuState.split)

lemma handleEvent_flag: "handleEvent e (with_flag b v) = map_prod (with_flag b) id (handleEvent e v)"
  by (simp add: handleEvent_def transitionTo_flag periodic_flag andThen_def getTelemetrySnapshot_def
      Let_def case_prod_beta split: VcuState.split)

lemma pollEvent_flag:
  "pollEvent recv (with_flag b v) = map_option (map_prod id (with_flag b)) (pollEvent recv v)"
  by (simp add: pollEvent_def split: option.split)

lemma run_finish_flag:
  "run_finish recv (with_flag b v) = map_prod (with_flag b) id (run_finish recv v)"
  by (simp add: run_finish_def pollEvent_flag periodic_flag handleEvent_flag split: option.split)

text \<open>The first half neither reads nor writes the queue.\<close>

definition begun :: "'q Vcu \<Rightarrow> 'q Vcu" where
  "begun v = fst (updateWarning (tick v))"

lemma begun_simps [simp]:
  "VCU_eventQueue (begun v) = VCU_eventQueue v" "VCU_eStopPending (begun v) = False"
  by (simp_all add: begun_def)

lemma begun_queue: "begun (v\<lparr>VCU_eventQueue := q\<rparr>) = (begun v)\<lparr>VCU_eventQueue := q\<rparr>"
  by (simp add: begun_def updateWarning_def tick_def getTelemetrySnapshot_def)

lemma due_queue [simp]:
  "estop_due (v\<lparr>VCU_eventQueue := q\<rparr>) = estop_due v" "fault_due (v\<lparr>VCU_eventQueue := q\<rparr>) = fault_due v"
  by (simp_all add: estop_due_def fault_due_def)

text \<open>Emergency stops that are posted while a step is under way.\<close>

definition hold :: "nat \<Rightarrow> 'q Vcu \<Rightarrow> 'q Vcu" where
  "hold n v = (if n = 0 \<or> VCU_eventQueue v = None then v else with_flag True v)"

lemma postEvent_estop: "postEvent send VE_EMERGENCY_STOP v = (hold 1 v, [])"
  by (simp add: postEvent_def hold_def split: option.split)

lemma hold_Suc: "hold 1 (hold n v) = hold (Suc n) v"
  by (simp add: hold_def)

lemma trace_hold: "vcu_trace send recv (replicate n (Post VE_EMERGENCY_STOP)) v = (hold n v, [])"
proof (induction n arbitrary: v)
  case (Suc n)
  have "hold n (hold 1 v) = hold (Suc n) v" by (simp add: hold_def)
  with Suc show ?case by (simp add: postEvent_estop andThen_def)
qed (simp add: hold_def)

lemma postEvent_queue:
  assumes "e \<noteq> VE_EMERGENCY_STOP"
  obtains q where "fst (postEvent send e v) = v\<lparr>VCU_eventQueue := q\<rparr>"
    and "\<And>w. VCU_eventQueue w = VCU_eventQueue v \<Longrightarrow>
      postEvent send e w = (w\<lparr>VCU_eventQueue := q\<rparr>, snd (postEvent send e v))"
proof -
  have "v\<lparr>VCU_eventQueue := VCU_eventQueue v\<rparr> = v" by simp
  show ?thesis
  proof (rule that)
    let ?q = "VCU_eventQueue (fst (postEvent send e v))"
    have *: "VCU_eventQueue w = VCU_eventQueue v \<Longrightarrow>
        postEvent send e w = (w\<lparr>VCU_eventQueue := ?q\<rparr>, snd (postEvent send e v))" for w
      using assms by (cases w) (auto simp: postEvent_def split: option.split)
    then show "\<And>w. VCU_eventQueue w = VCU_eventQueue v \<Longrightarrow>
        postEvent send e w = (w\<lparr>VCU_eventQueue := ?q\<rparr>, snd (postEvent send e v))" .
    show "fst (postEvent send e v) = v\<lparr>VCU_eventQueue := ?q\<rparr>"
      using * [of v] by (metis fst_conv)
  qed
qed

lemma hold_simps [simp]:
  "VCU_eventQueue (hold n v) = VCU_eventQueue v" "hold 0 v = v"
  by (simp_all add: hold_def)

lemma hold_queue:
  "(q = None \<longleftrightarrow> VCU_eventQueue v = None) \<Longrightarrow>
     hold n (v\<lparr>VCU_eventQueue := q\<rparr>) = (hold n v)\<lparr>VCU_eventQueue := q\<rparr>"
  by (auto simp: hold_def)

lemma run_finish_queue:
  "VCU_eventQueue (fst (run_finish recv v)) = None \<longleftrightarrow> VCU_eventQueue v = None"
proof -
  have h: "VCU_eventQueue (fst (handleEvent e w)) = VCU_eventQueue w" for e and w :: "'a Vcu"
    by (cases "VCU_state w") (simp_all add: handleEvent_def)
  show ?thesis
    by (auto simp: run_finish_def pollEvent_def h split: option.split)
qed

lemma run_finish_hold:
  "run_finish recv (hold n v) = map_prod (hold n) id (run_finish recv v)"
  using run_finish_queue [of recv v]
  by (auto simp: hold_def run_finish_flag map_prod_def case_prod_beta)

lemma run_begin_stops:
  "run_begin v = (False, v', acts) \<Longrightarrow> vcu_run recv v = (v', acts)"
  by (simp add: run_halves)

lemma run_begin_goes_on:
  assumes "run_begin v = (True, v', acts)"
  shows "\<not> estop_due v" "\<not> fault_due v" "v' = begun v" "acts = snd (updateWarning (tick v))"
  using assms by (cases v rule: run_exhaust; simp add: run_begin_cases begun_def)+

lemma vcu_run_begun:
  "\<not> estop_due v \<Longrightarrow> \<not> fault_due v \<Longrightarrow>
     vcu_run recv v =
       (fst (run_finish recv (begun v)),
        snd (updateWarning (tick v)) @ snd (run_finish recv (begun v)))"
  by (simp add: vcu_run_cases run_finish_after_poll begun_def prod_eq_iff)

section \<open>The simulation\<close>

text \<open>
  The serial run that a fine-grained one has followed so far. While a step is under way, the serial
  run has not taken it yet: the emergency stops that arrived since are \<open>n\<close> posts it still owes.
\<close>

definition owing :: "nat \<Rightarrow> nat \<Rightarrow> vcu_micro list \<Rightarrow> vcu_input list \<Rightarrow> bool" where
  "owing n k ms is \<longleftrightarrow>
     input_queue_posts is = micro_queue_posts ms \<and>
     count_list is (Post VE_EMERGENCY_STOP) + n = count_list ms (MPost VE_EMERGENCY_STOP) \<and>
     [d. Data d \<leftarrow> is] = [d. MData d \<leftarrow> ms] \<and>
     count_list is Step + k = count_list ms MBegin"

definition serial_run ::
  "(VcuEvent \<Rightarrow> 'q \<Rightarrow> 'q option) \<Rightarrow> ('q \<Rightarrow> (VcuEvent \<times> 'q) option) \<Rightarrow> 'q Vcu \<Rightarrow> vcu_micro list
     \<Rightarrow> bool \<times> 'q Vcu \<Rightarrow> vcu_act list \<Rightarrow> vcu_input list \<Rightarrow> bool" where
  "serial_run send recv v ms s acts is \<longleftrightarrow>
     (let v0 = fst (vcu_trace send recv is v); acts0 = snd (vcu_trace send recv is v)
      in relay_cmds acts0 = relay_cmds acts \<and>
         (if fst s
          then mset acts = mset acts0 + mset (snd (updateWarning (tick v0))) \<and>
            \<not> estop_due v0 \<and> \<not> fault_due v0 \<and>
            (\<exists>n. owing n 1 ms is \<and> snd s = hold n (begun v0))
          else mset acts = mset acts0 \<and> owing 0 0 ms is \<and> snd s = v0))"

lemma serial_between:
  assumes "serial_run send recv v ms (False, w) acts is"
    and "micro_step send recv m (False, w) = Some (s', acts')"
  shows "\<exists>is'. serial_run send recv v (ms @ [m]) s' (acts @ acts') is'"
proof (cases m)
  case (MPost e)
  with assms have "serial_run send recv v (ms @ [m]) s' (acts @ acts') (is @ [Post e])"
    by (auto simp: serial_run_def owing_def micro_step_def trace_append Let_def)
  then show ?thesis ..
next
  case (MData d)
  with assms have "serial_run send recv v (ms @ [m]) s' (acts @ acts') (is @ [Data d])"
    by (auto simp: serial_run_def owing_def micro_step_def trace_append Let_def)
  then show ?thesis ..
next
  case MBegin
  obtain goes_on w' where b: "run_begin w = (goes_on, w', acts')" and s': "s' = (goes_on, w')"
    using assms(2) MBegin by (auto simp: micro_step_def split: prod.splits)
  show ?thesis
  proof (cases goes_on)
    case True
    have b': "run_begin w = (True, w', acts')" using b True by simp
    note g = run_begin_goes_on [OF b']
    from assms(1) g MBegin True have "serial_run send recv v (ms @ [m]) s' (acts @ acts') is"
      by (auto simp: serial_run_def owing_def s' Let_def intro!: exI [of _ 0])
    then show ?thesis ..
  next
    case False
    have b': "run_begin w = (False, w', acts')" using b False by simp
    from assms(1) run_begin_stops [OF b', of recv] MBegin False
    have "serial_run send recv v (ms @ [m]) s' (acts @ acts') (is @ [Step])"
      by (auto simp: serial_run_def owing_def s' trace_append Let_def)
    then show ?thesis ..
  qed
next
  case MFinish
  with assms(2) show ?thesis by (simp add: micro_step_def)
qed

text \<open>While a step is under way: the serial run it belongs to, opened up and closed again.\<close>

lemma serial_during_iff:
  "serial_run send recv v ms (True, w) acts is \<longleftrightarrow>
     (let v0 = fst (vcu_trace send recv is v); acts0 = snd (vcu_trace send recv is v)
      in relay_cmds acts0 = relay_cmds acts \<and>
         mset acts = mset acts0 + mset (snd (updateWarning (tick v0))) \<and>
         \<not> estop_due v0 \<and> \<not> fault_due v0 \<and>
         (\<exists>n. owing n 1 ms is \<and> w = hold n (begun v0)))"
  by (simp add: serial_run_def Let_def)

lemma during_stop:
  assumes "serial_run send recv v ms (True, w) acts is"
  shows "serial_run send recv v (ms @ [MPost VE_EMERGENCY_STOP]) (True, hold 1 w) acts is"
proof -
  have "owing n 1 ms is \<Longrightarrow> owing (Suc n) 1 (ms @ [MPost VE_EMERGENCY_STOP]) is" for n
    by (simp add: owing_def)
  then show ?thesis
    using assms unfolding serial_during_iff Let_def by (metis hold_Suc)
qed

lemma during_queue:
  assumes s: "serial_run send recv v ms (True, w) acts is" and e: "e \<noteq> VE_EMERGENCY_STOP"
  shows "serial_run send recv v (ms @ [MPost e]) (True, fst (postEvent send e w))
    (acts @ snd (postEvent send e w)) (is @ [Post e])"
proof -
  let ?v0 = "fst (vcu_trace send recv is v)"
  obtain n where o: "owing n 1 ms is" and w: "w = hold n (begun ?v0)"
    using s by (auto simp: serial_during_iff Let_def)
  obtain q where q: "fst (postEvent send e ?v0) = ?v0\<lparr>VCU_eventQueue := q\<rparr>"
    and post: "\<And>x. VCU_eventQueue x = VCU_eventQueue ?v0 \<Longrightarrow>
      postEvent send e x = (x\<lparr>VCU_eventQueue := q\<rparr>, snd (postEvent send e ?v0))"
    by (rule postEvent_queue [OF e, of send ?v0]) blast
  let ?v1 = "?v0\<lparr>VCU_eventQueue := q\<rparr>"
  have "q = None \<longleftrightarrow> VCU_eventQueue ?v0 = None"
    using postEvent_simps(6) [of send e ?v0] q by simp
  moreover have p: "postEvent send e w = (w\<lparr>VCU_eventQueue := q\<rparr>, snd (postEvent send e ?v0))"
    by (rule post) (simp add: w)
  ultimately have w1: "fst (postEvent send e w) = hold n (begun ?v1)"
    by (simp add: w hold_queue begun_queue)
  have t: "fst (vcu_trace send recv (is @ [Post e]) v) = ?v1"
    "snd (vcu_trace send recv (is @ [Post e]) v) =
       snd (vcu_trace send recv is v) @ snd (postEvent send e w)"
    by (simp_all add: trace_append q p)
  have "snd (updateWarning (tick ?v1)) = snd (updateWarning (tick ?v0))"
    by (simp add: updateWarning_def tick_def getTelemetrySnapshot_def)
  moreover have "owing n 1 (ms @ [MPost e]) (is @ [Post e])"
    using o e by (simp add: owing_def)
  ultimately show ?thesis
    using s w1 unfolding serial_during_iff Let_def t by auto
qed

lemma during_finish:
  assumes "serial_run send recv v ms (True, w) acts is"
  shows "\<exists>is'. serial_run send recv v (ms @ [MFinish]) (False, fst (run_finish recv w))
    (acts @ snd (run_finish recv w)) is'"
proof -
  let ?v0 = "fst (vcu_trace send recv is v)"
  obtain n where o: "owing n 1 ms is" and w: "w = hold n (begun ?v0)"
    and nd: "\<not> estop_due ?v0" "\<not> fault_due ?v0"
    using assms by (auto simp: serial_during_iff Let_def)
  let ?f = "run_finish recv (begun ?v0)"
  let ?is = "is @ [Step] @ replicate n (Post VE_EMERGENCY_STOP)"
  have f: "run_finish recv w = (hold n (fst ?f), snd ?f)"
    by (simp add: w run_finish_hold map_prod_def case_prod_beta)
  have t: "fst (vcu_trace send recv ?is v) = hold n (fst ?f)"
    "snd (vcu_trace send recv ?is v) =
       snd (vcu_trace send recv is v) @ snd (updateWarning (tick ?v0)) @ snd ?f"
    by (simp_all add: trace_append vcu_run_begun [OF nd] trace_hold)
  have c: "input_queue_posts (replicate n (Post VE_EMERGENCY_STOP)) = []"
    "[d. Data d \<leftarrow> replicate n (Post VE_EMERGENCY_STOP)] = []"
    "count_list (replicate n (Post VE_EMERGENCY_STOP)) (Post VE_EMERGENCY_STOP) = n"
    "count_list (replicate n (Post VE_EMERGENCY_STOP)) Step = 0"
    by (induction n) simp_all
  have "owing 0 0 (ms @ [MFinish]) ?is" using o by (simp add: owing_def c)
  then have "serial_run send recv v (ms @ [MFinish]) (False, fst (run_finish recv w))
      (acts @ snd (run_finish recv w)) ?is"
    using assms by (simp add: serial_run_def f t Let_def del: append.simps)
  then show ?thesis ..
qed

lemma serial_during:
  assumes "serial_run send recv v ms (True, w) acts is"
    and "micro_step send recv m (True, w) = Some (s', acts')"
  shows "\<exists>is'. serial_run send recv v (ms @ [m]) s' (acts @ acts') is'"
proof (cases m)
  case (MPost e)
  with assms(2) have "s' = (True, fst (postEvent send e w))" "acts' = snd (postEvent send e w)"
    by (auto simp: micro_step_def)
  then show ?thesis
    using during_stop [OF assms(1)] during_queue [OF assms(1), of e] MPost
    by (cases "e = VE_EMERGENCY_STOP") (auto simp: postEvent_estop)
next
  case MFinish
  with assms(2) have "s' = (False, fst (run_finish recv w))" "acts' = snd (run_finish recv w)"
    by (auto simp: micro_step_def)
  then show ?thesis using during_finish [OF assms(1)] MFinish by simp
qed (use assms(2) in \<open>simp_all add: micro_step_def\<close>)

lemma serial_run_exists:
  "micro_run send recv ms (False, v) = Some (s, acts) \<Longrightarrow> \<exists>is. serial_run send recv v ms s acts is"
proof (induction ms arbitrary: s acts rule: rev_induct)
  case Nil
  then have "serial_run send recv v [] s acts []"
    by (auto simp: serial_run_def owing_def)
  then show ?case ..
next
  case (snoc m ms)
  from snoc.prems obtain s1 a1 a2 where r: "micro_run send recv ms (False, v) = Some (s1, a1)"
    and st: "micro_step send recv m s1 = Some (s, a2)" and acts: "acts = a1 @ a2"
    by (auto simp: micro_run_snoc split: option.splits)
  from snoc.IH [OF r] obtain "is" where i: "serial_run send recv v ms s1 a1 is" ..
  obtain polling w where s1: "s1 = (polling, w)" by force
  show ?case
  proof (cases polling)
    case True
    with i st s1 acts show ?thesis by (auto dest: serial_during)
  next
    case False
    with i st s1 acts show ?thesis by (auto dest: serial_between)
  qed
qed

section \<open>Property\<close>

text \<open>
  C12: whatever other tasks post between the moment a task step takes the emergency flag and the
  moment it reads its queue, the unit ends in a state that a run of atomic steps over the same
  inputs also reaches: the queued events and the telemetry in the same order, the same number of
  emergency stops and of steps, with the same relay commands in the same order and the same log
  lines.
\<close>

lemma interleaving_serialises:
  assumes "micro_run send recv ms (False, v) = Some ((False, v'), acts)"
  shows "\<exists>is. same_inputs ms is \<and> fst (vcu_trace send recv is v) = v' \<and>
    relay_cmds (snd (vcu_trace send recv is v)) = relay_cmds acts \<and>
    mset (snd (vcu_trace send recv is v)) = mset acts"
  using serial_run_exists [OF assms]
  by (auto simp: serial_run_def owing_def same_inputs_def Let_def)

text \<open>
  The driver presses start and, after the step has taken the emergency flag, the emergency stop: the
  step still closes the contactors, the stop is taken by the next one.
\<close>

definition late_stop :: "vcu_micro list" where
  "late_stop = [MPost VE_START_REQUEST, MBegin, MPost VE_EMERGENCY_STOP, MFinish, MBegin]"

lemma late_stop_run:
  "\<exists>v' acts. micro_run fake_xQueueSend fake_xQueueReceive late_stop (False, vcu_start) =
      Some ((False, v'), acts) \<and> VCU_state v' = VS_EMERGENCY_STOP \<and> relay_cmds acts = [AllOn]"
  by (simp add: late_stop_def micro_step_def run_begin_def run_finish_def postEvent_def
      fake_xQueueSend_def fake_xQueueReceive_def pollEvent_def getTelemetrySnapshot_def
      hasCriticalCondition_def TelemetryData_zero_def updateWarning_def hasWarningCondition_def
      handleEvent_def transitionTo_def periodic_def handleReady_def andThen_def Let_def)

lemma interleaving_serialises_witness:
  "\<exists>is v'. same_inputs late_stop is \<and> VCU_state v' = VS_EMERGENCY_STOP \<and>
    fst (vcu_trace fake_xQueueSend fake_xQueueReceive is vcu_start) = v' \<and>
    relay_cmds (snd (vcu_trace fake_xQueueSend fake_xQueueReceive is vcu_start)) = [AllOn]"
proof -
  obtain v' acts where r: "micro_run fake_xQueueSend fake_xQueueReceive late_stop (False, vcu_start) =
      Some ((False, v'), acts)" "VCU_state v' = VS_EMERGENCY_STOP" "relay_cmds acts = [AllOn]"
    using late_stop_run by blast
  show ?thesis using interleaving_serialises [OF r(1)] r(2,3) by metis
qed

end
