(* ===== verification/App_Interleaving.thy ===== *)
theory App_Interleaving
  imports App_Safety Vcu_Interleaving
begin

text \<open>
  The four tasks of \<open>src/main.cpp\<close> at the grain of their accesses to what they share: a step is one
  access (a peek or an overwrite of the sensor queue, a post, the exchange of the emergency flag, a
  receive from the event queue, a relay command, a read of the state or of one relay), with the
  private work that follows it. Any order of such steps is possible, so the runs of this theory are
  those of preemptive tasks on two cores.
\<close>

section \<open>Positions\<close>

text \<open>
  Where each task is in its loop body, with what it has read so far. \<open>VcuDrive\<close> holds the relay
  commands that are still to be executed, \<open>CanPosts\<close> and \<open>HmiPosts\<close> the events still to be posted.
  The display reads the sensor queue, the state, the relays one by one until one is open, and the
  sensor queue again.
\<close>

datatype vcu_pc = VcuIdle | VcuFed | VcuPoll | VcuDrive "relay_cmd list"

datatype can_pc = CanIdle | CanPosts "VcuEvent list"

datatype hmi_pc =
    HmiIdle
  | HmiPeeked "TelemetryData option"
  | HmiRelays "TelemetryData option" VcuState nat
  | HmiRead "TelemetryData option" VcuState bool
  | HmiPosts "VcuEvent list"

record 'q Fine =
  FN_app :: "'q App"
  FN_vcu :: vcu_pc
  FN_can :: can_pc
  FN_hmi :: hmi_pc

definition fine_start :: "'q App \<Rightarrow> 'q Fine" where
  "fine_start a = \<lparr>FN_app = a, FN_vcu = VcuIdle, FN_can = CanIdle, FN_hmi = HmiIdle\<rparr>"

abbreviation set_vcu :: "'q Vcu \<Rightarrow> 'q Fine \<Rightarrow> 'q Fine" where
  "set_vcu v f \<equiv> f\<lparr>FN_app := (FN_app f)\<lparr>APP_vcu := v\<rparr>\<rparr>"

definition drive_pc :: "vcu_act list \<Rightarrow> vcu_pc" where
  "drive_pc acts = (case relay_cmds acts of [] \<Rightarrow> VcuIdle | cs \<Rightarrow> VcuDrive cs)"

definition sensor_peek :: "'q App \<Rightarrow> TelemetryData option" where
  "sensor_peek a = (case APP_sensorQueue a of Some q \<Rightarrow> q | None \<Rightarrow> None)"

section \<open>The tasks in steps\<close>

definition vcu_peek :: "'q Fine \<Rightarrow> 'q Fine option" where
  "vcu_peek f =
     (if FN_vcu f \<noteq> VcuIdle then None
      else Some (set_vcu (vcu_fed (FN_app f)) f\<lparr>FN_vcu := VcuFed\<rparr>))"

definition vcu_begin :: "'q Fine \<Rightarrow> 'q Fine option" where
  "vcu_begin f =
     (if FN_vcu f \<noteq> VcuFed then None
      else case run_begin (APP_vcu (FN_app f)) of (goes_on, v, acts) \<Rightarrow>
        Some (set_vcu v f\<lparr>FN_vcu := if goes_on then VcuPoll else drive_pc acts\<rparr>))"

definition vcu_finish :: "('q \<Rightarrow> (VcuEvent \<times> 'q) option) \<Rightarrow> 'q Fine \<Rightarrow> 'q Fine option" where
  "vcu_finish recv f =
     (if FN_vcu f \<noteq> VcuPoll then None
      else case run_finish recv (APP_vcu (FN_app f)) of (v, acts) \<Rightarrow>
        Some (set_vcu v f\<lparr>FN_vcu := drive_pc acts\<rparr>))"

definition vcu_drive :: "'q Fine \<Rightarrow> 'q Fine option" where
  "vcu_drive f =
     (case FN_vcu f of
        VcuDrive (c # cs) \<Rightarrow>
          Some (f\<lparr>FN_app := (FN_app f)\<lparr>APP_bank := exec_cmd bank_on bank_off c (APP_bank (FN_app f))\<rparr>,
                  FN_vcu := case cs of [] \<Rightarrow> VcuIdle | _ \<Rightarrow> VcuDrive cs\<rparr>)
      | _ \<Rightarrow> None)"

definition can_work :: "(u32 \<Rightarrow> TickType_t) \<Rightarrow> can_in \<Rightarrow> 'q Fine \<Rightarrow> 'q Fine option" where
  "can_work ms i f =
     (case (FN_can f, APP_can (FN_app f)) of
        (CanIdle, Some c) \<Rightarrow>
          (let (c1, os) = processRxMessages ms (IN_alerts i) (IN_frames i) (IN_ticks i) c
           in Some (f\<lparr>FN_app := (FN_app f)\<lparr>APP_can := Some c1\<rparr>, FN_can := CanPosts (can_events os)\<rparr>))
      | _ \<Rightarrow> None)"

definition can_post :: "(VcuEvent \<Rightarrow> 'q \<Rightarrow> 'q option) \<Rightarrow> 'q Fine \<Rightarrow> 'q Fine option" where
  "can_post send f =
     (case FN_can f of
        CanPosts (e # es) \<Rightarrow>
          Some (set_vcu (fst (postEvent send e (APP_vcu (FN_app f)))) f\<lparr>FN_can := CanPosts es\<rparr>)
      | _ \<Rightarrow> None)"

definition can_publish :: "u32 \<Rightarrow> 'q Fine \<Rightarrow> 'q Fine option" where
  "can_publish stamp f =
     (case (FN_can f, APP_can (FN_app f)) of
        (CanPosts [], Some c) \<Rightarrow>
          Some (f\<lparr>FN_app :=
                   (if APP_sensorQueue (FN_app f) \<noteq> None
                    then (FN_app f)\<lparr>APP_sensorQueue := Some (Some (can_snapshot stamp c))\<rparr>
                    else FN_app f),
                  FN_can := CanIdle\<rparr>)
      | _ \<Rightarrow> None)"

definition hmi_peek :: "'q Fine \<Rightarrow> 'q Fine option" where
  "hmi_peek f =
     (case (FN_hmi f, APP_hmi (FN_app f)) of
        (HmiIdle, Some h) \<Rightarrow> Some (f\<lparr>FN_hmi := HmiPeeked (sensor_peek (FN_app f))\<rparr>)
      | _ \<Rightarrow> None)"

definition hmi_state :: "'q Fine \<Rightarrow> 'q Fine option" where
  "hmi_state f =
     (case FN_hmi f of
        HmiPeeked p \<Rightarrow> Some (f\<lparr>FN_hmi := HmiRelays p (getState (APP_vcu (FN_app f))) 0\<rparr>)
      | _ \<Rightarrow> None)"

text \<open>One round of the loop in \<open>HMI_areAllContactorsClosed\<close>: \<open>k\<close> relays have been seen closed.\<close>

definition hmi_channel :: "'q Fine \<Rightarrow> 'q Fine option" where
  "hmi_channel f =
     (case FN_hmi f of
        HmiRelays p s k \<Rightarrow>
          Some (f\<lparr>FN_hmi :=
            (if \<not> getRelayState (of_nat k) (fst (APP_bank (FN_app f))) then HmiRead p s False
             else if k + 1 < RELAY_TOTAL_CHANNELS then HmiRelays p s (k + 1)
             else HmiRead p s True)\<rparr>)
      | _ \<Rightarrow> None)"

text \<open>The second peek, and then both pages and the scan of the received bytes, which are private.\<close>

definition hmi_paint :: "u32 \<Rightarrow> u8 list \<Rightarrow> 'q Fine \<Rightarrow> 'q Fine option" where
  "hmi_paint now_ms touch f =
     (case (FN_hmi f, APP_hmi (FN_app f)) of
        (HmiRead p s shut, Some h) \<Rightarrow>
          (let (h1, os) = hmi_step
                 \<lparr>IN_hmiQueue = (APP_sensorQueue (FN_app f) \<noteq> None), IN_screenPeek = p,
                  IN_cellPeek = sensor_peek (FN_app f), IN_vcuState = s, IN_contactors = shut,
                  IN_nowMs = now_ms, IN_touch = touch\<rparr> h
           in Some (f\<lparr>FN_app := (FN_app f)\<lparr>APP_hmi := Some h1\<rparr>, FN_hmi := HmiPosts (hmi_posts os)\<rparr>))
      | _ \<Rightarrow> None)"

definition hmi_post :: "(VcuEvent \<Rightarrow> 'q \<Rightarrow> 'q option) \<Rightarrow> 'q Fine \<Rightarrow> 'q Fine option" where
  "hmi_post send f =
     (case FN_hmi f of
        HmiPosts [] \<Rightarrow> Some (f\<lparr>FN_hmi := HmiIdle\<rparr>)
      | HmiPosts (e # es) \<Rightarrow>
          Some (set_vcu (fst (postEvent send e (APP_vcu (FN_app f)))) f\<lparr>FN_hmi := HmiPosts es\<rparr>)
      | _ \<Rightarrow> None)"

text \<open>The radio task reads the sensor queue and shares nothing else that it writes.\<close>

definition lora_iter :: "(u32 \<Rightarrow> TickType_t) \<Rightarrow> lora_in \<Rightarrow> 'q Fine \<Rightarrow> 'q Fine option" where
  "lora_iter ms i f = Some (f\<lparr>FN_app := fst (vTask_LoRa_UKS ms i (FN_app f))\<rparr>)"

section \<open>Runs\<close>

datatype fine_step =
    VcuPeekStep | VcuBeginStep | VcuFinishStep | VcuDriveStep
  | CanWorkStep can_in | CanPostStep | CanPublishStep u32
  | HmiPeekStep | HmiStateStep | HmiChannelStep | HmiPaintStep u32 "u8 list" | HmiPostStep
  | LoraIterStep lora_in

fun fine_next ::
  "(VcuEvent \<Rightarrow> 'q \<Rightarrow> 'q option) \<Rightarrow> ('q \<Rightarrow> (VcuEvent \<times> 'q) option) \<Rightarrow> (u32 \<Rightarrow> TickType_t) \<Rightarrow>
   fine_step \<Rightarrow> 'q Fine \<Rightarrow> 'q Fine option" where
  "fine_next send recv ms VcuPeekStep f = vcu_peek f"
| "fine_next send recv ms VcuBeginStep f = vcu_begin f"
| "fine_next send recv ms VcuFinishStep f = vcu_finish recv f"
| "fine_next send recv ms VcuDriveStep f = vcu_drive f"
| "fine_next send recv ms (CanWorkStep i) f = can_work ms i f"
| "fine_next send recv ms CanPostStep f = can_post send f"
| "fine_next send recv ms (CanPublishStep t) f = can_publish t f"
| "fine_next send recv ms HmiPeekStep f = hmi_peek f"
| "fine_next send recv ms HmiStateStep f = hmi_state f"
| "fine_next send recv ms HmiChannelStep f = hmi_channel f"
| "fine_next send recv ms (HmiPaintStep n t) f = hmi_paint n t f"
| "fine_next send recv ms HmiPostStep f = hmi_post send f"
| "fine_next send recv ms (LoraIterStep i) f = lora_iter ms i f"

fun fine_run ::
  "(VcuEvent \<Rightarrow> 'q \<Rightarrow> 'q option) \<Rightarrow> ('q \<Rightarrow> (VcuEvent \<times> 'q) option) \<Rightarrow> (u32 \<Rightarrow> TickType_t) \<Rightarrow>
   fine_step list \<Rightarrow> 'q Fine \<Rightarrow> 'q Fine option" where
  "fine_run send recv ms [] f = Some f"
| "fine_run send recv ms (st # sts) f =
     (case fine_next send recv ms st f of None \<Rightarrow> None | Some f' \<Rightarrow> fine_run send recv ms sts f')"

inductive fine_reach for send recv ms boot where
  booted: "app_main boot = Inr a \<Longrightarrow> fine_reach send recv ms boot (fine_start a)"
| step: "fine_reach send recv ms boot f \<Longrightarrow> fine_next send recv ms st f = Some f' \<Longrightarrow>
     fine_reach send recv ms boot f'"

section \<open>Frames\<close>

fun vcu_only :: "fine_step \<Rightarrow> bool" where
  "vcu_only VcuPeekStep = True"
| "vcu_only VcuBeginStep = True"
| "vcu_only VcuFinishStep = True"
| "vcu_only VcuDriveStep = True"
| "vcu_only _ = False"

fun pending_cmds :: "vcu_pc \<Rightarrow> relay_cmd list" where
  "pending_cmds (VcuDrive cs) = cs"
| "pending_cmds _ = []"

lemma pending_drive [simp]: "pending_cmds (drive_pc acts) = relay_cmds acts"
  by (simp add: drive_pc_def split: list.split)

lemmas fine_defs = vcu_peek_def vcu_begin_def vcu_finish_def vcu_drive_def can_work_def can_post_def
  can_publish_def hmi_peek_def hmi_state_def hmi_channel_def hmi_paint_def hmi_post_def lora_iter_def

lemma lora_frame:
  "APP_bank (fst (vTask_LoRa_UKS ms i a)) = APP_bank a"
  "APP_vcu (fst (vTask_LoRa_UKS ms i a)) = APP_vcu a"
  by (simp_all add: vTask_LoRa_UKS_def Let_def case_prod_beta)

text \<open>The other tasks leave the relays alone and reach the state machine only through its posts.\<close>

lemma other_step:
  assumes "fine_next send recv ms st f = Some f'" "\<not> vcu_only st"
  shows "APP_bank (FN_app f') = APP_bank (FN_app f) \<and> FN_vcu f' = FN_vcu f \<and>
    (APP_vcu (FN_app f') = APP_vcu (FN_app f) \<or>
     (\<exists>e. APP_vcu (FN_app f') = fst (postEvent send e (APP_vcu (FN_app f)))))"
  using assms
  by (cases st) (auto simp: fine_defs lora_frame Let_def split: can_pc.splits hmi_pc.splits
      option.splits prod.splits list.splits)

section \<open>The contactors\<close>

text \<open>
  The relays have executed all commands but the pending ones, and the unit is as after all of them.
\<close>

definition fine_bank_ok :: "'q Fine \<Rightarrow> bool" where
  "fine_bank_ok f \<longleftrightarrow> (\<exists>cmds. APP_bank (FN_app f) = relay_bank.exec cmds bank_boot \<and>
     contactors_ok (APP_vcu (FN_app f)) (cmds @ pending_cmds (FN_vcu f)))"

lemma contactors_ok_fed: "contactors_ok (vcu_fed a) cmds = contactors_ok (APP_vcu a) cmds"
  by (rule contactors_ok_cong) simp_all

lemma contactors_ok_post: "contactors_ok (fst (postEvent send e v)) cmds = contactors_ok v cmds"
  by (rule contactors_ok_cong) simp_all

lemma contactors_ok_begin:
  assumes "contactors_ok v cmds" "run_begin v = (goes_on, v', acts)"
  shows "contactors_ok v' (cmds @ (if goes_on then [] else relay_cmds acts))"
proof (cases goes_on)
  case True
  then have "v' = begun v" using assms(2) run_begin_goes_on(3) [of v v' acts] by simp
  then have "contactors_ok v' cmds = contactors_ok v cmds"
    by (intro contactors_ok_cong) (simp_all add: begun_def)
  then show ?thesis using True assms(1) by simp
next
  case False
  then have "run_begin v = (False, v', acts)" using assms(2) by simp
  from run_begin_stops [OF this] have run: "vcu_run (\<lambda>_. None) v = (v', acts)" .
  show ?thesis using contactors_ok_run [OF assms(1), of "\<lambda>_. None"] False by (simp add: run)
qed

lemma fine_bank_vcu:
  assumes "fine_next send recv ms st f = Some f'" "vcu_only st" "fine_bank_ok f"
  shows "fine_bank_ok f'"
proof -
  obtain cmds where bank: "APP_bank (FN_app f) = relay_bank.exec cmds bank_boot"
    and ok: "contactors_ok (APP_vcu (FN_app f)) (cmds @ pending_cmds (FN_vcu f))"
    using assms(3) by (auto simp: fine_bank_ok_def)
  show ?thesis
  proof (cases st)
    case VcuPeekStep
    with assms(1) bank ok show ?thesis
      by (auto simp: vcu_peek_def fine_bank_ok_def contactors_ok_fed split: if_splits)
  next
    case VcuBeginStep
    obtain goes_on v acts where b: "run_begin (APP_vcu (FN_app f)) = (goes_on, v, acts)"
      by (metis prod_cases3)
    have fed: "FN_vcu f = VcuFed"
      and f': "f' = set_vcu v f\<lparr>FN_vcu := if goes_on then VcuPoll else drive_pc acts\<rparr>"
      using assms(1) VcuBeginStep b by (auto simp: vcu_begin_def split: if_splits)
    have "contactors_ok v (cmds @ (if goes_on then [] else relay_cmds acts))"
      using ok fed by (intro contactors_ok_begin [OF _ b]) simp
    then show ?thesis using bank unfolding fine_bank_ok_def f' by (auto split: if_splits)
  next
    case VcuFinishStep
    let ?r = "run_finish recv (APP_vcu (FN_app f))"
    have poll: "FN_vcu f = VcuPoll" and f': "f' = set_vcu (fst ?r) f\<lparr>FN_vcu := drive_pc (snd ?r)\<rparr>"
      using assms(1) VcuFinishStep by (auto simp: vcu_finish_def case_prod_beta split: if_splits)
    have "contactors_ok (fst ?r) (cmds @ relay_cmds (snd ?r))"
      using ok poll contactors_ok_after_poll by (simp add: run_finish_after_poll)
    then show ?thesis using bank unfolding fine_bank_ok_def f' by auto
  next
    case VcuDriveStep
    then obtain c cs where drive: "FN_vcu f = VcuDrive (c # cs)"
      and f': "APP_vcu (FN_app f') = APP_vcu (FN_app f)"
        "APP_bank (FN_app f') = relay_bank.exec (cmds @ [c]) bank_boot" "pending_cmds (FN_vcu f') = cs"
      using assms(1) bank by (auto simp: vcu_drive_def split: vcu_pc.splits list.splits)
    with ok show ?thesis unfolding fine_bank_ok_def by (intro exI [of _ "cmds @ [c]"]) simp
  qed (use assms(2) in simp_all)
qed

lemma fine_bank_step:
  assumes "fine_next send recv ms st f = Some f'" "fine_bank_ok f"
  shows "fine_bank_ok f'"
proof (cases "vcu_only st")
  case True
  then show ?thesis using fine_bank_vcu assms by blast
next
  case False
  from other_step [OF assms(1) this] assms(2) show ?thesis
    by (auto simp: fine_bank_ok_def contactors_ok_post)
qed

lemma fine_reach_bank: "fine_reach send recv ms boot f \<Longrightarrow> fine_bank_ok f"
proof (induction rule: fine_reach.induct)
  case (booted a)
  have "app_bank_ok a"
    using reach_bank [OF app_reach.booted [OF booted]] .
  then show ?case by (auto simp: fine_bank_ok_def fine_start_def app_bank_ok_def)
next
  case (step f st f')
  then show ?case by (blast intro: fine_bank_step)
qed

lemma fine_relays_agree:
  assumes "fine_bank_ok f" "i < 10" "j < 10"
  shows "energised (snd (APP_bank (FN_app f))) i = energised (snd (APP_bank (FN_app f))) j \<and>
    getRelayState (of_nat i) (fst (APP_bank (FN_app f))) = energised (snd (APP_bank (FN_app f))) i"
proof -
  obtain cmds where bank: "APP_bank (FN_app f) = relay_bank.exec cmds bank_boot"
    using assms(1) by (auto simp: fine_bank_ok_def)
  have inv: "bank_inv (APP_bank (FN_app f))"
    unfolding bank by (rule relay_bank.inv_exec [OF bank_inv_boot])
  have "getRelayState (of_nat i) (fst (APP_bank (FN_app f))) = energised (snd (APP_bank (FN_app f))) i"
    using assms(2) energised_iff [OF inv, of i]
    by (simp add: getRelayState_bit unat_of_nat RELAY_TOTAL_CHANNELS_def)
  then show ?thesis using bank_after [OF assms(2), of cmds] bank_after [OF assms(3), of cmds]
    by (simp add: bank)
qed

section \<open>Relay readings\<close>

definition hmi_reading_ok :: "'q Fine \<Rightarrow> bool" where
  "hmi_reading_ok f \<longleftrightarrow> (case FN_hmi f of HmiRelays p s k \<Rightarrow> k < RELAY_TOTAL_CHANNELS | _ \<Rightarrow> True)"

lemma hmi_reading_step:
  assumes "fine_next send recv ms st f = Some f'" "hmi_reading_ok f"
  shows "hmi_reading_ok f'"
  using assms
  by (cases st) (auto simp: fine_defs hmi_reading_ok_def Let_def RELAY_TOTAL_CHANNELS_def
      split: can_pc.splits hmi_pc.splits vcu_pc.splits option.splits prod.splits list.splits if_splits)

lemma fine_reach_reading: "fine_reach send recv ms boot f \<Longrightarrow> hmi_reading_ok f"
proof (induction rule: fine_reach.induct)
  case (booted a)
  then show ?case by (simp add: hmi_reading_ok_def fine_start_def)
next
  case (step f st f')
  then show ?case by (blast intro: hmi_reading_step)
qed

section \<open>A pending emergency stop\<close>

lemma run_finish_pending: "VCU_eStopPending (fst (run_finish recv v)) = VCU_eStopPending v"
proof -
  have "run_finish recv v = map_prod (with_flag (VCU_eStopPending v)) id (run_finish recv v)"
    using run_finish_flag [of recv "VCU_eStopPending v" v] by simp
  then have "fst (run_finish recv v) = with_flag (VCU_eStopPending v) (fst (run_finish recv v))"
    by (metis fst_map_prod)
  then have "VCU_eStopPending (fst (run_finish recv v)) =
      VCU_eStopPending (with_flag (VCU_eStopPending v) (fst (run_finish recv v)))" by (rule arg_cong)
  then show ?thesis by simp
qed

lemma stop_kept:
  assumes "fine_next send recv ms st f = Some f'" "st \<noteq> VcuBeginStep"
    and "VCU_eStopPending (APP_vcu (FN_app f))"
  shows "VCU_eStopPending (APP_vcu (FN_app f'))"
proof (cases "vcu_only st")
  case True
  then show ?thesis
    using assms by (cases st) (auto simp: vcu_peek_def vcu_finish_def vcu_drive_def case_prod_beta
        run_finish_pending split: if_splits vcu_pc.splits list.splits)
next
  case False
  from other_step [OF assms(1) this] assms(3) show ?thesis by (auto simp: postEvent_pending)
qed

lemma stop_taken:
  assumes "fine_next send recv ms VcuBeginStep f = Some f'" "VCU_eStopPending (APP_vcu (FN_app f))"
  shows "VCU_state (APP_vcu (FN_app f')) = VS_EMERGENCY_STOP"
proof -
  let ?v = "APP_vcu (FN_app f)"
  obtain goes_on v acts where b: "run_begin ?v = (goes_on, v, acts)" by (metis prod_cases3)
  then have "APP_vcu (FN_app f') = v"
    using assms(1) by (auto simp: vcu_begin_def split: if_splits)
  moreover have "VCU_state v = VS_EMERGENCY_STOP"
  proof (cases "estop_due ?v")
    case True
    from run_begin_cases(1) [OF this] b have "v = fst (transitionTo VS_EMERGENCY_STOP (tick ?v))"
      by (simp add: prod_eq_iff)
    then show ?thesis by simp
  next
    case False
    then have "VCU_state ?v = VS_EMERGENCY_STOP" using assms(2) by (simp add: estop_due_def)
    moreover from this False have "run_begin ?v = (True, updateWarning (tick ?v))"
      by (intro run_begin_cases(3)) (simp_all add: fault_due_def)
    with b have "v = fst (updateWarning (tick ?v))" by (simp add: prod_eq_iff)
    ultimately show ?thesis by simp
  qed
  ultimately show ?thesis by simp
qed

lemma stop_kept_run:
  "fine_run send recv ms sts f = Some f' \<Longrightarrow> VcuBeginStep \<notin> set sts \<Longrightarrow>
   VCU_eStopPending (APP_vcu (FN_app f)) \<Longrightarrow> VCU_eStopPending (APP_vcu (FN_app f'))"
proof (induction sts arbitrary: f)
  case (Cons st sts)
  then obtain f1 where "fine_next send recv ms st f = Some f1" "fine_run send recv ms sts f1 = Some f'"
    by (auto split: option.splits)
  then show ?case using Cons stop_kept [of send recv ms st f f1] by auto
qed simp

lemma fine_run_append:
  "fine_run send recv ms (xs @ ys) f =
     (case fine_run send recv ms xs f of None \<Rightarrow> None | Some f' \<Rightarrow> fine_run send recv ms ys f')"
  by (induction xs arbitrary: f) (auto split: option.split)

section \<open>Posts of the display task\<close>

lemma fine_hmi_ok_step:
  assumes "fine_next send recv ms st f = Some f'" "app_hmi_ok (FN_app f)"
  shows "app_hmi_ok (FN_app f')"
proof (cases st)
  case (LoraIterStep i)
  then show ?thesis using assms app_hmi_ok_iter [of "FN_app f" send recv ms "LoraStep i"]
    by (auto simp: lora_iter_def)
qed (use assms in \<open>auto simp: fine_defs app_hmi_ok_def Let_def case_prod_beta vcu_fed_def
  split: can_pc.splits hmi_pc.splits vcu_pc.splits option.splits list.splits if_splits\<close>)

lemma fine_reach_hmi: "fine_reach send recv ms boot f \<Longrightarrow> app_hmi_ok (FN_app f)"
proof (induction rule: fine_reach.induct)
  case (booted a)
  then show ?case using reach_hmi_ok [OF app_reach.booted [OF booted]] by (simp add: fine_start_def)
next
  case (step f st f')
  then show ?case by (blast intro: fine_hmi_ok_step)
qed

lemma run_begin_queue: "VCU_eventQueue (fst (snd (run_begin v))) = VCU_eventQueue v"
  by (cases v rule: run_exhaust) (simp_all add: run_begin_cases)

lemma fine_queue_kept:
  assumes "fine_next send recv ms st f = Some f'" "VCU_eventQueue (APP_vcu (FN_app f)) \<noteq> None"
  shows "VCU_eventQueue (APP_vcu (FN_app f')) \<noteq> None"
proof (cases "vcu_only st")
  case True
  have "VCU_eventQueue (vcu_fed (FN_app f)) = VCU_eventQueue (APP_vcu (FN_app f))"
    by (simp add: vcu_fed_def split: option.split)
  then show ?thesis using assms True run_finish_queue [of recv "APP_vcu (FN_app f)"]
    by (cases st) (auto simp: vcu_peek_def vcu_begin_def vcu_finish_def vcu_drive_def case_prod_beta
        run_begin_queue split: if_splits vcu_pc.splits list.splits)
next
  case False
  from other_step [OF assms(1) this] assms(2) show ?thesis
    by (metis postEvent_simps(6))
qed

lemma hmi_posts_kept:
  "fine_next send recv ms st f = Some f' \<Longrightarrow> st \<noteq> HmiPostStep \<Longrightarrow> FN_hmi f = HmiPosts es \<Longrightarrow>
   FN_hmi f' = HmiPosts es"
  by (cases st) (auto simp: fine_defs Let_def split: can_pc.splits vcu_pc.splits option.splits
      prod.splits list.splits if_splits)

lemma posts_kept_run:
  assumes "fine_run send recv ms sts f = Some f'" "HmiPostStep \<notin> set sts" "FN_hmi f = HmiPosts es"
    and "VCU_eventQueue (APP_vcu (FN_app f)) \<noteq> None"
  shows "FN_hmi f' = HmiPosts es \<and> VCU_eventQueue (APP_vcu (FN_app f')) \<noteq> None"
  using assms
proof (induction sts arbitrary: f)
  case (Cons st sts)
  then obtain f1 where f1: "fine_next send recv ms st f = Some f1" "fine_run send recv ms sts f1 = Some f'"
    by (auto split: option.splits)
  then have "FN_hmi f1 = HmiPosts es" "VCU_eventQueue (APP_vcu (FN_app f1)) \<noteq> None"
    using Cons.prems hmi_posts_kept [OF f1(1)] fine_queue_kept [OF f1(1)] by auto
  then show ?case using Cons.IH [OF f1(2)] Cons.prems(2) by simp
qed simp

section \<open>Refinement of the atomic machine\<close>

text \<open>What the steps of the application do to the state machine, in the terms of \<open>Vcu_Interleaving\<close>.\<close>

definition polling :: "'q Fine \<Rightarrow> bool" where
  "polling f \<longleftrightarrow> FN_vcu f = VcuPoll"

fun micros :: "fine_step \<Rightarrow> 'q Fine \<Rightarrow> vcu_micro list" where
  "micros VcuPeekStep f = (case sensor_peek (FN_app f) of Some d \<Rightarrow> [MData d] | None \<Rightarrow> [])"
| "micros VcuBeginStep f = [MBegin]"
| "micros VcuFinishStep f = [MFinish]"
| "micros CanPostStep f = (case FN_can f of CanPosts (e # es) \<Rightarrow> [MPost e] | _ \<Rightarrow> [])"
| "micros HmiPostStep f = (case FN_hmi f of HmiPosts (e # es) \<Rightarrow> [MPost e] | _ \<Rightarrow> [])"
| "micros _ f = []"

lemma other_micros:
  assumes "fine_next send recv ms st f = Some f'" "\<not> vcu_only st"
  shows "\<exists>acts. micro_run send recv (micros st f) (polling f, APP_vcu (FN_app f)) =
      Some ((polling f', APP_vcu (FN_app f')), acts) \<and> relay_cmds acts = []"
  using assms
  by (cases st) (auto simp: fine_defs lora_frame Let_def polling_def micro_step_def
      split: can_pc.splits hmi_pc.splits option.splits prod.splits list.splits)

lemma fine_micro:
  assumes "fine_next send recv ms st f = Some f'"
  shows "\<exists>acts. micro_run send recv (micros st f) (polling f, APP_vcu (FN_app f)) =
      Some ((polling f', APP_vcu (FN_app f')), acts) \<and>
    relay_bank.exec (pending_cmds (FN_vcu f')) (APP_bank (FN_app f')) =
    relay_bank.exec (pending_cmds (FN_vcu f) @ relay_cmds acts) (APP_bank (FN_app f))"
proof (cases "vcu_only st")
  case False
  from other_micros [OF assms this] other_step [OF assms this] show ?thesis by fastforce
next
  case True
  show ?thesis
  proof (cases st)
    case VcuPeekStep
    then have f': "f' = set_vcu (vcu_fed (FN_app f)) f\<lparr>FN_vcu := VcuFed\<rparr>" and "FN_vcu f = VcuIdle"
      using assms by (auto simp: vcu_peek_def split: if_splits)
    then show ?thesis
      using VcuPeekStep
      by (auto simp: polling_def micro_step_def vcu_fed_def sensor_peek_def split: option.split)
  next
    case VcuBeginStep
    obtain goes_on v acts where b: "run_begin (APP_vcu (FN_app f)) = (goes_on, v, acts)"
      by (metis prod_cases3)
    have fed: "FN_vcu f = VcuFed"
      and f': "f' = set_vcu v f\<lparr>FN_vcu := if goes_on then VcuPoll else drive_pc acts\<rparr>"
      using assms VcuBeginStep b by (auto simp: vcu_begin_def split: if_splits)
    have "drive_pc acts \<noteq> VcuPoll" by (simp add: drive_pc_def split: list.split)
    moreover have "goes_on \<Longrightarrow> relay_cmds acts = []"
      using b run_begin_goes_on(4) [of "APP_vcu (FN_app f)" v acts] by simp
    ultimately show ?thesis using fed f' b
      using VcuBeginStep by (auto simp: polling_def micro_step_def)
  next
    case VcuFinishStep
    let ?r = "run_finish recv (APP_vcu (FN_app f))"
    have poll: "FN_vcu f = VcuPoll" and f': "f' = set_vcu (fst ?r) f\<lparr>FN_vcu := drive_pc (snd ?r)\<rparr>"
      using assms VcuFinishStep by (auto simp: vcu_finish_def case_prod_beta split: if_splits)
    have "drive_pc (snd ?r) \<noteq> VcuPoll" by (simp add: drive_pc_def split: list.split)
    then show ?thesis using poll f'
      using VcuFinishStep by (simp add: polling_def micro_step_def)
  next
    case VcuDriveStep
    then show ?thesis using assms
      by (auto simp: vcu_drive_def polling_def split: vcu_pc.splits list.splits)
  qed (use True in simp_all)
qed

lemma micro_run_append:
  "micro_run send recv (ms @ ms') s =
     (case micro_run send recv ms s of
        None \<Rightarrow> None
      | Some (s1, a1) \<Rightarrow> map_option (\<lambda>(s2, a2). (s2, a1 @ a2)) (micro_run send recv ms' s1))"
  by (induction ms arbitrary: s)
    (auto simp: option.map_comp case_prod_unfold comp_def option.map_ident split: option.split)

definition boot_vcu :: "'q boot_in \<Rightarrow> 'q Vcu \<times> vcu_act list" where
  "boot_vcu boot = vcu_init (BOOT_eventQueue boot) (BOOT_mutex boot) Vcu_new"

lemma fine_reach_micro:
  "fine_reach send recv ms boot f \<Longrightarrow>
   \<exists>mic acts. micro_run send recv mic (False, fst (boot_vcu boot)) =
       Some ((polling f, APP_vcu (FN_app f)), acts) \<and>
     relay_bank.exec (pending_cmds (FN_vcu f)) (APP_bank (FN_app f)) =
     relay_bank.exec (relay_cmds (snd (boot_vcu boot) @ acts)) bank_boot"
proof (induction rule: fine_reach.induct)
  case (booted a)
  have "APP_vcu a = fst (boot_vcu boot)" "APP_bank a = drive_bank (snd (boot_vcu boot)) bank_boot"
    using boot_cases [OF booted] by (simp_all add: boot_vcu_def)
  then show ?case
    by (intro exI [of _ "[]"]) (simp add: fine_start_def polling_def drive_bank_def)
next
  case (step f st f')
  obtain mic acts where m: "micro_run send recv mic (False, fst (boot_vcu boot)) =
      Some ((polling f, APP_vcu (FN_app f)), acts)"
    and b: "relay_bank.exec (pending_cmds (FN_vcu f)) (APP_bank (FN_app f)) =
      relay_bank.exec (relay_cmds (snd (boot_vcu boot) @ acts)) bank_boot"
    using step.IH by blast
  obtain mic' acts' where m': "micro_run send recv mic' (polling f, APP_vcu (FN_app f)) =
      Some ((polling f', APP_vcu (FN_app f')), acts')"
    and b': "relay_bank.exec (pending_cmds (FN_vcu f')) (APP_bank (FN_app f')) =
      relay_bank.exec (pending_cmds (FN_vcu f) @ relay_cmds acts') (APP_bank (FN_app f))"
    using fine_micro [OF step.hyps(2)] by blast
  have "micro_run send recv (mic @ mic') (False, fst (boot_vcu boot)) =
      Some ((polling f', APP_vcu (FN_app f')), acts @ acts')"
    by (simp add: micro_run_append m m')
  moreover have "relay_bank.exec (pending_cmds (FN_vcu f')) (APP_bank (FN_app f')) =
      relay_bank.exec (relay_cmds (snd (boot_vcu boot) @ acts @ acts')) bank_boot"
    using b b' by simp
  ultimately show ?case by blast
qed

section \<open>Properties\<close>



text \<open>
  C3: an emergency stop whose frame is the first that the display task completes in a scan is taken
  by the first step of the state machine that begins after the display task has posted it, whatever
  accesses of any task lie between the scan and the post and between the post and that step, and
  wherever the state machine was in its own step when the stop was posted.
\<close>

lemma interleaved_estop_taken:
  assumes "fine_reach send recv ms boot f" "FN_hmi f = HmiRead p s shut" "APP_hmi (FN_app f) = Some h"
    and "VCU_eventQueue (APP_vcu (FN_app f)) \<noteq> None"
    and "touches (rx_events (HMI_rxState (HT_display h)) bytes) = 3 # cs"
    and "fine_run send recv ms (HmiPaintStep now_ms bytes # pre @ HmiPostStep # sts @ [VcuBeginStep]) f
      = Some f'"
    and "HmiPostStep \<notin> set pre" "VcuBeginStep \<notin> set sts"
  shows "VCU_state (APP_vcu (FN_app f')) = VS_EMERGENCY_STOP"
proof -
  have init: "HMI_isInitialized (HT_display h)"
    using fine_reach_hmi [OF assms(1)] assms(3) by (simp add: app_hmi_ok_def)
  obtain f1 f2 f3 f4 where paint: "hmi_paint now_ms bytes f = Some f1"
    and f2: "fine_run send recv ms pre f1 = Some f2" and f3: "hmi_post send f2 = Some f3"
    and f4: "fine_run send recv ms sts f3 = Some f4" and f': "fine_next send recv ms VcuBeginStep f4 = Some f'"
    using assms(6) by (auto simp: fine_run_append split: option.splits)
  have "FN_hmi f1 = HmiPosts [VE_EMERGENCY_STOP]" "VCU_eventQueue (APP_vcu (FN_app f1)) \<noteq> None"
    using paint assms(2,3,4,5) init
    by (auto simp: hmi_paint_def hmi_step_posts command_event_def case_prod_beta Let_def)
  from posts_kept_run [OF f2 assms(7) this]
  have "VCU_eStopPending (APP_vcu (FN_app f3))"
    using f3 by (auto simp: hmi_post_def postEvent_def)
  from stop_kept_run [OF f4 assms(8) this] show ?thesis by (rule stop_taken [OF f'])
qed

text \<open>
  C7: as long as the state machine is not between the two halves of a step, it is in a state that
  atomic steps reach from the boot, and once the pending commands are executed the relays are as these
  steps leave them: what is proved of atomic steps of the unit holds of the interleaved application.
\<close>

lemma interleaved_refines_atomic:
  assumes "fine_reach send recv ms boot f" "FN_vcu f \<noteq> VcuPoll"
  shows "\<exists>is. APP_vcu (FN_app f) = fst (vcu_trace send recv is (fst (boot_vcu boot))) \<and>
    relay_bank.exec (pending_cmds (FN_vcu f)) (APP_bank (FN_app f)) =
    relay_bank.exec (relay_cmds (snd (boot_vcu boot) @ snd (vcu_trace send recv is (fst (boot_vcu boot)))))
      bank_boot"
proof -
  obtain mic acts where m: "micro_run send recv mic (False, fst (boot_vcu boot)) =
      Some ((False, APP_vcu (FN_app f)), acts)"
    and b: "relay_bank.exec (pending_cmds (FN_vcu f)) (APP_bank (FN_app f)) =
      relay_bank.exec (relay_cmds (snd (boot_vcu boot) @ acts)) bank_boot"
    using fine_reach_micro [OF assms(1)] assms(2) by (auto simp: polling_def)
  from serial_run_exists [OF m] obtain "is" where
    "serial_run send recv (fst (boot_vcu boot)) mic (False, APP_vcu (FN_app f)) acts is" ..
  then show ?thesis using b by (intro exI [of _ "is"]) (simp add: serial_run_def Let_def)
qed

text \<open>A display iteration up to the reads of the relays, from a boot in which everything succeeds.\<close>

definition fine_booted :: "VcuEvent fake_queue Fine" where
  "fine_booted = fine_start booted_app"

abbreviation fine_go :: "fine_step list \<Rightarrow> VcuEvent fake_queue Fine \<Rightarrow> VcuEvent fake_queue Fine option" where
  "fine_go \<equiv> fine_run fake_xQueueSend fake_xQueueReceive ms10"

abbreviation fine_good :: "VcuEvent fake_queue Fine \<Rightarrow> bool" where
  "fine_good \<equiv> fine_reach fake_xQueueSend fake_xQueueReceive ms10 good_boot"

lemma fine_booted_reach: "fine_reach send recv ms good_boot fine_booted"
  unfolding fine_booted_def by (rule fine_reach.booted [OF good_boot_main])

lemma fine_run_reach:
  "fine_reach send recv ms boot f \<Longrightarrow> fine_run send recv ms sts f = Some f' \<Longrightarrow>
   fine_reach send recv ms boot f'"
proof (induction sts arbitrary: f)
  case (Cons st sts)
  then show ?case by (auto split: option.splits intro: fine_reach.step)
qed simp

lemma booted_relay_open: "\<not> getRelayState 0 (fst (APP_bank booted_app))"
proof -
  have e: "\<not> energised (snd (drive_bank (snd (vcu_init (BOOT_eventQueue good_boot) True
      (Vcu_new :: VcuEvent fake_queue Vcu))) bank_boot)) 0"
    using bank_after [of 0 "[AllOff False]"]
    by (simp add: drive_bank_def vcu_init_def good_boot_def Let_def case_prod_beta)
  have b: "snd (APP_bank booted_app) = snd (drive_bank (snd (vcu_init (BOOT_eventQueue good_boot) True
      (Vcu_new :: VcuEvent fake_queue Vcu))) bank_boot)"
    using boot_cases [OF good_boot_main] by (simp add: good_boot_def)
  have "getRelayState (of_nat 0) (fst (APP_bank booted_app)) = energised (snd (APP_bank booted_app)) 0"
    using fine_relays_agree [OF fine_reach_bank [OF fine_booted_reach], of 0 0]
    by (simp add: fine_booted_def fine_start_def)
  with e b show ?thesis by simp
qed

definition fine_peeked :: "VcuEvent fake_queue Fine" where
  "fine_peeked = fine_booted\<lparr>FN_hmi := HmiRelays None VS_IDLE 0\<rparr>"

lemma fine_peeked_run: "fine_go [HmiPeekStep, HmiStateStep] fine_booted = Some fine_peeked"
  by (simp add: fine_booted_def fine_peeked_def fine_start_def hmi_peek_def hmi_state_def sensor_peek_def
      booted_app_simps getState_def)

lemma fine_channel_run:
  "hmi_channel fine_peeked = Some (fine_booted\<lparr>FN_hmi := HmiRead None VS_IDLE False\<rparr>)"
  by (simp add: hmi_channel_def fine_peeked_def booted_relay_open)
    (simp add: fine_booted_def fine_start_def booted_relay_open)

lemma fine_peeked_reach: "fine_good fine_peeked"
  by (rule fine_run_reach [OF fine_booted_reach fine_peeked_run])



lemma interleaved_refines_atomic_witness:
  "\<exists>is. APP_vcu (FN_app fine_peeked) =
    fst (vcu_trace fake_xQueueSend fake_xQueueReceive is (fst (boot_vcu good_boot)))"
  using interleaved_refines_atomic [OF fine_peeked_reach]
  by (auto simp: fine_peeked_def fine_booted_def fine_start_def)

text \<open>The operator's stop is scanned before and posted after the state machine reads the telemetry.\<close>

definition fine_read :: "VcuEvent fake_queue Fine" where
  "fine_read = fine_booted\<lparr>FN_hmi := HmiRead None VS_IDLE False\<rparr>"

lemma fine_read_reach: "fine_good fine_read"
  using fine_reach.step [OF fine_peeked_reach, of HmiChannelStep] fine_channel_run
  by (simp add: fine_read_def)

definition late_operator_stop :: "fine_step list" where
  "late_operator_stop = HmiPaintStep 0 (touch_frame 3) # [VcuPeekStep] @ HmiPostStep #
     [HmiPostStep] @ [VcuBeginStep]"

lemma late_operator_stop_runs: "\<exists>f'. fine_go late_operator_stop fine_read = Some f'"
proof -
  have "hmi_posts (snd (hmi_step i hmi_booted)) = [VE_EMERGENCY_STOP]"
    if "IN_touch i = touch_frame 3" for i
    using that by (simp add: hmi_step_posts estop_frame command_event_def)
  then show ?thesis
    by (simp add: late_operator_stop_def fine_read_def fine_booted_def fine_start_def fine_defs
        booted_app_simps case_prod_beta Let_def)
qed

lemma interleaved_estop_taken_witness:
  "\<exists>f'. fine_go late_operator_stop fine_read = Some f' \<and>
    VCU_state (APP_vcu (FN_app f')) = VS_EMERGENCY_STOP"
proof -
  obtain f' where f': "fine_go late_operator_stop fine_read = Some f'"
    using late_operator_stop_runs by blast
  have "VCU_state (APP_vcu (FN_app f')) = VS_EMERGENCY_STOP"
    by (rule interleaved_estop_taken [OF fine_read_reach _ _ _ _ f' [unfolded late_operator_stop_def],
        where h = hmi_booted and p = None and s = VS_IDLE and shut = False and cs = "[]"])
      (simp_all add: fine_read_def fine_booted_def fine_start_def booted_app_simps estop_frame)
  with f' show ?thesis by blast
qed

end
