(* ===== verification/App_Data.thy ===== *)
theory App_Data
  imports App_Interleaving
begin

text \<open>
  What the tasks of \<open>src/main.cpp\<close> hold and transmit under any interleaving of their accesses: the
  state of each component stays well formed, every snapshot in the sensor queue and in the offline
  buffer carries the speed of its motor speed, and so every transmitted line decodes.
\<close>

section \<open>The data of the application, step by step\<close>

definition fine_data_ok :: "'q Fine \<Rightarrow> bool" where
  "fine_data_ok f \<longleftrightarrow> app_wf (FN_app f) \<and> app_uplink_ok (FN_app f)"

text \<open>Both invariants read the parts of the state that the state machine and the relays are not in.\<close>

lemma data_ok_cong:
  assumes "APP_hmi (FN_app f') = APP_hmi (FN_app f)" "APP_can (FN_app f') = APP_can (FN_app f)"
    and "APP_lora (FN_app f') = APP_lora (FN_app f)"
    and "APP_sensorQueue (FN_app f') = APP_sensorQueue (FN_app f)"
  shows "fine_data_ok f' = fine_data_ok f"
  by (simp add: fine_data_ok_def app_wf_def app_uplink_ok_def assms)

lemma private_steps:
  assumes "fine_next send recv ms st f = Some f'"
    and "st \<in> {VcuPeekStep, VcuBeginStep, VcuFinishStep, VcuDriveStep, CanPostStep, HmiPeekStep,
      HmiStateStep, HmiChannelStep, HmiPostStep}"
  shows "fine_data_ok f' = fine_data_ok f"
proof (rule data_ok_cong)
qed (use assms in \<open>auto simp: fine_defs Let_def case_prod_beta
  split: can_pc.splits hmi_pc.splits vcu_pc.splits option.splits list.splits if_splits\<close>)

lemma snapshot_speed: "speed_ok (can_snapshot stamp c)"
  by (simp add: speed_ok_def can_snapshot_def Let_def)

lemma can_work_data:
  assumes "can_work ms i f = Some f'" "fine_data_ok f"
  shows "fine_data_ok f'"
proof -
  obtain c where c: "APP_can (FN_app f) = Some c"
    and f': "APP_can (FN_app f') =
        Some (fst (processRxMessages ms (IN_alerts i) (IN_frames i) (IN_ticks i) c))"
      "APP_hmi (FN_app f') = APP_hmi (FN_app f)" "APP_lora (FN_app f') = APP_lora (FN_app f)"
      "APP_sensorQueue (FN_app f') = APP_sensorQueue (FN_app f)"
    using assms(1) by (auto simp: can_work_def Let_def case_prod_beta split: can_pc.splits option.splits)
  show ?thesis using assms(2) by (simp add: fine_data_ok_def app_wf_def app_uplink_ok_def f' c can_wf_process)
qed

lemma can_publish_data:
  assumes "can_publish stamp f = Some f'" "fine_data_ok f"
  shows "fine_data_ok f'"
proof -
  obtain c where c: "f' = f\<lparr>FN_app := (if APP_sensorQueue (FN_app f) \<noteq> None
      then (FN_app f)\<lparr>APP_sensorQueue := Some (Some (can_snapshot stamp c))\<rparr> else FN_app f),
      FN_can := CanIdle\<rparr>"
    using assms(1) by (auto simp: can_publish_def split: can_pc.splits option.splits list.splits)
  have f': "APP_can (FN_app f') = APP_can (FN_app f)"
      "APP_hmi (FN_app f') = APP_hmi (FN_app f)" "APP_lora (FN_app f') = APP_lora (FN_app f)"
      "APP_sensorQueue (FN_app f') = APP_sensorQueue (FN_app f) \<or>
       APP_sensorQueue (FN_app f') = Some (Some (can_snapshot stamp c))"
    unfolding c by (cases "APP_sensorQueue (FN_app f) = None"; simp)+
  then have "list_all speed_ok (sensor_list (APP_sensorQueue (FN_app f')))"
    using assms(2) snapshot_speed [of stamp c]
    by (auto simp: fine_data_ok_def app_uplink_ok_def sensor_list_def)
  then show ?thesis using assms(2) f' by (simp add: fine_data_ok_def app_wf_def app_uplink_ok_def)
qed

lemma hmi_paint_data:
  assumes "hmi_paint now_ms touch f = Some f'" "fine_data_ok f"
  shows "fine_data_ok f'"
proof -
  obtain h i where h: "APP_hmi (FN_app f) = Some h"
    and f': "APP_hmi (FN_app f') = Some (fst (hmi_step i h))" "APP_can (FN_app f') = APP_can (FN_app f)"
      "APP_lora (FN_app f') = APP_lora (FN_app f)"
      "APP_sensorQueue (FN_app f') = APP_sensorQueue (FN_app f)"
    using assms(1) by (auto simp: hmi_paint_def Let_def case_prod_beta split: hmi_pc.splits option.splits)
  show ?thesis using assms(2) by (simp add: fine_data_ok_def app_wf_def app_uplink_ok_def f' h hmi_wf_step)
qed

lemma lora_iter_data:
  assumes "lora_iter ms i f = Some f'" "fine_data_ok f"
  shows "fine_data_ok f'"
  using assms app_wf_iter [of "FN_app f" undefined undefined ms "LoraStep i"]
    app_uplink_ok_iter [of "FN_app f" undefined undefined ms "LoraStep i"]
  by (auto simp: lora_iter_def fine_data_ok_def)

lemma fine_data_step:
  assumes "fine_next send recv ms st f = Some f'" "fine_data_ok f"
  shows "fine_data_ok f'"
proof (cases st)
  case (CanWorkStep i)
  then show ?thesis using assms can_work_data by simp
next
  case (CanPublishStep t)
  then show ?thesis using assms can_publish_data by simp
next
  case (HmiPaintStep n t)
  then show ?thesis using assms hmi_paint_data by simp
next
  case (LoraIterStep i)
  then show ?thesis using assms lora_iter_data by simp
qed (use private_steps [OF assms(1)] assms(2) in simp_all)

lemma fine_reach_data: "fine_reach send recv ms boot f \<Longrightarrow> fine_data_ok f"
proof (induction rule: fine_reach.induct)
  case (booted a)
  note r = app_reach.booted [OF booted]
  show ?case using reach_wf [OF r] reach_uplink [OF r] by (simp add: fine_data_ok_def fine_start_def)
next
  case (step f st f')
  then show ?case by (blast intro: fine_data_step)
qed

lemma fine_reach_bank_inv: "fine_reach send recv ms boot f \<Longrightarrow> bank_inv (APP_bank (FN_app f))"
  using fine_reach_bank [of send recv ms boot f] relay_bank.inv_exec [OF bank_inv_boot]
  by (auto simp: fine_bank_ok_def)

section \<open>Properties\<close>



text \<open>
  C5: every line an iteration of the radio task transmits, in any state that any interleaving of the
  accesses of the tasks reaches, carries, sanitised, a snapshot whose speed is the converted motor
  speed, and the ground station decodes it to exactly these values, unless the motor controller has
  reported more than 20000 rpm, which costs the whole line.
\<close>

lemma interleaved_uplinks_decode:
  assumes "fine_reach send recv ms boot f" "OutLora (Uplink l) \<in> set (snd (vTask_LoRa_UKS ms i (FN_app f)))"
  shows "\<exists>d seq. TEL_speedKmhX10 d = rpmToSpeedKmhX10 (TEL_motorRpm d) \<and>
    parse_uks_frame l = (if 20000 < uint (TEL_motorRpm d) then Inl range_fail
                         else Inr (tel_values seq (sanitizeForUplink d)))"
proof -
  have "app_uplink_ok (FN_app f)" using fine_reach_data [OF assms(1)] by (simp add: fine_data_ok_def)
  from iter_uplink [OF this, of l send recv ms "LoraStep i"] assms(2)
  obtain d where "carries l d" "speed_ok d" by auto
  then show ?thesis by (rule carried_decodes)
qed

text \<open>A whole CAN iteration, access by access, and then the first line.\<close>

lemma can_posts_run:
  "FN_can f = CanPosts es \<Longrightarrow>
   \<exists>f'. fine_run send recv ms (replicate (length es) CanPostStep) f = Some f' \<and>
     FN_can f' = CanPosts [] \<and> APP_can (FN_app f') = APP_can (FN_app f) \<and>
     APP_sensorQueue (FN_app f') = APP_sensorQueue (FN_app f) \<and> APP_lora (FN_app f') = APP_lora (FN_app f)"
proof (induction es arbitrary: f)
  case (Cons e es)
  let ?f1 = "set_vcu (fst (postEvent send e (APP_vcu (FN_app f)))) f\<lparr>FN_can := CanPosts es\<rparr>"
  have "fine_next send recv ms CanPostStep f = Some ?f1" using Cons.prems by (simp add: can_post_def)
  then show ?case using Cons.IH [of ?f1] by simp
qed simp

lemma can_pass_runs:
  "\<exists>n f d. fine_go (CanWorkStep i # replicate n CanPostStep @ [CanPublishStep 7]) fine_booted = Some f \<and>
     APP_sensorQueue (FN_app f) = Some (Some d) \<and> APP_lora (FN_app f) = LoraTask_start 0"
proof -
  obtain c where c: "APP_can booted_app = Some c" using booted_can by blast
  obtain c1 os where r: "processRxMessages ms10 (IN_alerts i) (IN_frames i) (IN_ticks i) c = (c1, os)" by fastforce
  let ?f1 = "fine_booted\<lparr>FN_app := booted_app\<lparr>APP_can := Some c1\<rparr>, FN_can := CanPosts (can_events os)\<rparr>"
  have w: "fine_go [CanWorkStep i] fine_booted = Some ?f1"
    by (simp add: can_work_def fine_booted_def fine_start_def c r)
  obtain f2 where f2: "fine_go (replicate (length (can_events os)) CanPostStep) ?f1 = Some f2"
    "FN_can f2 = CanPosts []" "APP_can (FN_app f2) = Some c1"
    "APP_sensorQueue (FN_app f2) = Some None" "APP_lora (FN_app f2) = LoraTask_start 0"
    using can_posts_run [of ?f1 "can_events os" fake_xQueueSend fake_xQueueReceive ms10]
    by (auto simp: booted_app_simps)
  let ?f3 = "f2\<lparr>FN_app := (FN_app f2)\<lparr>APP_sensorQueue := Some (Some (can_snapshot 7 c1))\<rparr>, FN_can := CanIdle\<rparr>"
  have "fine_go [CanPublishStep 7] f2 = Some ?f3" by (simp add: can_publish_def f2)
  with w f2(1) have "fine_go ([CanWorkStep i] @ replicate (length (can_events os)) CanPostStep @
      [CanPublishStep 7]) fine_booted = Some ?f3"
    by (simp only: fine_run_append option.case)
  then show ?thesis using f2(5)
    by (intro exI [of _ "length (can_events os)"] exI [of _ ?f3] exI [of _ "can_snapshot 7 c1"]) simp
qed

lemma interleaved_uplinks_decode_witness:
  "\<exists>f l. fine_good f \<and> OutLora (Uplink l) \<in> set (snd (vTask_LoRa_UKS ms10 (up_in 108 None 20) (FN_app f))) \<and>
     (\<exists>d seq. parse_uks_frame l = (if 20000 < uint (TEL_motorRpm d)
        then Inl range_fail else Inr (tel_values seq (sanitizeForUplink d))))"
proof -
  obtain n f d where f: "fine_go (CanWorkStep quiet_can # replicate n CanPostStep @ [CanPublishStep 7])
      fine_booted = Some f" "APP_sensorQueue (FN_app f) = Some (Some d)"
    "APP_lora (FN_app f) = LoraTask_start 0"
    using can_pass_runs by blast
  have r: "fine_good f" by (rule fine_run_reach [OF fine_booted_reach f(1)])
  from interleaved_uplinks_decode [OF r first_uplink [OF f(2,3)]] r first_uplink [OF f(2,3)]
  show ?thesis by blast
qed

end
