(* ===== verification/App_Uplink.thy ===== *)
theory App_Uplink
  imports App_Data
begin

text \<open>
  From the bus to the ground station: what a CAN iteration of \<open>src/main.cpp\<close> receives is what the
  radio task transmits and the receiver of the telemetry contract decodes, under any interleaving.
\<close>

section \<open>What a receive call leaves in the telemetry\<close>

text \<open>The frames one call handles, and the last of them that a source accepts.\<close>

fun handled_frames :: "nat \<Rightarrow> twai_rx list \<Rightarrow> twai_message_t list" where
  "handled_frames (Suc n) (RxFrame now m # rx) = m # handled_frames n rx"
| "handled_frames _ _ = []"

definition last_or :: "'a \<Rightarrow> ('b \<Rightarrow> 'a) \<Rightarrow> 'b list \<Rightarrow> 'a" where
  "last_or x g ys = (if ys = [] then x else g (last ys))"

lemma last_or_simps [simp]:
  "last_or x g [] = x" "last_or x g (y # ys) = last_or (g y) g ys"
  by (simp_all add: last_or_def)

definition last_accepted :: "(twai_message_t \<Rightarrow> bool) \<Rightarrow> twai_rx list \<Rightarrow> twai_message_t option" where
  "last_accepted p rx =
     last_or None Some (filter p (handled_frames CAN_MAX_FRAMES rx))"

definition motor_part :: "CanManager \<Rightarrow> u16 \<times> u8" where
  "motor_part c = (TEL_motorRpm (CM_telemetryData c), TEL_motorErrorFlags (CM_telemetryData c))"

definition motor_of :: "twai_message_t \<Rightarrow> u16 \<times> u8" where
  "motor_of m = (be16 (byte m 0) (byte m 1), if 5 \<le> dlc m then byte m 4 else 0)"

definition pack_part :: "CanManager \<Rightarrow> u16 \<times> i32 \<times> u16" where
  "pack_part c = (TEL_bmsPackVoltageDeciV (CM_telemetryData c), TEL_bmsCurrentCentiMa (CM_telemetryData c),
     TEL_bmsSocHundredths (CM_telemetryData c))"

definition pack_of :: "twai_message_t \<Rightarrow> u16 \<times> i32 \<times> u16" where
  "pack_of m = (be16 (byte m 2) (byte m 3), scast (be16 (byte m 0) (byte m 1) :: i16) * 10,
     be16 (byte m 4) (byte m 5))"

lemma dispatch_parts:
  assumes "CM_mutex c"
  shows "motor_part (fst (dispatchFrame now m c)) = (if accepts_motor m then motor_of m else motor_part c)"
    "pack_part (fst (dispatchFrame now m c)) = (if accepts_bms m then pack_of m else pack_part c)"
    "CM_mutex (fst (dispatchFrame now m c)) = CM_mutex c"
  using assms
  by (cases "frame_kind_of m";
      simp add: dispatch_kinds accepts_motor_def accepts_bms_def motor_part_def pack_part_def motor_of_def
        pack_of_def can_ops can_parsers Let_def)+

lemma rx_loop_parts:
  "CM_mutex c \<Longrightarrow>
     motor_part (fst (rx_loop n rx c)) =
       last_or (motor_part c) motor_of (filter accepts_motor (handled_frames n rx)) \<and>
     pack_part (fst (rx_loop n rx c)) =
       last_or (pack_part c) pack_of (filter accepts_bms (handled_frames n rx))"
  by (induction n rx c rule: rx_loop_induct) (simp_all add: dispatch_parts del: rx_loop.simps(5))

lemma alerts_keep: "CM_telemetryData (fst (handleAlerts a c)) = CM_telemetryData c"
  by (simp add: handleAlerts_def Let_def split: option.split prod.split)

lemma validities_parts:
  "motor_part (fst (updateValidities ms ns c)) = motor_part c"
  "pack_part (fst (updateValidities ms ns c)) = pack_part c"
  by (simp_all add: updateValidities_def case_prod_beta Let_def motor_part_def pack_part_def can_ops
      split: prod.split)

lemma process_parts:
  assumes "CM_isInitialized c" "CM_mutex c"
  shows "last_accepted accepts_motor rx = Some m \<Longrightarrow>
      motor_part (fst (processRxMessages ms a rx ns c)) = motor_of m"
    "last_accepted accepts_bms rx = Some b \<Longrightarrow>
      pack_part (fst (processRxMessages ms a rx ns c)) = pack_of b"
  using assms rx_loop_parts [of "fst (handleAlerts a c)" CAN_MAX_FRAMES rx]
  by (auto simp: processRxMessages_def case_prod_beta Let_def validities_parts last_accepted_def
      last_or_def split: if_splits)

section \<open>From the receiver to the sensor queue\<close>

lemma can_kept:
  assumes "fine_next send recv ms st f = Some f'" "FN_can f = CanPosts es"
    and "\<forall>t. st \<noteq> CanPublishStep t"
  shows "(\<exists>es'. FN_can f' = CanPosts es') \<and> APP_can (FN_app f') = APP_can (FN_app f) \<and>
    APP_sensorQueue (FN_app f') = APP_sensorQueue (FN_app f)"
  using assms
  by (cases st) (auto simp: fine_defs Let_def case_prod_beta vTask_LoRa_UKS_def
      split: can_pc.splits hmi_pc.splits vcu_pc.splits option.splits list.splits if_splits)

lemma can_kept_run:
  "fine_run send recv ms sts f = Some f' \<Longrightarrow> FN_can f = CanPosts es \<Longrightarrow>
   \<forall>t. CanPublishStep t \<notin> set sts \<Longrightarrow>
   (\<exists>es'. FN_can f' = CanPosts es') \<and> APP_can (FN_app f') = APP_can (FN_app f) \<and>
   APP_sensorQueue (FN_app f') = APP_sensorQueue (FN_app f)"
proof (induction sts arbitrary: f es)
  case (Cons st sts)
  then obtain f1 where f1: "fine_next send recv ms st f = Some f1" "fine_run send recv ms sts f1 = Some f'"
    by (auto split: option.splits)
  have "\<forall>t. st \<noteq> CanPublishStep t" using Cons.prems(3) by auto
  from can_kept [OF f1(1) Cons.prems(2) this] show ?case
    using Cons.IH [OF f1(2)] Cons.prems(3) by fastforce
qed simp

lemma queue_kept:
  assumes "fine_next send recv ms st f = Some f'" "\<forall>t. st \<noteq> CanPublishStep t"
  shows "APP_sensorQueue (FN_app f') = APP_sensorQueue (FN_app f)"
  using assms
  by (cases st) (auto simp: fine_defs Let_def case_prod_beta vTask_LoRa_UKS_def
      split: can_pc.splits hmi_pc.splits vcu_pc.splits option.splits list.splits if_splits)

lemma queue_kept_run:
  "fine_run send recv ms sts f = Some f' \<Longrightarrow> \<forall>t. CanPublishStep t \<notin> set sts \<Longrightarrow>
   APP_sensorQueue (FN_app f') = APP_sensorQueue (FN_app f)"
proof (induction sts arbitrary: f)
  case (Cons st sts)
  then obtain f1 where f1: "fine_next send recv ms st f = Some f1" "fine_run send recv ms sts f1 = Some f'"
    by (auto split: option.splits)
  have "\<forall>t. st \<noteq> CanPublishStep t" using Cons.prems(2) by auto
  from queue_kept [OF f1(1) this] show ?case using Cons.IH [OF f1(2)] Cons.prems(2) by simp
qed simp

text \<open>The whole way: work, posts and other tasks, publication, other tasks again.\<close>

lemma published_parts:
  assumes "fine_reach send recv ms boot f" "APP_can (FN_app f) = Some c" "CM_isInitialized c"
    and "fine_run send recv ms (CanWorkStep i # pre @ CanPublishStep t # post) f = Some f'"
    and "\<forall>t. CanPublishStep t \<notin> set pre" "\<forall>t. CanPublishStep t \<notin> set post"
    and "APP_sensorQueue (FN_app f) \<noteq> None"
    and "last_accepted accepts_motor (IN_frames i) = Some m"
    and "last_accepted accepts_bms (IN_frames i) = Some b"
  obtains d where "APP_sensorQueue (FN_app f') = Some (Some d)"
    "TEL_motorRpm d = fst (motor_of m)" "TEL_motorErrorFlags d = snd (motor_of m)"
    "TEL_bmsPackVoltageDeciV d = fst (pack_of b)" "TEL_bmsCurrentCentiMa d = fst (snd (pack_of b))"
    "TEL_bmsSocHundredths d = snd (snd (pack_of b))"
    "TEL_speedKmhX10 d = rpmToSpeedKmhX10 (TEL_motorRpm d)"
proof -
  let ?c = "fst (processRxMessages ms (IN_alerts i) (IN_frames i) (IN_ticks i) c)"
  obtain f1 f2 f3 where work: "can_work ms i f = Some f1" and f2: "fine_run send recv ms pre f1 = Some f2"
    and pub: "can_publish t f2 = Some f3" and f3: "fine_run send recv ms post f3 = Some f'"
    using assms(4) by (auto simp: fine_run_append split: option.splits)
  obtain es where f1: "APP_can (FN_app f1) = Some ?c" "FN_can f1 = CanPosts es"
    "APP_sensorQueue (FN_app f1) = APP_sensorQueue (FN_app f)"
    using work assms(2) by (auto simp: can_work_def Let_def case_prod_beta split: can_pc.splits)
  note k = can_kept_run [OF f2 f1(2) assms(5)]
  have "APP_sensorQueue (FN_app f3) = Some (Some (can_snapshot t ?c))"
    using pub k f1 assms(7) by (auto simp: can_publish_def split: can_pc.splits list.splits)
  then have q: "APP_sensorQueue (FN_app f') = Some (Some (can_snapshot t ?c))"
    using queue_kept_run [OF f3 assms(6)] by simp
  have "can_inv c"
    using fine_reach_data [OF assms(1)] assms(2) by (simp add: fine_data_ok_def app_wf_def can_wf_def)
  then have mutex: "CM_mutex c" using assms(3) by (auto simp: can_inv_def)
  note parts = process_parts [OF assms(3) mutex]
  have "motor_part ?c = motor_of m" "pack_part ?c = pack_of b" using parts assms(8,9) by simp_all
  then show ?thesis
    using that [OF q] by (auto simp: can_snapshot_def getTelemetryData_def motor_part_def pack_part_def
        Let_def prod_eq_iff)
qed

section \<open>From the sensor queue to the air\<close>

lemma live_line_sent:
  assumes "lora_inv s" "\<not> s_linkDown (lora_mid j s)" "tx_due ms j (lora_mid j s)" "IN_live j = Some d" "IN_aux j"
  shows "\<exists>seq. Uplink (tel_line seq (sanitizeForUplink d)) \<in> set (snd (lora_step ms j s))"
proof -
  let ?s0 = "(lora_mid j s)\<lparr>LO_lastTelemetryTick := IN_tick j\<rparr>"
  let ?s1 = "fst (lora_replay REPLAY_BURST_PER_TICK 0 (IN_replay j) ?s0)"
  have "lora_inv ?s0" using assms(1) by (simp add: lora_inv_def)
  from lora_inv_replay [OF this] have "lora_inv ?s1" .
  from live_sent [OF this, of j] have "list_all2 carries (sent (snd (lora_live j ?s1))) [d]"
    by (simp add: live_list_def assms(4,5))
  then obtain l where "l \<in> set (sent (snd (lora_live j ?s1)))" "carries l d"
    by (auto simp: list_all2_Cons2)
  then obtain seq where "Uplink (tel_line seq (sanitizeForUplink d)) \<in> set (snd (lora_live j ?s1))"
    by (auto simp: carries_def set_sent)
  then have "Uplink (tel_line seq (sanitizeForUplink d)) \<in> set (snd (lora_telemetry ms j (lora_mid j s)))"
    by (simp add: telemetry_up [OF assms(2,3)] case_prod_beta Let_def)
  then show ?thesis unfolding set_sent [symmetric] lora_step_mid by blast
qed

section \<open>Property\<close>

text \<open>
  C4: what the bus reports is what the ground station reads. A CAN iteration whose last accepted
  motor and pack frames are \<open>m\<close> and \<open>b\<close>, with the accesses of all other tasks interleaved in any
  order during it and after it, until a due radio iteration with the link up: one of the lines it
  transmits decodes to the motor speed, error byte, pack voltage and current and charge of these frames
  (a charge above 100 % as 100 %, the least current as the next), and to the road speed of that motor
  speed, unless that speed is above 20000 rpm.
\<close>

lemma bus_frames_reach_station:
  assumes "fine_reach send recv ms boot f" "APP_can (FN_app f) = Some c" "CM_isInitialized c"
    and "APP_sensorQueue (FN_app f) \<noteq> None"
    and "fine_run send recv ms (CanWorkStep i # pre @ CanPublishStep t # post) f = Some f'"
    and "\<forall>t. CanPublishStep t \<notin> set pre \<union> set post"
    and "last_accepted accepts_motor (IN_frames i) = Some m"
    and "last_accepted accepts_bms (IN_frames i) = Some b"
    and "uint (fst (motor_of m)) \<le> 20000"
    and "\<not> s_linkDown (lora_mid j (APP_lora (FN_app f')))" "IN_aux j"
    and "ms LORA_TX_PERIOD_MS \<le> IN_tick j - LO_lastTelemetryTick (APP_lora (FN_app f'))"
  shows "\<exists>l vals. OutLora (Uplink l) \<in> set (snd (vTask_LoRa_UKS ms j (FN_app f'))) \<and>
    parse_uks_frame l = Inr vals \<and>
    map_of vals ''rpm'' = Some (uint (fst (motor_of m))) \<and>
    map_of vals ''motor_err'' = Some (uint (snd (motor_of m))) \<and>
    map_of vals ''pack_v'' = Some (uint (fst (pack_of b))) \<and>
    map_of vals ''current'' = Some (sint (sanitizeCurrent (fst (snd (pack_of b))))) \<and>
    map_of vals ''soc'' = Some (uint (sanitizeSoc (snd (snd (pack_of b))))) \<and>
    map_of vals ''spd_x10'' = Some (uint (rpmToSpeedKmhX10 (fst (motor_of m))))"
proof -
  have quiet: "\<forall>t. CanPublishStep t \<notin> set pre" "\<forall>t. CanPublishStep t \<notin> set post" using assms(6) by auto
  obtain d where q: "APP_sensorQueue (FN_app f') = Some (Some d)"
    and d: "TEL_motorRpm d = fst (motor_of m)" "TEL_motorErrorFlags d = snd (motor_of m)"
      "TEL_bmsPackVoltageDeciV d = fst (pack_of b)" "TEL_bmsCurrentCentiMa d = fst (snd (pack_of b))"
      "TEL_bmsSocHundredths d = snd (snd (pack_of b))"
      "TEL_speedKmhX10 d = rpmToSpeedKmhX10 (TEL_motorRpm d)"
    using published_parts [OF assms(1,2,3,5) quiet assms(4,7,8)] .
  let ?j = "lora_sees j (FN_app f')" and ?s = "APP_lora (FN_app f')"
  have j: "IN_live ?j = Some d" "IN_aux ?j" "IN_queue ?j" "IN_tick ?j = IN_tick j" "lora_mid ?j ?s = lora_mid j ?s"
    using q assms(11) by (simp_all add: lora_sees_def lora_mid_def)
  have r: "fine_reach send recv ms boot f'" by (rule fine_run_reach [OF assms(1,5)])
  from fine_reach_data [OF this] have inv: "lora_inv ?s"
    by (simp add: fine_data_ok_def app_uplink_ok_def)
  have "tx_due ms ?j (lora_mid ?j ?s)" using assms(12) j by (simp add: tx_due_def)
  with live_line_sent [OF inv, of ?j ms d] j assms(10) obtain seq where
    "Uplink (tel_line seq (sanitizeForUplink d)) \<in> set (snd (lora_step ms ?j ?s))" by auto
  then have out: "OutLora (Uplink (tel_line seq (sanitizeForUplink d))) \<in> set (snd (vTask_LoRa_UKS ms j (FN_app f')))"
    by (simp add: lora_task)
  have "uint (TEL_speedKmhX10 d) \<le> 3000"
    using speed_limit [of "TEL_motorRpm d"] d(6) by (simp only: unat_eq_nat_uint nat_le_iff)
  then have "parse_uks_frame (tel_line seq (sanitizeForUplink d)) = Inr (tel_values seq (sanitizeForUplink d))"
    using assms(9) d(1) unfolding uks_line by simp
  with out show ?thesis
    by (intro exI conjI) (assumption+, simp_all add: tel_values_def sanitizeForUplink_def d)
qed

text \<open>One motor frame and one pack frame, from boot.\<close>

definition two_frames :: can_in where
  "two_frames = \<lparr>IN_alerts = None,
     IN_frames = [RxFrame 1 motor_msg, RxFrame 1 (bms_frame 0 768 8000)],
     IN_ticks = (1, 1, 1), IN_stampMs = 7\<rparr>"

lemma two_frames_accepted:
  "last_accepted accepts_motor (IN_frames two_frames) = Some motor_msg"
  "last_accepted accepts_bms (IN_frames two_frames) = Some (bms_frame 0 768 8000)"
  using accepts_motor_msg accepts_bms_frame [of 0 768 8000]
  by (simp_all add: two_frames_def last_accepted_def CAN_MAX_FRAMES_def numeral_eq_Suc last_or_def
      accepts_motor_def accepts_bms_def)

lemma booted_can_live:
  obtains c where "APP_can booted_app = Some c" "CM_isInitialized c"
  using boot_cases [OF good_boot_main]
  by (auto simp: good_boot_def can_task_start_def CanManager_begin_def setEventCallback_def CanManager_new_def)

lemma bus_frames_reach_station_witness:
  "\<exists>f l vals. fine_good f \<and>
    OutLora (Uplink l) \<in> set (snd (vTask_LoRa_UKS ms10 (up_in 108 None 20) (FN_app f))) \<and>
    parse_uks_frame l = Inr vals \<and> map_of vals ''rpm'' = Some 3000 \<and> map_of vals ''pack_v'' = Some 768 \<and>
    map_of vals ''spd_x10'' = Some (uint (rpmToSpeedKmhX10 3000))"
proof -
  obtain c where c: "APP_can booted_app = Some c" "CM_isInitialized c" using booted_can_live .
  obtain n f d where f: "fine_go (CanWorkStep two_frames # replicate n CanPostStep @ CanPublishStep 7 # [])
      fine_booted = Some f" "APP_lora (FN_app f) = LoraTask_start 0"
    using can_pass_runs [of two_frames] by auto
  have app: "FN_app fine_booted = booted_app" by (simp add: fine_booted_def fine_start_def)
  have start: "lora_with [] = LoraTask_start 0" by (simp add: lora_with_def LoraTask_start_def)
  have u: "uint (3000 :: u16) = 3000" "uint (768 :: u16) = 768" by simp_all
  have m: "fst (motor_of motor_msg) = 3000" by (simp add: motor_of_def motor_msg_def motor_frame_def)
  have b: "fst (pack_of (bms_frame 0 768 8000)) = 768" by (simp add: pack_of_def bms_frame_def)
  have "\<exists>l vals. OutLora (Uplink l) \<in> set (snd (vTask_LoRa_UKS ms10 (up_in 108 None 20) (FN_app f))) \<and>
    parse_uks_frame l = Inr vals \<and>
    map_of vals ''rpm'' = Some (uint (fst (motor_of motor_msg))) \<and>
    map_of vals ''motor_err'' = Some (uint (snd (motor_of motor_msg))) \<and>
    map_of vals ''pack_v'' = Some (uint (fst (pack_of (bms_frame 0 768 8000)))) \<and>
    map_of vals ''current'' = Some (sint (sanitizeCurrent (fst (snd (pack_of (bms_frame 0 768 8000)))))) \<and>
    map_of vals ''soc'' = Some (uint (sanitizeSoc (snd (snd (pack_of (bms_frame 0 768 8000)))))) \<and>
    map_of vals ''spd_x10'' = Some (uint (rpmToSpeedKmhX10 (fst (motor_of motor_msg))))"
  proof (rule bus_frames_reach_station [OF fine_booted_reach _ c(2) _ f(1) _ two_frames_accepted])
    show "\<not> s_linkDown (lora_mid (up_in 108 None 20) (APP_lora (FN_app f)))"
      using lora_with_simps(1) [of "[]"] by (simp add: f(2) up_mid start)
    show "ms10 LORA_TX_PERIOD_MS \<le> IN_tick (up_in 108 None 20) - LO_lastTelemetryTick (APP_lora (FN_app f))"
      using up_due [of 108 None "[]"] by (simp add: f(2) start tx_due_def)
  qed (simp_all add: app c(1) booted_app_simps m, simp_all add: up_in_def)
  with fine_run_reach [OF fine_booted_reach f(1)] show ?thesis
    unfolding m b u by blast
qed

end
