(* ===== verification/Vcu_Liveness.thy ===== *)
theory Vcu_Liveness
  imports Vcu_Interleaving
begin

text \<open>
  A critical condition opens the contactors: how many steps of the state machine of
  \<open>VcuLogic.cpp\<close> it takes at most, whatever waits in the event queue and whatever the other tasks
  post meanwhile. A queued fault re-enters FAULT and a queued reset is refused, and either costs the
  step in which the contactors would have opened.
\<close>

section \<open>A unit that must open\<close>

definition critical_input :: "VcuState \<Rightarrow> vcu_input \<Rightarrow> bool" where
  "critical_input s i = (case i of Data d \<Rightarrow> hasCriticalCondition d s | _ \<Rightarrow> True)"

definition task_steps :: "vcu_input list \<Rightarrow> nat" where
  "task_steps is = length (filter (\<lambda>i. i = Step) is)"

lemma task_steps_simps [simp]:
  "task_steps [] = 0" "task_steps (Step # is) = Suc (task_steps is)"
  "task_steps (Post e # is) = task_steps is" "task_steps (Data d # is) = task_steps is"
  by (simp_all add: task_steps_def)

definition critical_stop :: "'q Vcu \<Rightarrow> bool" where
  "critical_stop v \<longleftrightarrow> VCU_state v \<in> {VS_FAULT, VS_EMERGENCY_STOP} \<and>
     hasCriticalCondition (VCU_latestData v) VS_FAULT"

definition opening_due :: "'q Vcu \<Rightarrow> bool" where
  "opening_due v \<longleftrightarrow> critical_stop v \<and>
     \<not> (if VCU_state v = VS_FAULT then VCU_relaysOpenedInFault v else VCU_relaysOpenedInEstop v)"

lemma critical_anywhere:
  "s \<noteq> VS_IDLE \<Longrightarrow> hasCriticalCondition d s = hasCriticalCondition d VS_FAULT"
  by (simp add: hasCriticalCondition_def)

lemma critical_in_stop: "hasCriticalCondition d s \<Longrightarrow> hasCriticalCondition d VS_FAULT"
  by (auto simp: hasCriticalCondition_def split: if_splits)

lemma critical_input_stop: "critical_input s i \<Longrightarrow> critical_input VS_FAULT i"
  by (auto simp: critical_input_def critical_in_stop split: vcu_input.splits)

lemma critical_inputs_stop: "list_all (critical_input s) is \<Longrightarrow> list_all (critical_input VS_FAULT) is"
  by (auto simp: list_all_iff critical_input_stop)

lemma critical_refuses_reset:
  "critical_stop v \<Longrightarrow> \<not> isResetInterlockSatisfied (VCU_latestData v) (VCU_state v)"
  using critical_anywhere [of "VCU_state v" "VCU_latestData v"]
  by (auto simp: critical_stop_def isResetInterlockSatisfied_def)

lemma stop_keeps_opening:
  assumes "VCU_state w = VCU_state v" "VCU_latestData w = VCU_latestData v"
    and "VCU_relaysOpenedInFault w = VCU_relaysOpenedInFault v"
    and "VCU_relaysOpenedInEstop w = VCU_relaysOpenedInEstop v"
  shows "opening_due w = opening_due v" "critical_stop w = critical_stop v"
  using assms by (simp_all add: opening_due_def critical_stop_def)

section \<open>Once open, they stay open\<close>

lemma critical_stop_step:
  assumes "critical_stop v" "critical_input VS_FAULT i"
  shows "critical_stop (fst (vcu_input_step send recv i v)) \<and>
    set (relay_cmds (snd (vcu_input_step send recv i v))) \<subseteq> {AllOff False, AllOff True}"
proof (cases i)
  case Step
  have "critical_stop (fst (vcu_run recv v))"
    using assms(1) critical_refuses_reset [OF assms(1)]
    by (auto simp: critical_stop_def vcu_run_state event_step_def fault_due_def)
  moreover have "AllOn \<notin> set (relay_cmds (snd (vcu_run recv v)))"
    using vcu_run_AllOn [of recv v] assms(1) by (auto simp: critical_stop_def)
  moreover have "set cs \<subseteq> {AllOff False, AllOff True}" if "AllOn \<notin> set cs" for cs
  proof
    fix c
    assume "c \<in> set cs"
    with that have "c \<noteq> AllOn" by blast
    then obtain b where "c = AllOff b" by (cases c) simp_all
    then show "c \<in> {AllOff False, AllOff True}" by (cases b) simp_all
  qed
  ultimately show ?thesis using Step by simp
next
  case (Post e)
  then show ?thesis using assms(1) by (simp add: critical_stop_def)
next
  case (Data d)
  then show ?thesis using assms
    by (simp add: critical_stop_def critical_input_def setTelemetryData_def)
qed

lemma critical_stop_run:
  "critical_stop v \<Longrightarrow> list_all (critical_input VS_FAULT) is \<Longrightarrow>
   critical_stop (fst (vcu_trace send recv is v)) \<and>
   set (relay_cmds (snd (vcu_trace send recv is v))) \<subseteq> {AllOff False, AllOff True}"
proof (induction "is" arbitrary: v)
  case (Cons i "is")
  then show ?case using critical_stop_step [of v i send recv] by simp
qed simp

lemma ends_open: "ends_with False cs \<Longrightarrow> set ds \<subseteq> {AllOff False, AllOff True} \<Longrightarrow> ends_with False (cs @ ds)"
  by (cases "ds = []") (auto simp: ends_with_def dest: last_in_set)

section \<open>Progress\<close>

locale vcu_events = event_queue send recv contents capacity inv
  for send :: "VcuEvent \<Rightarrow> 'q \<Rightarrow> 'q option" and recv :: "'q \<Rightarrow> (VcuEvent \<times> 'q) option"
    and contents :: "'q \<Rightarrow> VcuEvent list" and capacity :: nat and inv :: "'q \<Rightarrow> bool"
begin

definition queue_ok :: "'q Vcu \<Rightarrow> bool" where
  "queue_ok v = (case VCU_eventQueue v of None \<Rightarrow> False | Some q \<Rightarrow> inv q)"

definition waiting :: "'q Vcu \<Rightarrow> nat" where
  "waiting v = (case VCU_eventQueue v of None \<Rightarrow> 0 | Some q \<Rightarrow> length (contents q))"

text \<open>The steps that can still pass without opening, and how far the timer can get meanwhile.\<close>

definition delay :: "'q Vcu \<Rightarrow> nat" where
  "delay v = 2 * waiting v + (if VCU_state v = VS_FAULT then 1 else 0)"

definition timer_ok :: "nat \<Rightarrow> 'q Vcu \<Rightarrow> bool" where
  "timer_ok n v \<longleftrightarrow> unat (VCU_stateTimer v) + 20 * (waiting v + n) \<le> 2 ^ 31"

lemma poll_cases:
  assumes "queue_ok v"
  obtains "pollEvent recv v = None"
  | e q' where "pollEvent recv v = Some (e, v\<lparr>VCU_eventQueue := Some q'\<rparr>)" "inv q'"
      "waiting v = Suc (length (contents q'))"
proof -
  obtain q where q: "VCU_eventQueue v = Some q" "inv q"
    using assms by (auto simp: queue_ok_def split: option.splits)
  from q(2) show ?thesis
  proof (cases rule: recv_cases)
    case 1
    then show ?thesis using that(1) q(1) by (simp add: pollEvent_def)
  next
    case (2 e q')
    then show ?thesis using that(2) [of e q'] q(1) by (simp add: pollEvent_def waiting_def)
  qed
qed

lemma post_keeps:
  assumes "queue_ok v"
  shows "queue_ok (fst (postEvent send e v))"
    "waiting (fst (postEvent send e v)) \<le> waiting v + length (input_queue_posts [Post e])"
proof -
  obtain q where q: "VCU_eventQueue v = Some q" "inv q"
    using assms by (auto simp: queue_ok_def split: option.splits)
  have "inv q' \<and> length (contents q') \<le> Suc (length (contents q))" if "send e q = Some q'" for q'
    using that q(2) send_room [of q e] send_full [of q e]
    by (cases "length (contents q) < capacity") auto
  then show "queue_ok (fst (postEvent send e v))"
    "waiting (fst (postEvent send e v)) \<le> waiting v + length (input_queue_posts [Post e])"
    using q by (auto simp: postEvent_def queue_ok_def waiting_def split: option.split)
qed

lemma post_bounded:
  assumes "queue_ok v" "waiting v \<le> capacity"
  shows "waiting (fst (postEvent send e v)) \<le> capacity"
proof -
  obtain q where q: "VCU_eventQueue v = Some q" "inv q"
    using assms(1) by (auto simp: queue_ok_def split: option.splits)
  have "length (contents q') \<le> capacity" if "send e q = Some q'" for q'
    using that q(2) send_room [of q e] send_full [of q e]
    by (cases "length (contents q) < capacity") auto
  then show ?thesis using q assms(2) by (auto simp: postEvent_def waiting_def split: option.split)
qed

lemma periodic_opens:
  assumes "opening_due v" "20 \<le> unat (VCU_stateTimer v)"
  shows "relay_cmds (snd (periodic v)) = [AllOff False]"
proof -
  have "\<not> VCU_stateTimer v < 20" using assms(2) by (simp add: word_less_nat_alt)
  then show ?thesis using assms(1)
    by (auto simp: periodic_cmds stop_opens_def opening_due_def critical_stop_def)
qed

lemma periodic_keeps [simp]:
  "critical_stop (fst (periodic v)) = critical_stop v"
  by (simp add: critical_stop_def)

text \<open>A step opens the contactors, or it costs an event of the queue or leads from FAULT to the stop.\<close>

lemma stop_poll_progress:
  assumes "opening_due v" "queue_ok v" "20 \<le> unat (VCU_stateTimer v)"
  shows "relay_cmds (snd (after_poll recv v)) = [AllOff False] \<or>
    relay_cmds (snd (after_poll recv v)) = [] \<and> opening_due (fst (after_poll recv v)) \<and>
      queue_ok (fst (after_poll recv v)) \<and> delay (fst (after_poll recv v)) < delay v \<and>
      unat (VCU_stateTimer (fst (after_poll recv v))) \<le> unat (VCU_stateTimer v) \<and>
      waiting (fst (after_poll recv v)) < waiting v"
  using assms(2)
proof (cases rule: poll_cases)
  case 1
  then show ?thesis using periodic_opens [OF assms(1,3)] by (simp add: after_poll_def)
next
  case (2 e q')
  let ?w = "v\<lparr>VCU_eventQueue := Some q'\<rparr>"
  have r: "after_poll recv v = handleEvent e ?w" using 2(1) by (simp add: after_poll_def)
  have stop: "VCU_state v \<in> {VS_FAULT, VS_EMERGENCY_STOP}" "critical_stop v"
    using assms(1) by (simp_all add: opening_due_def critical_stop_def)
  have due: "opening_due ?w" using assms(1) stop_keeps_opening(1) [of ?w v] by simp
  have w: "waiting ?w = length (contents q')" "queue_ok ?w" using 2(2) by (simp_all add: waiting_def queue_ok_def)
  consider "e = VE_EMERGENCY_STOP \<or> e = VE_FAULT_DETECTED" | "e = VE_RESET"
    | "e \<notin> {VE_EMERGENCY_STOP, VE_FAULT_DETECTED, VE_RESET}" by blast
  then show ?thesis
  proof cases
    case 1
    then show ?thesis using stop 2(2,3) unfolding r
      by (auto simp: handleEvent_def opening_due_def critical_stop_def delay_def waiting_def queue_ok_def)
  next
    case 2
    have "\<not> isResetInterlockSatisfied (VCU_latestData v) (VCU_state v)"
      using critical_refuses_reset stop(2) .
    then have "handleEvent e ?w = (?w, [VcuLog LogResetRejected])"
      using 2 stop(1) by (auto simp: handleEvent_def getTelemetrySnapshot_def)
    then show ?thesis using due w \<open>waiting v = _\<close> unfolding r by (simp add: delay_def)
  next
    case 3
    have "relay_cmds (snd (handleEvent e ?w)) = relay_cmds (snd (periodic ?w))"
      using 3 stop(1) by (auto simp: handleEvent_cmds)
    then show ?thesis using periodic_opens [OF due] assms(3) unfolding r by simp
  qed
qed

lemma begun_keeps:
  assumes "w = fst (updateWarning (tick v))"
  shows "opening_due w = opening_due v" "queue_ok w = queue_ok v" "waiting w = waiting v"
    "delay w = delay v" "VCU_stateTimer w = VCU_stateTimer v + 20"
  using assms by (simp_all add: opening_due_def critical_stop_def queue_ok_def waiting_def delay_def
      TASK_PERIOD_MS_def)

lemma stop_step_progress:
  assumes "opening_due v" "queue_ok v" "timer_ok n v"
  shows "relay_cmds (snd (vcu_run recv v)) = [AllOff False] \<or>
    relay_cmds (snd (vcu_run recv v)) = [] \<and> opening_due (fst (vcu_run recv v)) \<and>
      queue_ok (fst (vcu_run recv v)) \<and> delay (fst (vcu_run recv v)) < delay v \<and>
      timer_ok n (fst (vcu_run recv v))"
proof (cases v rule: run_exhaust)
  case estop
  then have "VCU_state v = VS_FAULT"
    using assms(1) by (auto simp: estop_due_def opening_due_def critical_stop_def)
  with estop assms show ?thesis
    by (simp add: vcu_run_cases opening_due_def critical_stop_def queue_ok_def delay_def waiting_def timer_ok_def)
next
  case fault
  then show ?thesis using assms(1) by (auto simp: fault_due_def opening_due_def critical_stop_def)
next
  case normal
  define w where "w = fst (updateWarning (tick v))"
  note w = begun_keeps [OF w_def]
  have small: "unat (VCU_stateTimer v) + 20 < 2 ^ 32" using assms(3) by (simp add: timer_ok_def)
  have t: "unat (VCU_stateTimer w) = unat (VCU_stateTimer v) + 20"
    unfolding w(5) using small by (subst unat_add_lem [THEN iffD1]) simp_all
  have r: "fst (vcu_run recv v) = fst (after_poll recv w)"
    "relay_cmds (snd (vcu_run recv v)) = relay_cmds (snd (after_poll recv w))"
    using normal by (simp_all add: vcu_run_cases w_def)
  from stop_poll_progress [of w] assms(1,2) w t show ?thesis
    using assms(3) unfolding r timer_ok_def by auto
qed

lemma opens_run:
  "opening_due v \<Longrightarrow> queue_ok v \<Longrightarrow> timer_ok (length (input_queue_posts is)) v \<Longrightarrow>
   list_all (critical_input VS_FAULT) is \<Longrightarrow> delay v + 2 * length (input_queue_posts is) < task_steps is \<Longrightarrow>
   ends_with False (relay_cmds (snd (vcu_trace send recv is v)))"
proof (induction "is" arbitrary: v)
  case (Cons i "is")
  show ?case
  proof (cases i)
    case Step
    have t: "timer_ok (length (input_queue_posts is)) v" using Cons.prems(3) Step by simp
    from stop_step_progress [OF Cons.prems(1,2) t] show ?thesis
    proof
      assume "relay_cmds (snd (vcu_run recv v)) = [AllOff False]"
      moreover have "set (relay_cmds (snd (vcu_trace send recv is (fst (vcu_run recv v))))) \<subseteq> {AllOff False, AllOff True}"
        using critical_stop_step [of v Step send recv] critical_stop_run [of "fst (vcu_run recv v)" "is"]
          Cons.prems(1,4) Step by (simp add: opening_due_def)
      ultimately show ?thesis using Step ends_open [of "[AllOff False]"] by (simp add: ends_with_def)
    next
      assume p: "relay_cmds (snd (vcu_run recv v)) = [] \<and> opening_due (fst (vcu_run recv v)) \<and>
        queue_ok (fst (vcu_run recv v)) \<and> delay (fst (vcu_run recv v)) < delay v \<and>
        timer_ok (length (input_queue_posts is)) (fst (vcu_run recv v))"
      then have "delay (fst (vcu_run recv v)) + 2 * length (input_queue_posts is) < task_steps is"
        using Cons.prems(5) Step by simp
      with Cons.IH [of "fst (vcu_run recv v)"] p Cons.prems(4) Step show ?thesis by simp
    qed
  next
    case (Post e)
    let ?w = "fst (postEvent send e v)"
    have len: "length (input_queue_posts (i # is)) =
        length (input_queue_posts [Post e]) + length (input_queue_posts is)"
      using input_queue_posts_append [of "[Post e]" "is"] Post by simp
    have same: "VCU_state ?w = VCU_state v" "VCU_latestData ?w = VCU_latestData v"
      "VCU_relaysOpenedInFault ?w = VCU_relaysOpenedInFault v"
      "VCU_relaysOpenedInEstop ?w = VCU_relaysOpenedInEstop v" "VCU_stateTimer ?w = VCU_stateTimer v"
      by (auto simp: postEvent_def split: option.split)
    note k = post_keeps [OF Cons.prems(2), of e]
    have "timer_ok (length (input_queue_posts is)) ?w"
      using Cons.prems(3) k(2) len same(5) by (simp add: timer_ok_def)
    moreover have "delay ?w + 2 * length (input_queue_posts is) < task_steps is"
      using Cons.prems(5) k(2) len same(1) Post by (simp add: delay_def)
    ultimately show ?thesis
      using Cons.IH [of ?w] k(1) stop_keeps_opening(1) [of ?w v, OF same(1-4)] Cons.prems(1,4) Post by simp
  next
    case (Data d)
    let ?w = "setTelemetryData d v"
    have same: "VCU_state ?w = VCU_state v" "VCU_relaysOpenedInFault ?w = VCU_relaysOpenedInFault v"
      "VCU_relaysOpenedInEstop ?w = VCU_relaysOpenedInEstop v" "VCU_stateTimer ?w = VCU_stateTimer v"
      "VCU_eventQueue ?w = VCU_eventQueue v" "VCU_latestData ?w \<in> {d, VCU_latestData v}"
      by (simp_all add: setTelemetryData_def)
    have "opening_due ?w"
      using Cons.prems(1,4) same Data by (auto simp: opening_due_def critical_stop_def critical_input_def)
    then show ?thesis
      using Cons.IH [of ?w] Cons.prems Data same
      by (simp add: queue_ok_def waiting_def delay_def timer_ok_def)
  qed
qed simp

text \<open>From a running state with a critical condition.\<close>

definition critical_live :: "'q Vcu \<Rightarrow> bool" where
  "critical_live v \<longleftrightarrow> VCU_state v \<in> {VS_IDLE, VS_READY, VS_DRIVE} \<and>
     hasCriticalCondition (VCU_latestData v) (VCU_state v)"

lemma critical_live_step:
  assumes "critical_live v" "queue_ok v" "waiting v + n \<le> 10 ^ 8"
  shows "opening_due (fst (vcu_run recv v)) \<and> queue_ok (fst (vcu_run recv v)) \<and>
    timer_ok n (fst (vcu_run recv v)) \<and> delay (fst (vcu_run recv v)) \<le> 2 * waiting v + 1 \<and>
    relay_cmds (snd (vcu_run recv v)) = []"
proof -
  have crit: "hasCriticalCondition (VCU_latestData v) VS_FAULT"
    using assms(1) critical_in_stop unfolding critical_live_def by blast
  show ?thesis
  proof (cases v rule: run_exhaust)
    case normal
    then show ?thesis using assms(1) by (auto simp: fault_due_def critical_live_def)
  qed (use assms(2,3) crit in \<open>simp_all add: vcu_run_cases opening_due_def critical_stop_def
    queue_ok_def delay_def waiting_def timer_ok_def\<close>)
qed

lemma live_opens_run:
  "critical_live v \<Longrightarrow> queue_ok v \<Longrightarrow> waiting v + length (input_queue_posts is) \<le> 10 ^ 8 \<Longrightarrow>
   list_all (critical_input (VCU_state v)) is \<Longrightarrow>
   2 * (waiting v + length (input_queue_posts is)) + 2 < task_steps is \<Longrightarrow>
   ends_with False (relay_cmds (snd (vcu_trace send recv is v))) \<and>
   critical_stop (fst (vcu_trace send recv is v))"
proof (induction "is" arbitrary: v)
  case (Cons i "is")
  show ?case
  proof (cases i)
    case Step
    have "waiting v + length (input_queue_posts is) \<le> 10 ^ 8" using Cons.prems(3) Step by simp
    note s = critical_live_step [OF Cons.prems(1,2) this]
    moreover have "delay (fst (vcu_run recv v)) + 2 * length (input_queue_posts is) < task_steps is"
      using s Cons.prems(5) Step by simp
    moreover have "list_all (critical_input VS_FAULT) is"
      using Cons.prems(4) by (intro critical_inputs_stop [of "VCU_state v"]) simp
    ultimately show ?thesis
      using opens_run [of "fst (vcu_run recv v)" "is"] critical_stop_run [of "fst (vcu_run recv v)" "is"] Step
      by (simp add: opening_due_def)
  next
    case (Post e)
    let ?w = "fst (postEvent send e v)"
    have len: "length (input_queue_posts (i # is)) =
        length (input_queue_posts [Post e]) + length (input_queue_posts is)"
      using input_queue_posts_append [of "[Post e]" "is"] Post by simp
    note k = post_keeps [OF Cons.prems(2), of e]
    have "critical_live ?w" using Cons.prems(1) by (simp add: critical_live_def)
    with Cons.IH [of ?w] k len Cons.prems Post show ?thesis by simp
  next
    case (Data d)
    let ?w = "setTelemetryData d v"
    have "critical_live ?w"
      using Cons.prems(1,4) Data by (simp add: critical_live_def critical_input_def setTelemetryData_def)
    with Cons.IH [of ?w] Cons.prems Data show ?thesis by (simp add: queue_ok_def waiting_def)
  qed
qed simp

end

interpretation fake_events: vcu_events fake_xQueueSend fake_xQueueReceive FQ_queue
  VCU_QUEUE_LENGTH "\<lambda>q. FQ_capacity q = VCU_QUEUE_LENGTH"
  by unfold_locales

section \<open>Property\<close>

text \<open>
  A critical condition in IDLE, READY or DRIVE opens all ten contactors, whatever the other tasks
  do. Let the telemetry stay critical, let events be waiting in the queue and others be posted, in any
  order with the steps of the state machine: after two steps for each waiting or posted event other
  than an emergency stop, and three more, every contactor is open and the unit is in a stop state.
\<close>

lemma critical_opens_contactors:
  assumes "vcu_reach fake_xQueueSend fake_xQueueReceive v acts"
    and "VCU_state v \<in> {VS_IDLE, VS_READY, VS_DRIVE}"
    and "hasCriticalCondition (VCU_latestData v) (VCU_state v)"
    and "VCU_eventQueue v = Some q" "FQ_capacity q = VCU_QUEUE_LENGTH"
    and "list_all (critical_input (VCU_state v)) is" "length (FQ_queue q) + length (input_queue_posts is) \<le> 10 ^ 8"
    and "2 * (length (FQ_queue q) + length (input_queue_posts is)) + 3 \<le> task_steps is" "i < 10"
  shows "\<not> energised (snd (relay_bank.exec
      (relay_cmds (acts @ snd (vcu_trace fake_xQueueSend fake_xQueueReceive is v))) bank_boot)) i \<and>
    VCU_state (fst (vcu_trace fake_xQueueSend fake_xQueueReceive is v)) \<in> {VS_FAULT, VS_EMERGENCY_STOP}"
proof -
  have "fake_events.critical_live v"
    using assms(2,3) by (simp only: fake_events.critical_live_def simp_thms)
  moreover have "fake_events.queue_ok v" "fake_events.waiting v = length (FQ_queue q)"
    using assms(4,5) by (simp_all add: fake_events.queue_ok_def fake_events.waiting_def)
  ultimately have "ends_with False (relay_cmds (snd (vcu_trace fake_xQueueSend fake_xQueueReceive is v))) \<and>
      critical_stop (fst (vcu_trace fake_xQueueSend fake_xQueueReceive is v))"
    using fake_events.live_opens_run [of v "is"] assms(6-8) by simp
  then show ?thesis unfolding bank_after [OF assms(9)] by (auto simp: ends_with_def critical_stop_def)
qed

text \<open>A running unit whose motor fails, with a reset waiting and a fault posted meanwhile.\<close>

definition failing_data :: TelemetryData where
  "failing_data = TelemetryData_zero\<lparr>TEL_motorErrorFlags := 1\<rparr>"

definition vcu_failing :: "VcuEvent fake_queue Vcu" where
  "vcu_failing = setTelemetryData failing_data
     (fst (postEvent fake_xQueueSend VE_RESET (fst vcu_started)))"

lemma vcu_started_mutex: "VCU_dataMutex (fst vcu_started)"
  using reach_ready [OF vcu_started_reach] by blast

lemma vcu_failing_simps:
  "VCU_state vcu_failing = VS_READY" "VCU_latestData vcu_failing = failing_data"
  "VCU_eventQueue vcu_failing = Some \<lparr>FQ_queue = [VE_RESET], FQ_capacity = 8\<rparr>"
  by (simp_all add: vcu_failing_def setTelemetryData_def postEvent_def vcu_started_simps
      fake_xQueueSend_def vcu_started_mutex)

lemma vcu_failing_reach:
  "vcu_reach fake_xQueueSend fake_xQueueReceive vcu_failing (vcu_start_acts @ snd vcu_started)"
proof -
  have "snd (postEvent fake_xQueueSend VE_RESET (fst vcu_started)) = []"
    by (simp add: postEvent_def vcu_started_simps fake_xQueueSend_def)
  then show ?thesis
    using vcu_reach.data [OF vcu_reach.post [OF vcu_started_reach, of VE_RESET], of failing_data]
    by (simp add: vcu_failing_def)
qed

lemma critical_opens_contactors_witness:
  "\<not> energised (snd (relay_bank.exec (relay_cmds ((vcu_start_acts @ snd vcu_started) @
     snd (vcu_trace fake_xQueueSend fake_xQueueReceive
       [Step, Post VE_FAULT_DETECTED, Data failing_data, Step, Step, Step, Step, Step, Step] vcu_failing))) bank_boot)) 4"
proof (rule critical_opens_contactors [OF vcu_failing_reach _ _ vcu_failing_simps(3), THEN conjunct1])
  show "hasCriticalCondition (VCU_latestData vcu_failing) (VCU_state vcu_failing)"
    by (simp add: vcu_failing_simps failing_data_def hasCriticalCondition_def)
  show "list_all (critical_input (VCU_state vcu_failing)) [Step, Post VE_FAULT_DETECTED, Data failing_data, Step, Step, Step, Step, Step, Step]"
    by (simp add: critical_input_def vcu_failing_simps failing_data_def hasCriticalCondition_def)
qed (simp_all add: vcu_failing_simps VCU_QUEUE_LENGTH_def)

end
