(* ===== verification/App_Liveness.thy ===== *)
theory App_Liveness
  imports App_Uplink Vcu_Liveness
begin

text \<open>
  A critical pack or motor opens the contactors of the interleaved application of \<open>src/main.cpp\<close>:
  the bound of \<open>Vcu_Liveness\<close>, for any interleaving of the accesses of the four tasks.
\<close>

section \<open>Runs and what they do to the state machine\<close>

text \<open>A condition that holds of every state in which the run takes a step.\<close>

fun fine_through ::
  "(VcuEvent \<Rightarrow> 'q \<Rightarrow> 'q option) \<Rightarrow> ('q \<Rightarrow> (VcuEvent \<times> 'q) option) \<Rightarrow> (u32 \<Rightarrow> TickType_t) \<Rightarrow>
   ('q Fine \<Rightarrow> bool) \<Rightarrow> fine_step list \<Rightarrow> 'q Fine \<Rightarrow> bool" where
  "fine_through send recv ms P [] f = True"
| "fine_through send recv ms P (st # sts) f =
     (P f \<and> (case fine_next send recv ms st f of None \<Rightarrow> True | Some f' \<Rightarrow> fine_through send recv ms P sts f'))"

fun run_micros ::
  "(VcuEvent \<Rightarrow> 'q \<Rightarrow> 'q option) \<Rightarrow> ('q \<Rightarrow> (VcuEvent \<times> 'q) option) \<Rightarrow> (u32 \<Rightarrow> TickType_t) \<Rightarrow>
   fine_step list \<Rightarrow> 'q Fine \<Rightarrow> vcu_micro list" where
  "run_micros send recv ms [] f = []"
| "run_micros send recv ms (st # sts) f =
     micros st f @ (case fine_next send recv ms st f of None \<Rightarrow> [] | Some f' \<Rightarrow> run_micros send recv ms sts f')"

definition sensor_critical :: "VcuState \<Rightarrow> 'q Fine \<Rightarrow> bool" where
  "sensor_critical s f = pred_option (\<lambda>d. hasCriticalCondition d s) (sensor_peek (FN_app f))"

definition post_steps :: "fine_step list \<Rightarrow> nat" where
  "post_steps sts = length (filter (\<lambda>st. st = CanPostStep \<or> st = HmiPostStep) sts)"

lemma fine_run_micros:
  "fine_run send recv ms sts f = Some f' \<Longrightarrow>
   \<exists>acts. micro_run send recv (run_micros send recv ms sts f) (polling f, APP_vcu (FN_app f)) =
       Some ((polling f', APP_vcu (FN_app f')), acts) \<and>
     relay_bank.exec (pending_cmds (FN_vcu f')) (APP_bank (FN_app f')) =
     relay_bank.exec (pending_cmds (FN_vcu f) @ relay_cmds acts) (APP_bank (FN_app f))"
proof (induction sts arbitrary: f)
  case (Cons st sts)
  then obtain f1 where f1: "fine_next send recv ms st f = Some f1" "fine_run send recv ms sts f1 = Some f'"
    by (auto split: option.splits)
  obtain a1 where a1: "micro_run send recv (micros st f) (polling f, APP_vcu (FN_app f)) =
      Some ((polling f1, APP_vcu (FN_app f1)), a1)"
    "relay_bank.exec (pending_cmds (FN_vcu f1)) (APP_bank (FN_app f1)) =
      relay_bank.exec (pending_cmds (FN_vcu f) @ relay_cmds a1) (APP_bank (FN_app f))"
    using fine_micro [OF f1(1)] by blast
  obtain a2 where a2: "micro_run send recv (run_micros send recv ms sts f1) (polling f1, APP_vcu (FN_app f1)) =
      Some ((polling f', APP_vcu (FN_app f')), a2)"
    "relay_bank.exec (pending_cmds (FN_vcu f')) (APP_bank (FN_app f')) =
      relay_bank.exec (pending_cmds (FN_vcu f1) @ relay_cmds a2) (APP_bank (FN_app f1))"
    using Cons.IH [OF f1(2)] by blast
  have "micro_run send recv (run_micros send recv ms (st # sts) f) (polling f, APP_vcu (FN_app f)) =
      Some ((polling f', APP_vcu (FN_app f')), a1 @ a2)"
    by (simp add: f1(1) micro_run_append a1(1) a2(1))
  moreover have "relay_bank.exec (pending_cmds (FN_vcu f')) (APP_bank (FN_app f')) =
      relay_bank.exec (pending_cmds (FN_vcu f) @ relay_cmds (a1 @ a2)) (APP_bank (FN_app f))"
    using a1(2) a2(2) by simp
  ultimately show ?case by blast
qed simp

text \<open>Its posts, its data and its steps.\<close>

lemma run_micros_counts:
  "fine_run send recv ms sts f = Some f' \<Longrightarrow> fine_through send recv ms (sensor_critical s) sts f \<Longrightarrow>
   length (micro_queue_posts (run_micros send recv ms sts f)) \<le> post_steps sts \<and>
   count_list (run_micros send recv ms sts f) MBegin = count_list sts VcuBeginStep \<and>
   (\<forall>d. MData d \<in> set (run_micros send recv ms sts f) \<longrightarrow> hasCriticalCondition d s)"
proof (induction sts arbitrary: f)
  case (Cons st sts)
  then obtain f1 where f1: "fine_next send recv ms st f = Some f1" "fine_run send recv ms sts f1 = Some f'"
    by (auto split: option.splits)
  have c: "sensor_critical s f" "fine_through send recv ms (sensor_critical s) sts f1"
    using Cons.prems(2) f1(1) by simp_all
  have "length (micro_queue_posts (micros st f)) \<le> post_steps [st]"
    by (cases st) (auto simp: post_steps_def split: option.split can_pc.split hmi_pc.split list.split)
  moreover have "count_list (micros st f) MBegin = count_list [st] VcuBeginStep"
    by (cases st) (auto split: option.split can_pc.split hmi_pc.split list.split)
  moreover have "\<forall>d. MData d \<in> set (micros st f) \<longrightarrow> hasCriticalCondition d s"
    using c(1) by (cases st; cases "sensor_peek (FN_app f)") (auto simp: sensor_critical_def
        split: can_pc.splits hmi_pc.splits list.splits)
  moreover have "post_steps (st # sts) = post_steps [st] + post_steps sts" by (simp add: post_steps_def)
  ultimately show ?case using Cons.IH [OF f1(2) c(2)] f1(1) by auto
qed (simp add: post_steps_def)

lemma serial_criticals:
  assumes "[d. Data d \<leftarrow> is] = [d. MData d \<leftarrow> mic]" "\<forall>d. MData d \<in> set mic \<longrightarrow> hasCriticalCondition d s"
  shows "list_all (critical_input s) is"
proof -
  have "Data d \<in> set is \<Longrightarrow> d \<in> set [d. Data d \<leftarrow> is]" for d by auto
  moreover have "d \<in> set [d. MData d \<leftarrow> mic] \<Longrightarrow> MData d \<in> set mic" for d
    by (auto split: vcu_micro.splits)
  ultimately have "Data d \<in> set is \<Longrightarrow> hasCriticalCondition d s" for d using assms by metis
  then show ?thesis by (auto simp: list_all_iff critical_input_def split: vcu_input.split)
qed

lemma task_steps_count: "task_steps is = count_list is Step"
  by (induction "is") (auto simp: task_steps_def)

section \<open>Property\<close>

text \<open>
  C2: a critical condition opens the contactors of the running application. From any state the
  interleaved tasks can reach in which the unit is in IDLE, READY or DRIVE between two of its steps and
  holds critical telemetry, and as long as the sensor queue holds critical telemetry: when the state
  machine has begun two steps for each event that was waiting and for each post of the CAN and display
  tasks, and three more, and the step under way has ended, all ten contactors are open and the unit is
  in FAULT or EMERGENCY_STOP, in any interleaving of the accesses of the four tasks.
\<close>

lemma interleaved_critical_opens:
  assumes "fine_reach fake_xQueueSend fake_xQueueReceive ms boot f" "FN_vcu f \<noteq> VcuPoll"
    and "VCU_state (APP_vcu (FN_app f)) \<in> {VS_IDLE, VS_READY, VS_DRIVE}"
    and "hasCriticalCondition (VCU_latestData (APP_vcu (FN_app f))) (VCU_state (APP_vcu (FN_app f)))"
    and "VCU_eventQueue (APP_vcu (FN_app f)) = Some q" "FQ_capacity q = VCU_QUEUE_LENGTH"
    and "fine_run fake_xQueueSend fake_xQueueReceive ms sts f = Some f'"
    and "fine_through fake_xQueueSend fake_xQueueReceive ms
      (sensor_critical (VCU_state (APP_vcu (FN_app f)))) sts f"
    and "length (FQ_queue q) + post_steps sts \<le> 10 ^ 8"
    and "2 * (length (FQ_queue q) + post_steps sts) + 3 \<le> count_list sts VcuBeginStep"
    and "FN_vcu f' \<in> {VcuIdle, VcuFed}" "i < 10"
  shows "\<not> energised (snd (APP_bank (FN_app f'))) i \<and>
    VCU_state (APP_vcu (FN_app f')) \<in> {VS_FAULT, VS_EMERGENCY_STOP}"
proof -
  let ?v = "APP_vcu (FN_app f)"
  let ?mic = "run_micros fake_xQueueSend fake_xQueueReceive ms sts f"
  have ends: "\<not> polling f" "\<not> polling f'" "pending_cmds (FN_vcu f') = []"
    using assms(2,11) by (auto simp: polling_def)
  obtain acts where m: "micro_run fake_xQueueSend fake_xQueueReceive ?mic (False, ?v) =
      Some ((False, APP_vcu (FN_app f')), acts)"
    and bank: "APP_bank (FN_app f') =
      relay_bank.exec (pending_cmds (FN_vcu f) @ relay_cmds acts) (APP_bank (FN_app f))"
    using fine_run_micros [OF assms(7)] ends by auto
  obtain "is" where "is": "serial_run fake_xQueueSend fake_xQueueReceive ?v ?mic
      (False, APP_vcu (FN_app f')) acts is"
    using serial_run_exists [OF m] by blast
  let ?t = "vcu_trace fake_xQueueSend fake_xQueueReceive is ?v"
  have s: "relay_cmds (snd ?t) = relay_cmds acts" "fst ?t = APP_vcu (FN_app f')"
    "input_queue_posts is = micro_queue_posts ?mic" "[d. Data d \<leftarrow> is] = [d. MData d \<leftarrow> ?mic]"
    "count_list is Step = count_list ?mic MBegin"
    using "is" by (simp_all add: serial_run_def owing_def Let_def)
  note counts = run_micros_counts [OF assms(7,8)]
  have "fake_events.critical_live ?v" "fake_events.queue_ok ?v" "fake_events.waiting ?v = length (FQ_queue q)"
    using assms(3-6) by (simp_all add: fake_events.critical_live_def fake_events.queue_ok_def
        fake_events.waiting_def)
  then have open_: "ends_with False (relay_cmds acts) \<and> critical_stop (APP_vcu (FN_app f'))"
    using fake_events.live_opens_run [of ?v "is"] serial_criticals [OF s(4)] counts s assms(9,10)
      task_steps_count [of "is"] by simp
  obtain cmds where "APP_bank (FN_app f) = relay_bank.exec cmds bank_boot"
    using fine_reach_bank [OF assms(1)] by (auto simp: fine_bank_ok_def)
  then have "APP_bank (FN_app f') =
      relay_bank.exec (cmds @ pending_cmds (FN_vcu f) @ relay_cmds acts) bank_boot"
    using bank by simp
  with bank_after [OF assms(12), of "cmds @ pending_cmds (FN_vcu f) @ relay_cmds acts"] open_
  show ?thesis by (auto simp: ends_with_def critical_stop_def)
qed

section \<open>A run\<close>

text \<open>The steps of the other tasks leave the unit in its state and its queue in order.\<close>

lemma other_run:
  "fine_run fake_xQueueSend recv ms sts f = Some f' \<Longrightarrow> list_all (\<lambda>st. \<not> vcu_only st) sts \<Longrightarrow>
   fake_events.queue_ok (APP_vcu (FN_app f)) \<Longrightarrow>
   fake_events.waiting (APP_vcu (FN_app f)) \<le> VCU_QUEUE_LENGTH \<Longrightarrow>
   FN_vcu f' = FN_vcu f \<and> VCU_state (APP_vcu (FN_app f')) = VCU_state (APP_vcu (FN_app f)) \<and>
   VCU_dataMutex (APP_vcu (FN_app f')) = VCU_dataMutex (APP_vcu (FN_app f)) \<and>
   fake_events.queue_ok (APP_vcu (FN_app f')) \<and>
   fake_events.waiting (APP_vcu (FN_app f')) \<le> VCU_QUEUE_LENGTH"
proof (induction sts arbitrary: f)
  case (Cons st sts)
  then obtain f1 where f1: "fine_next fake_xQueueSend recv ms st f = Some f1"
    "fine_run fake_xQueueSend recv ms sts f1 = Some f'"
    by (auto split: option.splits)
  have "\<not> vcu_only st" using Cons.prems(2) by simp
  note o = other_step [OF f1(1) this]
  have "fake_events.queue_ok (APP_vcu (FN_app f1))"
    "fake_events.waiting (APP_vcu (FN_app f1)) \<le> VCU_QUEUE_LENGTH"
    using o fake_events.post_keeps(1) [OF Cons.prems(3)] fake_events.post_bounded [OF Cons.prems(3,4)]
      Cons.prems(3,4) by auto
  from Cons.IH [OF f1(2) _ this] Cons.prems(2) o show ?case by auto
qed simp

text \<open>The state machine is never stuck: from each position of its task a whole iteration is possible.\<close>

definition vcu_runs :: "nat \<Rightarrow> fine_step list \<Rightarrow> 'q Fine \<Rightarrow> bool" where
  "vcu_runs n sts f' \<longleftrightarrow> list_all vcu_only sts \<and> count_list sts VcuBeginStep = n \<and> FN_vcu f' = VcuIdle"

lemma vcu_drives:
  "FN_vcu f = VcuDrive cs \<Longrightarrow> cs \<noteq> [] \<Longrightarrow>
   \<exists>sts f'. fine_run send recv ms sts f = Some f' \<and> vcu_runs 0 sts f'"
proof (induction cs arbitrary: f)
  case (Cons c cs)
  let ?f = "f\<lparr>FN_app := (FN_app f)\<lparr>APP_bank := exec_cmd bank_on bank_off c (APP_bank (FN_app f))\<rparr>,
      FN_vcu := case cs of [] \<Rightarrow> VcuIdle | _ \<Rightarrow> VcuDrive cs\<rparr>"
  have n: "fine_next send recv ms VcuDriveStep f = Some ?f" using Cons.prems by (simp add: vcu_drive_def)
  show ?case
  proof (cases cs)
    case Nil
    with n show ?thesis by (intro exI [of _ "[VcuDriveStep]"] exI [of _ ?f]) (simp add: vcu_runs_def)
  next
    case (Cons c' cs')
    then obtain sts f' where "fine_run send recv ms sts ?f = Some f'" "vcu_runs 0 sts f'"
      using Cons.IH [of ?f] by auto
    with n show ?thesis
      by (intro exI [of _ "VcuDriveStep # sts"] exI [of _ f']) (simp add: vcu_runs_def)
  qed
qed simp

lemma vcu_drive_pc:
  assumes "FN_vcu f = drive_pc acts"
  shows "\<exists>sts f'. fine_run send recv ms sts f = Some f' \<and> vcu_runs 0 sts f'"
proof (cases "relay_cmds acts")
  case Nil
  with assms show ?thesis
    by (intro exI [of _ "[]"] exI [of _ f]) (simp add: drive_pc_def vcu_runs_def)
next
  case (Cons c cs)
  with assms show ?thesis by (intro vcu_drives [where cs = "c # cs"]) (simp_all add: drive_pc_def)
qed

lemma vcu_iteration:
  assumes "FN_vcu f = VcuFed"
  shows "\<exists>sts f'. fine_run send recv ms sts f = Some f' \<and> vcu_runs 1 sts f'"
proof -
  obtain goes_on v acts where b: "run_begin (APP_vcu (FN_app f)) = (goes_on, v, acts)" by (metis prod_cases3)
  let ?f1 = "set_vcu v f\<lparr>FN_vcu := if goes_on then VcuPoll else drive_pc acts\<rparr>"
  have f1: "fine_next send recv ms VcuBeginStep f = Some ?f1" using assms b by (simp add: vcu_begin_def)
  have "\<exists>sts f'. fine_run send recv ms sts ?f1 = Some f' \<and> vcu_runs 0 sts f'"
  proof (cases goes_on)
    case True
    let ?r = "run_finish recv v"
    let ?f2 = "set_vcu (fst ?r) ?f1\<lparr>FN_vcu := drive_pc (snd ?r)\<rparr>"
    have f2: "fine_next send recv ms VcuFinishStep ?f1 = Some ?f2"
      using True by (simp add: vcu_finish_def case_prod_beta)
    obtain sts f' where "fine_run send recv ms sts ?f2 = Some f'" "vcu_runs 0 sts f'"
      using vcu_drive_pc [where send = send and recv = recv and ms = ms, of ?f2 "snd ?r"] by auto
    with f2 show ?thesis
      by (intro exI [of _ "VcuFinishStep # sts"] exI [of _ f']) (simp add: vcu_runs_def del: fine_next.simps)
  next
    case False
    then show ?thesis by (intro vcu_drive_pc [where acts = acts]) simp
  qed
  then obtain sts f' where "fine_run send recv ms sts ?f1 = Some f'" "vcu_runs 0 sts f'" by blast
  with f1 show ?thesis
    by (intro exI [of _ "VcuBeginStep # sts"] exI [of _ f']) (simp add: vcu_runs_def del: fine_next.simps)
qed

lemma vcu_iterations:
  "FN_vcu f = VcuFed \<Longrightarrow> \<exists>sts f'. fine_run send recv ms sts f = Some f' \<and> vcu_runs (Suc n) sts f'"
proof (induction n)
  case 0
  then show ?case using vcu_iteration by simp
next
  case (Suc n)
  then obtain sts f1 where f1: "fine_run send recv ms sts f = Some f1" "vcu_runs (Suc n) sts f1" by blast
  let ?f2 = "set_vcu (vcu_fed (FN_app f1)) f1\<lparr>FN_vcu := VcuFed\<rparr>"
  have f2: "fine_run send recv ms [VcuPeekStep] f1 = Some ?f2"
    using f1(2) by (simp add: vcu_runs_def vcu_peek_def)
  obtain sts' f' where f': "fine_run send recv ms sts' ?f2 = Some f'" "vcu_runs 1 sts' f'"
    using vcu_iteration [where send = send and recv = recv and ms = ms, of ?f2] by auto
  have "fine_run send recv ms (sts @ [VcuPeekStep] @ sts') f = Some f'"
    by (simp only: fine_run_append f1(1) f2 f'(1) option.case)
  then show ?case using f1(2) f'(2)
    by (intro exI [of _ "sts @ [VcuPeekStep] @ sts'"] exI [of _ f']) (simp add: vcu_runs_def)
qed

lemma vcu_only_through:
  "list_all vcu_only sts \<Longrightarrow> sensor_critical s f \<Longrightarrow> fine_through send recv ms (sensor_critical s) sts f"
proof (induction sts arbitrary: f)
  case (Cons st sts)
  have "sensor_critical s f'" if "fine_next send recv ms st f = Some f'" for f'
  proof -
    have "\<forall>t. st \<noteq> CanPublishStep t" using Cons.prems(1) by auto
    from queue_kept [OF that this] Cons.prems(2) show ?thesis by (simp add: sensor_critical_def sensor_peek_def)
  qed
  then show ?case using Cons by (auto split: option.split)
qed simp

text \<open>From boot: a motor frame with an error byte is received, and the unit reads it.\<close>

definition failing_frames :: can_in where
  "failing_frames = two_frames\<lparr>IN_frames := [RxFrame 1 (motor_frame 3000 0 1), RxFrame 1 (bms_frame 0 768 8000)]\<rparr>"

lemma failing_frames_accepted:
  "last_accepted accepts_motor (IN_frames failing_frames) = Some (motor_frame 3000 0 1)"
  "last_accepted accepts_bms (IN_frames failing_frames) = Some (bms_frame 0 768 8000)"
proof -
  have "accepts_motor (motor_frame 3000 0 1)" "\<not> accepts_bms (motor_frame 3000 0 1)"
    "\<not> accepts_motor (bms_frame 0 768 8000)"
    by (simp_all add: accepts_motor_def accepts_bms_def frame_kind_of_def motor_frame_def bms_frame_def
        aks_config)
  moreover have "handled_frames CAN_MAX_FRAMES (IN_frames failing_frames) =
      [motor_frame 3000 0 1, bms_frame 0 768 8000]"
    by (simp add: failing_frames_def CAN_MAX_FRAMES_def numeral_eq_Suc)
  ultimately show "last_accepted accepts_motor (IN_frames failing_frames) = Some (motor_frame 3000 0 1)"
    "last_accepted accepts_bms (IN_frames failing_frames) = Some (bms_frame 0 768 8000)"
    using accepts_bms_frame [of 0 768 8000] by (simp_all add: last_accepted_def)
qed

lemma failing_start:
  "\<exists>f q d. fine_good f \<and> FN_vcu f = VcuFed \<and> VCU_state (APP_vcu (FN_app f)) = VS_IDLE \<and>
     VCU_latestData (APP_vcu (FN_app f)) = d \<and> sensor_peek (FN_app f) = Some d \<and> hasCriticalCondition d VS_IDLE \<and>
     VCU_eventQueue (APP_vcu (FN_app f)) = Some q \<and> FQ_capacity q = VCU_QUEUE_LENGTH \<and>
     length (FQ_queue q) \<le> 8"
proof -
  obtain c where c: "APP_can booted_app = Some c" "CM_isInitialized c" using booted_can_live .
  have app: "FN_app fine_booted = booted_app" "FN_vcu fine_booted = VcuIdle"
    by (simp_all add: fine_booted_def fine_start_def)
  have boot: "VCU_state (APP_vcu booted_app) = VS_IDLE" "VCU_dataMutex (APP_vcu booted_app)"
    "fake_events.queue_ok (APP_vcu booted_app)" "fake_events.waiting (APP_vcu booted_app) \<le> VCU_QUEUE_LENGTH"
    using boot_cases [OF good_boot_main]
    by (simp_all add: good_boot_def vcu_init_def Let_def case_prod_beta fake_events.queue_ok_def
        fake_events.waiting_def fake_xQueueCreate_def)
  obtain n f1 where f1: "fine_go (CanWorkStep failing_frames # replicate n CanPostStep @ CanPublishStep 7 # [])
      fine_booted = Some f1"
    using can_pass_runs [of failing_frames] by auto
  have "APP_can (FN_app fine_booted) = Some c" "\<forall>t. CanPublishStep t \<notin> set (replicate n CanPostStep)"
    "\<forall>t. CanPublishStep t \<notin> set []" "APP_sensorQueue (FN_app fine_booted) \<noteq> None"
    using c(1) app booted_app_simps by simp_all
  from published_parts [OF fine_booted_reach this(1) c(2) f1 this(2-4) failing_frames_accepted]
  obtain d where d: "APP_sensorQueue (FN_app f1) = Some (Some d)" "TEL_motorErrorFlags d = 1"
    by (auto simp: motor_of_def motor_frame_def)
  have o: "FN_vcu f1 = VcuIdle" "VCU_state (APP_vcu (FN_app f1)) = VS_IDLE"
    "VCU_dataMutex (APP_vcu (FN_app f1))" "fake_events.queue_ok (APP_vcu (FN_app f1))"
    "fake_events.waiting (APP_vcu (FN_app f1)) \<le> VCU_QUEUE_LENGTH"
    using other_run [OF f1] app boot by (simp_all add: list_all_iff)
  let ?f = "set_vcu (setTelemetryData d (APP_vcu (FN_app f1))) f1\<lparr>FN_vcu := VcuFed\<rparr>"
  have "fine_next fake_xQueueSend fake_xQueueReceive ms10 VcuPeekStep f1 = Some ?f"
    using o(1) d(1) by (simp add: vcu_peek_def vcu_fed_def)
  from fine_reach.step [OF fine_run_reach [OF fine_booted_reach f1] this] have r: "fine_good ?f" .
  obtain q where "VCU_eventQueue (APP_vcu (FN_app f1)) = Some q" "FQ_capacity q = VCU_QUEUE_LENGTH"
      "length (FQ_queue q) \<le> 8"
    using o(4) o(5) [unfolded VCU_QUEUE_LENGTH_def]
    by (auto simp: fake_events.queue_ok_def fake_events.waiting_def split: option.splits)
  then show ?thesis using r o(2,3) d
    by (intro exI [of _ ?f] exI [of _ q] exI [of _ d])
      (simp add: setTelemetryData_def sensor_peek_def hasCriticalCondition_def)
qed

lemma interleaved_critical_opens_witness:
  "\<exists>f sts f'. fine_good f \<and> VCU_state (APP_vcu (FN_app f)) = VS_IDLE \<and> fine_go sts f = Some f' \<and>
    \<not> energised (snd (APP_bank (FN_app f'))) 7 \<and>
    VCU_state (APP_vcu (FN_app f')) \<in> {VS_FAULT, VS_EMERGENCY_STOP}"
proof -
  obtain f q d where f: "fine_good f" "FN_vcu f = VcuFed" "VCU_state (APP_vcu (FN_app f)) = VS_IDLE"
    "VCU_latestData (APP_vcu (FN_app f)) = d" "sensor_peek (FN_app f) = Some d" "hasCriticalCondition d VS_IDLE"
    "VCU_eventQueue (APP_vcu (FN_app f)) = Some q" "FQ_capacity q = VCU_QUEUE_LENGTH"
    and eight: "length (FQ_queue q) \<le> 8"
    using failing_start by blast
  then have small: "length (FQ_queue q) \<le> 10 ^ 8" by simp
  obtain sts f' where s: "fine_go sts f = Some f'" "vcu_runs (Suc (2 * length (FQ_queue q) + 2)) sts f'"
    using vcu_iterations [OF f(2), where n = "2 * length (FQ_queue q) + 2"] by blast
  then have only: "list_all vcu_only sts" and idle: "FN_vcu f' = VcuIdle"
    and begins: "count_list sts VcuBeginStep = 2 * length (FQ_queue q) + 3"
    by (simp_all add: vcu_runs_def)
  have none: "post_steps sts = 0"
    using only unfolding post_steps_def by (induction sts) auto
  have "sensor_critical VS_IDLE f" using f(5,6) by (simp add: sensor_critical_def)
  note through = vcu_only_through [OF only this]
  have "\<not> energised (snd (APP_bank (FN_app f'))) 7 \<and>
    VCU_state (APP_vcu (FN_app f')) \<in> {VS_FAULT, VS_EMERGENCY_STOP}"
    by (rule interleaved_critical_opens [OF f(1) _ _ _ f(7,8) s(1)])
      (use f small begins none idle through in simp_all)
  with f(1,3) s(1) show ?thesis by blast
qed

end
