(* ===== verification/Can_Replay.thy ===== *)
theory Can_Replay
  imports Can_Parse "HOL-Library.Mapping"
begin

text \<open>
  The offline regression tool \<open>tools/can_replay/can_replay.cpp\<close>: it reads a recorded CAN session
  from a text log, runs every frame through the parsers of \<open>Can_Parse\<close>, and exits with 0 when no
  line and no frame was objected to. The log is the string of the file's characters; a file that
  cannot be opened is \<open>None\<close>. The C library's number conversions and stream extractions that the
  tool calls are written out, for a host with 64-bit \<open>long\<close>. The summary printed at the end is in
  \<open>Replay_Report\<close>.
\<close>

section \<open>Text\<close>

definition ws_chars :: "char list" where
  "ws_chars = [CHR '' '', CHR 0x09, CHR 0x0D, CHR 0x0A]"

definition trim :: "string \<Rightarrow> string" where
  "trim s = rstrip ws_chars (dropWhile (\<lambda>c. c \<in> set ws_chars) s)"

text \<open>\<open>isspace\<close> of the C locale.\<close>

definition isspace :: "char \<Rightarrow> bool" where
  "isspace c \<longleftrightarrow> c = CHR '' '' \<or> 9 \<le> (of_char c :: nat) \<and> (of_char c :: nat) \<le> 13"

text \<open>
  The items a \<open>getline\<close> loop with this delimiter yields: nothing follows a delimiter at the end of
  the input.
\<close>

definition getlines :: "char \<Rightarrow> string \<Rightarrow> string list" where
  "getlines sep s = (let ps = split_on sep s in if last ps = [] then butlast ps else ps)"

text \<open>The words an extraction loop with \<open>>>\<close> yields.\<close>

function stream_words :: "string \<Rightarrow> string list" where
  "stream_words s =
     (case dropWhile isspace s of
        [] \<Rightarrow> []
      | c # cs \<Rightarrow> (c # takeWhile (\<lambda>x. \<not> isspace x) cs)
          # stream_words (dropWhile (\<lambda>x. \<not> isspace x) cs))"
  by pat_completeness auto

termination
proof (relation "measure length")
  fix s c cs
  assume "dropWhile isspace s = c # cs"
  then have "length (c # cs) \<le> length s"
    by (metis length_dropWhile_le)
  moreover have "length (dropWhile (\<lambda>x. \<not> isspace x) cs) \<le> length cs"
    by (rule length_dropWhile_le)
  ultimately show "(dropWhile (\<lambda>x. \<not> isspace x) cs, s) \<in> measure length"
    by simp
qed simp

declare stream_words.simps [simp del]

definition hex_digit_value :: "char \<Rightarrow> nat option" where
  "hex_digit_value c =
     (let n = (of_char c :: nat) in
      if 48 \<le> n \<and> n \<le> 57 then Some (n - 48)
      else if 65 \<le> n \<and> n \<le> 70 then Some (n - 55)
      else if 97 \<le> n \<and> n \<le> 102 then Some (n - 87)
      else None)"

definition is_hex :: "char \<Rightarrow> bool" where
  "is_hex c \<longleftrightarrow> hex_digit_value c \<noteq> None"

definition hex_value :: "string \<Rightarrow> nat" where
  "hex_value s = foldl (\<lambda>a c. 16 * a + the (hex_digit_value c)) 0 s"

text \<open>An optional sign, and whether it is a minus.\<close>

definition split_sign :: "string \<Rightarrow> bool \<times> string" where
  "split_sign s =
     (case s of
        [] \<Rightarrow> (False, [])
      | c # cs \<Rightarrow> if c = CHR ''-'' then (True, cs) else if c = CHR ''+'' then (False, cs)
                 else (False, s))"

text \<open>\<open>0x\<close> counts as a prefix when a digit follows it.\<close>

definition skip_0x :: "string \<Rightarrow> string" where
  "skip_0x s =
     (case s of
        z # x # d # ds \<Rightarrow>
          if z = CHR ''0'' \<and> (x = CHR ''x'' \<or> x = CHR ''X'') \<and> is_hex d then d # ds else s
      | _ \<Rightarrow> s)"

definition ULONG_MAX :: nat where "ULONG_MAX = 2 ^ 64 - 1"
definition LONG_MAX :: int where "LONG_MAX = 2 ^ 63 - 1"
definition LONG_MIN :: int where "LONG_MIN = - (2 ^ 63)"

text \<open>\<open>strtoul(s, nullptr, 16)\<close>: without a digit the value is 0, and nothing tells.\<close>

definition strtoul16 :: "string \<Rightarrow> u64" where
  "strtoul16 s =
     (let (neg, body) = split_sign (dropWhile isspace s);
          v = hex_value (takeWhile is_hex (skip_0x body))
      in if ULONG_MAX < v then of_nat ULONG_MAX else if neg then - of_nat v else of_nat v)"

text \<open>\<open>strtol(s, nullptr, 10)\<close>.\<close>

definition strtol10 :: "string \<Rightarrow> int" where
  "strtol10 s =
     (let (neg, body) = split_sign (dropWhile isspace s);
          v = int (dec_value (takeWhile is_digit body));
          r = (if neg then - v else v)
      in if r < LONG_MIN then LONG_MIN else if LONG_MAX < r then LONG_MAX else r)"

section \<open>Frames\<close>

definition TWAI_FRAME_MAX_DLC :: nat where [aks_config]: "TWAI_FRAME_MAX_DLC = 8"

record Frame =
  FR_isExt :: bool
  FR_id :: u32
  FR_msg :: twai_message_t
  FR_lineNo :: nat

definition twai_message_zero :: twai_message_t where
  "twai_message_zero = \<lparr>MSG_identifier = 0, MSG_extd = False, MSG_data_length_code = 0,
     MSG_data = replicate 8 0\<rparr>"

datatype replay_error =
    FieldCount nat
  | UnknownFormat string
  | BadDlc string
  | TooManyBytes
  | DlcMismatch int nat

text \<open>The loop over the data words: \<open>n\<close> bytes are stored so far.\<close>

fun read_bytes :: "string list \<Rightarrow> nat \<Rightarrow> u8 list \<Rightarrow> replay_error + (nat \<times> u8 list)" where
  "read_bytes [] n bs = Inr (n, bs)"
| "read_bytes (w # ws) n bs =
     (if TWAI_FRAME_MAX_DLC \<le> n then Inl TooManyBytes
      else read_bytes ws (Suc n) (bs[n := ucast (strtoul16 w)]))"

definition parseLine :: "string \<Rightarrow> nat \<Rightarrow> replay_error + Frame" where
  "parseLine line lineNo =
     (let parts = map trim (getlines (CHR ''|'') line)
      in if length parts \<noteq> 4 then Inl (FieldCount (length parts))
         else if parts ! 0 \<noteq> ''EXT'' \<and> parts ! 0 \<noteq> ''STD'' then Inl (UnknownFormat (parts ! 0))
         else
           let fid = ucast (strtoul16 (parts ! 1)); d = strtol10 (parts ! 2)
           in if d < 0 \<or> int TWAI_FRAME_MAX_DLC < d then Inl (BadDlc (parts ! 2))
              else (case read_bytes (stream_words (parts ! 3)) 0 (MSG_data twai_message_zero) of
                  Inl e \<Rightarrow> Inl e
                | Inr (n, bs) \<Rightarrow>
                    if int n \<noteq> d then Inl (DlcMismatch d n)
                    else Inr \<lparr>FR_isExt = (parts ! 0 = ''EXT''), FR_id = fid,
                              FR_msg = twai_message_zero\<lparr>MSG_identifier := fid,
                                MSG_data_length_code := of_int d, MSG_data := bs\<rparr>,
                              FR_lineNo = lineNo\<rparr>))"

section \<open>Statistics\<close>

datatype violation =
    E000_Short nat
  | E000_PackV nat u16
  | E000_Bytes nat
  | E000_Current nat i32
  | Charger_Short nat
  | Charger_Setpoint nat u16 u16
  | Bad_Line nat replay_error

record Stats =
  ST_total :: nat
  ST_countsById :: "(string, nat) mapping"
  ST_unknownIds :: "string set"
  ST_violations :: "violation list"
  ST_violationCount :: nat

definition Stats_new :: Stats where
  "Stats_new = \<lparr>ST_total = 0, ST_countsById = Mapping.empty, ST_unknownIds = {},
     ST_violations = [], ST_violationCount = 0\<rparr>"

text \<open>The report keeps the first 20.\<close>

definition addViolation :: "violation \<Rightarrow> Stats \<Rightarrow> Stats" where
  "addViolation v st = st\<lparr>
     ST_violationCount := ST_violationCount st + 1,
     ST_violations := (if length (ST_violations st) < 20 then ST_violations st @ [v]
                       else ST_violations st)\<rparr>"

definition kExpectedPackVDeciV :: u16 where [aks_config]: "kExpectedPackVDeciV = 790"
definition kExpectedChargerVsetDeciV :: u16 where [aks_config]: "kExpectedChargerVsetDeciV = 880"
definition kExpectedChargerIsetDeciA :: u16 where [aks_config]: "kExpectedChargerIsetDeciA = 1000"
definition kKnownStdIds :: "u32 set" where "kKnownStdIds = {0x000}"

fun hex_pad :: "nat \<Rightarrow> nat \<Rightarrow> string" where
  "hex_pad 0 n = []"
| "hex_pad (Suc k) n = hex_pad k (n div 16) @ [hex_char (n mod 16)]"

definition idKey :: "bool \<Rightarrow> u32 \<Rightarrow> string" where
  "idKey isExt i = (if isExt then ''EXT'' else ''STD'') @ '' 0x'' @ hex_pad 8 (unat i)"

definition addUnknown :: "string \<Rightarrow> Stats \<Rightarrow> Stats" where
  "addUnknown k st = st\<lparr>ST_unknownIds := insert k (ST_unknownIds st)\<rparr>"

section \<open>Checking a frame\<close>

definition checkE000 :: "Frame \<Rightarrow> bool \<Rightarrow> Stats \<Rightarrow> Stats" where
  "checkE000 f sessionAsserts st =
     (case parseLbBmsE000 (FR_msg f) TelemetryData_zero of
        None \<Rightarrow> addViolation (E000_Short (FR_lineNo f)) st
      | Some out \<Rightarrow>
          if \<not> sessionAsserts then st
          else
            let st = (if TEL_bmsPackVoltageDeciV out \<noteq> kExpectedPackVDeciV
                  then addViolation (E000_PackV (FR_lineNo f) (TEL_bmsPackVoltageDeciV out)) st else st);
                st = (if byte (FR_msg f) 2 \<noteq> 0x03 \<or> byte (FR_msg f) 3 \<noteq> 0x16
                  then addViolation (E000_Bytes (FR_lineNo f)) st else st);
                cur = TEL_bmsCurrentCentiMa out
            in if cur \<noteq> -10 \<and> cur \<noteq> -20 then addViolation (E000_Current (FR_lineNo f) cur) st else st)"

definition checkCharger :: "Frame \<Rightarrow> bool \<Rightarrow> Stats \<Rightarrow> Stats" where
  "checkCharger f sessionAsserts st =
     (case parseCharger1806E5F4 (FR_msg f) ChargerCommand_zero of
        None \<Rightarrow> addViolation (Charger_Short (FR_lineNo f)) st
      | Some cmd \<Rightarrow>
          if \<not> sessionAsserts then st
          else if CC_chargeVoltageSetpointDeciV cmd \<noteq> kExpectedChargerVsetDeciV \<or>
                  CC_chargeCurrentSetpointDeciA cmd \<noteq> kExpectedChargerIsetDeciA
          then addViolation (Charger_Setpoint (FR_lineNo f) (CC_chargeVoltageSetpointDeciV cmd)
                 (CC_chargeCurrentSetpointDeciA cmd)) st
          else st)"

text \<open>The other seven known IDs are parsed and the result is thrown away.\<close>

definition processExtFrame :: "Frame \<Rightarrow> bool \<Rightarrow> Stats \<Rightarrow> Stats" where
  "processExtFrame f sessionAsserts st =
     (if FR_id f = 0x0000E000 then checkE000 f sessionAsserts st
      else if FR_id f = 0x1806E5F4 then checkCharger f sessionAsserts st
      else if FR_id f = 0x0000E001 then (let _ = parseLbBmsE001 (FR_msg f) TelemetryData_zero in st)
      else if FR_id f = 0x0000E002 then (let _ = parseLbBmsE002 (FR_msg f) TelemetryData_zero in st)
      else if FR_id f = 0x0000E003 then (let _ = parseLbBmsE003 (FR_msg f) TelemetryData_zero in st)
      else if FR_id f = 0x0000E004 then (let _ = parseLbBmsE004 (FR_msg f) TelemetryData_zero in st)
      else if FR_id f = 0x0000E005 then (let _ = parseLbBmsE005 (FR_msg f) TelemetryData_zero in st)
      else if FR_id f = 0x0000E032 then (let _ = parseLbBmsE032 (FR_msg f) TelemetryData_zero in st)
      else if FR_id f = 0x0000E033 then (let _ = parseLbBmsE033 (FR_msg f) TelemetryData_zero in st)
      else addUnknown (idKey True (FR_id f)) st)"

section \<open>The run\<close>

definition count_frame :: "Frame \<Rightarrow> Stats \<Rightarrow> Stats" where
  "count_frame f st =
     (let k = idKey (FR_isExt f) (FR_id f) in
      st\<lparr>ST_total := ST_total st + 1,
         ST_countsById := Mapping.map_default k 0 Suc (ST_countsById st)\<rparr>)"

record replay_state =
  RP_lineNo :: nat
  RP_badLines :: nat
  RP_stats :: Stats

definition replay_line :: "bool \<Rightarrow> string \<Rightarrow> replay_state \<Rightarrow> replay_state" where
  "replay_line sessionAsserts line rp =
     (let lineNo = RP_lineNo rp + 1; rp = rp\<lparr>RP_lineNo := lineNo\<rparr>; t = trim line; st = RP_stats rp
      in if t = [] \<or> hd t = CHR ''#'' then rp
         else (case parseLine t lineNo of
             Inl err \<Rightarrow> rp\<lparr>RP_badLines := RP_badLines rp + 1,
                          RP_stats := addViolation (Bad_Line lineNo err) st\<rparr>
           | Inr f \<Rightarrow>
               let st = count_frame f st in
               rp\<lparr>RP_stats :=
                 (if FR_isExt f then processExtFrame f sessionAsserts st
                  else if FR_id f \<notin> kKnownStdIds then addUnknown (idKey False (FR_id f)) st
                  else st)\<rparr>))"

definition replay_log :: "bool \<Rightarrow> string \<Rightarrow> replay_state" where
  "replay_log sessionAsserts log =
     fold (replay_line sessionAsserts) (getlines (CHR 0x0A) log)
       \<lparr>RP_lineNo = 0, RP_badLines = 0, RP_stats = Stats_new\<rparr>"

text \<open>The last argument that is not the flag is the path.\<close>

definition replay_args :: "string list \<Rightarrow> bool \<times> string" where
  "replay_args args = fold (\<lambda>a (sessionAsserts, path).
     if a = ''--generic'' then (False, path) else (sessionAsserts, a)) args (True, [])"

definition replay_exit :: "Stats \<Rightarrow> int" where
  "replay_exit st = (if 0 < ST_violationCount st then 1 else 0)"

definition replay_main ::
  "(string \<Rightarrow> string option) \<Rightarrow> string list \<Rightarrow> int \<times> replay_state option" where
  "replay_main file_of args =
     (case replay_args args of (sessionAsserts, path) \<Rightarrow>
        if path = [] then (2, None)
        else (case file_of path of
            None \<Rightarrow> (2, None)
          | Some log \<Rightarrow>
              let rp = replay_log sessionAsserts log
              in (replay_exit (RP_stats rp), Some rp)))"

section \<open>Numbers read back\<close>

text \<open>The hexadecimal digits that the firmware's \<open>%X\<close> conversions print.\<close>

definition upper_hex :: "char \<Rightarrow> bool" where
  "upper_hex c \<longleftrightarrow> 48 \<le> (of_char c :: nat) \<and> (of_char c :: nat) \<le> 57 \<or>
     65 \<le> (of_char c :: nat) \<and> (of_char c :: nat) \<le> 70"

lemma upper_hex_char:
  "upper_hex c \<Longrightarrow> is_hex c"
  "upper_hex c \<Longrightarrow> \<not> isspace c"
  "upper_hex c \<Longrightarrow> c \<noteq> CHR ''|''"
  "upper_hex c \<Longrightarrow> c \<notin> set ws_chars"
  "upper_hex c \<Longrightarrow> c \<noteq> CHR ''-''"
  "upper_hex c \<Longrightarrow> c \<noteq> CHR ''+''"
  "upper_hex c \<Longrightarrow> c \<noteq> CHR ''x''"
  "upper_hex c \<Longrightarrow> c \<noteq> CHR ''X''"
  "upper_hex c \<Longrightarrow> c \<noteq> CHR 0x0A"
  by (auto simp: upper_hex_def is_hex_def hex_digit_value_def Let_def isspace_def ws_chars_def)

lemma of_hex_char: "d < 16 \<Longrightarrow> (of_char (hex_char d) :: nat) = (if d < 10 then 48 + d else 55 + d)"
  by (simp add: hex_char_def)

lemma upper_hex_char_of: "d < 16 \<Longrightarrow> upper_hex (hex_char d)"
  by (simp add: upper_hex_def of_hex_char)

lemma hex_digit_value_char: "d < 16 \<Longrightarrow> hex_digit_value (hex_char d) = Some d"
  by (simp add: hex_digit_value_def Let_def of_hex_char)

definition hex_word :: "string \<Rightarrow> bool" where
  "hex_word s \<longleftrightarrow> s \<noteq> [] \<and> list_all upper_hex s"

lemma hex_word_char: "hex_word s \<Longrightarrow> c \<in> set s \<Longrightarrow> upper_hex c"
  by (simp add: hex_word_def list_all_iff)

lemma hex_pad_upper: "list_all upper_hex (hex_pad k n)"
  by (induction k n rule: hex_pad.induct) (simp_all add: upper_hex_char_of)

lemma length_hex_pad [simp]: "length (hex_pad k n) = k"
  by (induction k n rule: hex_pad.induct) auto

lemma hex_word_pad: "0 < k \<Longrightarrow> hex_word (hex_pad k n)"
  using hex_pad_upper [of k n] by (cases k) (simp_all add: hex_word_def)

lemma fmt_02X_pad: "fmt_02X b = hex_pad 2 (unat b)"
  using unat_8_less [of b] by (simp add: fmt_02X_def numeral_2_eq_2)

lemma hex_value_snoc: "hex_value (s @ [c]) = 16 * hex_value s + the (hex_digit_value c)"
  by (simp add: hex_value_def)

lemma hex_value_pad: "hex_value (hex_pad k n) = n mod 16 ^ k"
proof (induction k n rule: hex_pad.induct)
  case (2 k n)
  have "n mod 16 ^ Suc k = 16 * (n div 16 mod 16 ^ k) + n mod 16"
    by (simp add: mod_mult2_eq)
  with 2 show ?case by (simp add: hex_value_snoc hex_digit_value_char)
qed (simp add: hex_value_def)

lemma strtoul16_word:
  assumes "hex_word s"
  shows "strtoul16 s = (if ULONG_MAX < hex_value s then of_nat ULONG_MAX else of_nat (hex_value s))"
    and "strtoul16 (''0x'' @ s) = strtoul16 s"
proof -
  obtain c cs where s: "s = c # cs" using assms by (cases s) (auto simp: hex_word_def)
  have up: "\<forall>x\<in>set s. upper_hex x" using hex_word_char [OF assms] by simp
  then have c: "upper_hex c" by (simp add: s)
  have all: "takeWhile is_hex s = s"
    using up upper_hex_char(1) by (auto simp: takeWhile_eq_all_conv)
  have skip: "skip_0x s = s"
    using up upper_hex_char(7,8) by (auto simp: skip_0x_def s split: list.splits)
  have plain: "dropWhile isspace s = s" "split_sign s = (False, s)"
    using upper_hex_char(2,5,6) [OF c] by (simp_all add: s split_sign_def)
  have prefixed: "split_sign (''0x'' @ s) = (False, ''0x'' @ s)" "skip_0x (''0x'' @ s) = s"
    "dropWhile isspace (''0x'' @ s) = ''0x'' @ s"
    using upper_hex_char(1) [OF c] by (simp_all add: s split_sign_def skip_0x_def isspace_def)
  show "strtoul16 s =
      (if ULONG_MAX < hex_value s then of_nat ULONG_MAX else of_nat (hex_value s))"
    unfolding strtoul16_def plain Let_def case_prod_conv skip all by simp
  show "strtoul16 (''0x'' @ s) = strtoul16 s"
    unfolding strtoul16_def plain prefixed Let_def case_prod_conv skip ..
qed

lemma strtoul16_pad: "0 < k \<Longrightarrow> k \<le> 16 \<Longrightarrow> strtoul16 (hex_pad k n) = of_nat (n mod 16 ^ k)"
proof -
  assume k: "0 < k" "k \<le> 16"
  have "n mod 16 ^ k < 16 ^ k" by simp
  also have "(16 :: nat) ^ k \<le> 16 ^ 16" by (rule power_increasing) (use k in simp_all)
  finally have "\<not> ULONG_MAX < n mod 16 ^ k" by (simp add: ULONG_MAX_def)
  then show ?thesis using strtoul16_word(1) [OF hex_word_pad [OF k(1)]] by (simp add: hex_value_pad)
qed

lemma narrow_widen:
  "ucast (of_nat (unat i) :: u64) = (i :: u32)" "ucast (of_nat (unat b) :: u64) = (b :: u8)"
  by (rule bit_word_eqI; simp add: bit_simps)+

lemma read_id: "ucast (strtoul16 (''0x'' @ hex_pad 8 (unat i))) = (i :: u32)"
proof -
  have "strtoul16 (''0x'' @ hex_pad 8 (unat i)) = of_nat (unat i mod 16 ^ 8)"
    unfolding strtoul16_word(2) [OF hex_word_pad [of 8, simplified]] by (rule strtoul16_pad) simp_all
  also have "\<dots> = of_nat (unat i)" using unat_32_less [of i] by simp
  finally show ?thesis by (simp only: narrow_widen)
qed

lemma read_byte: "ucast (strtoul16 (fmt_02X b)) = (b :: u8)"
proof -
  have "strtoul16 (fmt_02X b) = of_nat (unat b mod 16 ^ 2)"
    unfolding fmt_02X_pad by (rule strtoul16_pad) simp_all
  also have "\<dots> = of_nat (unat b)" using unat_8_less [of b] by simp
  finally show ?thesis by (simp only: narrow_widen)
qed

lemma is_digit_plain:
  "is_digit c \<Longrightarrow> \<not> isspace c" "is_digit c \<Longrightarrow> c \<notin> set ws_chars" "is_digit c \<Longrightarrow> c \<noteq> CHR ''|''"
  by (auto simp: is_digit_def isspace_def ws_chars_def)

lemma read_dlc:
  assumes "n < 10"
  shows "strtol10 (fmt_u n) = int n"
proof -
  have d: "is_digit (digit_char n)" using assms by simp
  have "dropWhile isspace (fmt_u n) = fmt_u n" "split_sign (fmt_u n) = (False, fmt_u n)"
    "takeWhile is_digit (fmt_u n) = fmt_u n"
    using assms d is_digit_plain [OF d] digit_not_special [OF d]
    by (simp_all add: fmt_u_def dec_digits.simps [of n] split_sign_def)
  then show ?thesis
    unfolding strtol10_def using assms by (simp only: Let_def case_prod_conv)
      (simp add: fmt_u_def LONG_MAX_def LONG_MIN_def)
qed

section \<open>Printed lines read back\<close>

lemma stream_words_space: "isspace c \<Longrightarrow> stream_words (c # s) = stream_words s"
  by (simp add: stream_words.simps [of "c # s"] stream_words.simps [of s])

lemma stream_words_word:
  assumes "w \<noteq> []" "list_all (\<lambda>c. \<not> isspace c) w" "isspace c"
  shows "stream_words (w @ c # s) = w # stream_words s" and "stream_words w = [w]"
proof -
  obtain x xs where w: "w = x # xs" using assms(1) by (cases w) auto
  have rest: "takeWhile (\<lambda>x. \<not> isspace x) xs = xs" "dropWhile (\<lambda>x. \<not> isspace x) xs = []"
    using assms(2) by (auto simp: w list_all_iff takeWhile_eq_all_conv)
  have "stream_words (dropWhile (\<lambda>x. \<not> isspace x) xs) = []"
    unfolding rest by (simp add: stream_words.simps [of "[]"])
  moreover note rest(1)
  moreover have "takeWhile (\<lambda>x. \<not> isspace x) (xs @ c # s) = xs"
    "dropWhile (\<lambda>x. \<not> isspace x) (xs @ c # s) = c # s"
    using assms(2,3) by (auto simp: w list_all_iff takeWhile_append dropWhile_append3)
  ultimately show "stream_words (w @ c # s) = w # stream_words s" "stream_words w = [w]"
    using assms(2) stream_words_space [OF assms(3), of s]
    by (simp_all add: w stream_words.simps [of "x # xs"] stream_words.simps [of "x # xs @ c # s"]
        stream_words.simps [of "[]"])
qed

lemma stream_words_join:
  "list_all (\<lambda>w. w \<noteq> [] \<and> list_all (\<lambda>c. \<not> isspace c) w) ws \<Longrightarrow>
   stream_words (join (CHR '' '') ws) = ws"
proof (induction "CHR '' ''" ws rule: join.induct)
  case 1
  then show ?case by (simp add: stream_words.simps [of "[]"])
next
  case (2 w)
  then show ?case using stream_words_word(2) [of w "CHR '' ''"] by (simp add: isspace_def)
next
  case (3 w v ws)
  then show ?case
    using stream_words_word(1) [of w "CHR '' ''" "join (CHR '' '') (v # ws)"]
    by (simp add: isspace_def)
qed

lemma trim_eq:
  assumes "set p \<subseteq> set ws_chars" "set q \<subseteq> set ws_chars"
    and "s \<noteq> []" "hd s \<notin> set ws_chars" "last s \<notin> set ws_chars"
  shows "trim (p @ s @ q) = s"
proof -
  obtain c cs where s: "s = c # cs" using assms(3) by (cases s) auto
  have "dropWhile (\<lambda>c. c \<in> set ws_chars) (p @ s @ q) = s @ q"
    using assms(1,4) by (subst dropWhile_append2) (auto simp: s)
  then show ?thesis
    unfolding trim_def using rstrip_append [OF assms(2,3,5)] by simp
qed

text \<open>
  A line of a session log, in the format of the tool's documentation: the frame format, the
  identifier, the length and the data bytes, all but the length in hexadecimal.
\<close>

definition log_fields :: "bool \<Rightarrow> u32 \<Rightarrow> u8 list \<Rightarrow> string list" where
  "log_fields isExt i bs =
     [if isExt then ''EXT'' else ''STD'', ''0x'' @ hex_pad 8 (unat i), fmt_u (length bs),
      join (CHR '' '') (map fmt_02X bs)]"

definition log_line :: "bool \<Rightarrow> u32 \<Rightarrow> u8 list \<Rightarrow> string" where
  "log_line isExt i bs =
     (case log_fields isExt i bs of
        [a, b, c, d] \<Rightarrow> join (CHR ''|'') [a @ '' '', '' '' @ b @ '' '', '' '' @ c @ '' '', '' '' @ d]
      | _ \<Rightarrow> [])"

text \<open>The frame such a line stands for; the unused part of the data array is zero.\<close>

definition sniffed_frame :: "bool \<Rightarrow> u32 \<Rightarrow> u8 list \<Rightarrow> nat \<Rightarrow> Frame" where
  "sniffed_frame isExt i bs n = \<lparr>FR_isExt = isExt, FR_id = i,
     FR_msg = \<lparr>MSG_identifier = i, MSG_extd = False, MSG_data_length_code = of_nat (length bs),
               MSG_data = bs @ replicate (8 - length bs) 0\<rparr>,
     FR_lineNo = n\<rparr>"

lemma hex_word_02X: "hex_word (fmt_02X b)"
  by (simp add: fmt_02X_pad hex_word_pad)

lemma join_bytes:
  assumes "bs \<noteq> []"
  shows "join (CHR '' '') (map fmt_02X bs) \<noteq> []"
    "upper_hex (hd (join (CHR '' '') (map fmt_02X bs)))"
    "upper_hex (last (join (CHR '' '') (map fmt_02X bs)))"
    "c \<in> set (join (CHR '' '') (map fmt_02X bs)) \<Longrightarrow> upper_hex c \<or> c = CHR '' ''"
proof -
  have "join (CHR '' '') (map fmt_02X bs) \<noteq> [] \<and>
    upper_hex (hd (join (CHR '' '') (map fmt_02X bs))) \<and>
    upper_hex (last (join (CHR '' '') (map fmt_02X bs))) \<and>
    (\<forall>c\<in>set (join (CHR '' '') (map fmt_02X bs)). upper_hex c \<or> c = CHR '' '')"
    using assms
  proof (induction bs rule: list_nonempty_induct)
    case (single b)
    then show ?case using hex_word_02X [of b] by (simp add: hex_word_def list_all_iff)
  next
    case (cons b bs)
    obtain v vs where v: "map fmt_02X bs = v # vs" using cons.hyps by (cases bs) auto
    show ?case using cons.IH hex_word_02X [of b] by (auto simp: v hex_word_def list_all_iff)
  qed
  then show "join (CHR '' '') (map fmt_02X bs) \<noteq> []"
    "upper_hex (hd (join (CHR '' '') (map fmt_02X bs)))"
    "upper_hex (last (join (CHR '' '') (map fmt_02X bs)))"
    "c \<in> set (join (CHR '' '') (map fmt_02X bs)) \<Longrightarrow> upper_hex c \<or> c = CHR '' ''"
    by simp_all
qed

lemma words_of_bytes: "stream_words (join (CHR '' '') (map fmt_02X bs)) = map fmt_02X bs"
proof (rule stream_words_join)
  have "fmt_02X b \<noteq> [] \<and> list_all (\<lambda>c. \<not> isspace c) (fmt_02X b)" for b
    using hex_word_02X [of b] by (auto simp: hex_word_def list_all_iff dest: upper_hex_char(2))
  then show "list_all (\<lambda>w. w \<noteq> [] \<and> list_all (\<lambda>c. \<not> isspace c) w) (map fmt_02X bs)"
    by (simp add: list_all_iff)
qed

lemma read_bytes_printed:
  "n + length bs \<le> 8 \<Longrightarrow> length acc = n \<Longrightarrow>
   read_bytes (map fmt_02X bs) n (acc @ replicate (8 - n) 0) =
     Inr (n + length bs, acc @ bs @ replicate (8 - n - length bs) 0)"
proof (induction bs arbitrary: n acc)
  case (Cons b bs)
  then have "8 - n = Suc (8 - Suc n)" by simp
  then have "(acc @ replicate (8 - n) (0 :: u8))[n := b] = (acc @ [b]) @ replicate (8 - Suc n) 0"
    using Cons.prems by (simp add: list_update_append)
  then show ?case
    using Cons.prems Cons.IH [of "Suc n" "acc @ [b]"] by (simp add: read_byte TWAI_FRAME_MAX_DLC_def)
qed simp

text \<open>The four fields come back from the printed line.\<close>

lemma log_fields_plain:
  "\<forall>c \<in> set (if isExt then ''EXT'' else ''STD''). c \<noteq> CHR ''|'' \<and> c \<notin> set ws_chars"
  "\<forall>c \<in> set (''0x'' @ hex_pad 8 n). c \<noteq> CHR ''|'' \<and> c \<notin> set ws_chars"
  "\<forall>c \<in> set (fmt_u n). c \<noteq> CHR ''|'' \<and> c \<notin> set ws_chars"
proof -
  show "\<forall>c \<in> set (if isExt then ''EXT'' else ''STD''). c \<noteq> CHR ''|'' \<and> c \<notin> set ws_chars"
    by (simp add: ws_chars_def)
  have "\<forall>c \<in> set (hex_pad 8 n). c \<noteq> CHR ''|'' \<and> c \<notin> set ws_chars"
    using hex_pad_upper [of 8 n] by (auto simp: list_all_iff dest: upper_hex_char(3,4))
  then show "\<forall>c \<in> set (''0x'' @ hex_pad 8 n). c \<noteq> CHR ''|'' \<and> c \<notin> set ws_chars"
    by (auto simp: ws_chars_def)
  show "\<forall>c \<in> set (fmt_u n). c \<noteq> CHR ''|'' \<and> c \<notin> set ws_chars"
    by (auto dest!: set_fmt_u dest: is_digit_plain)
qed

lemma trim_plain:
  assumes "s \<noteq> []" "\<forall>c\<in>set s. c \<noteq> CHR ''|'' \<and> c \<notin> set ws_chars"
  shows "trim (s @ '' '') = s" "trim ('' '' @ s @ '' '') = s"
  using trim_eq [of "[]" "'' ''" s] trim_eq [of "'' ''" "'' ''" s] assms
    hd_in_set [OF assms(1)] last_in_set [OF assms(1)]
  by (auto simp: ws_chars_def)

lemma trim_bytes: "bs \<noteq> [] \<Longrightarrow> trim ('' '' @ join (CHR '' '') (map fmt_02X bs)) = join (CHR '' '') (map fmt_02X bs)"
  using trim_eq [of "'' ''" "[]" "join (CHR '' '') (map fmt_02X bs)"]
    join_bytes(1-3) [of bs] upper_hex_char(4) by (auto simp: ws_chars_def)

lemma getlines_join:
  "ws \<noteq> [] \<Longrightarrow> last ws \<noteq> [] \<Longrightarrow> list_all (\<lambda>w. sep \<notin> set w) ws \<Longrightarrow> getlines sep (join sep ws) = ws"
  by (simp add: getlines_def Let_def split_on_join)

lemma fields_of_log_line:
  assumes "bs \<noteq> []"
  shows "map trim (getlines (CHR ''|'') (log_line isExt i bs)) = log_fields isExt i bs"
proof -
  let ?a = "if isExt then ''EXT'' else ''STD''" and ?b = "''0x'' @ hex_pad 8 (unat i)"
    and ?c = "fmt_u (length bs)" and ?d = "join (CHR '' '') (map fmt_02X bs)"
  have line: "log_line isExt i bs =
      join (CHR ''|'') [?a @ '' '', '' '' @ ?b @ '' '', '' '' @ ?c @ '' '', '' '' @ ?d]"
    by (simp add: log_line_def log_fields_def)
  have d: "CHR ''|'' \<notin> set ?d" using join_bytes(4) [OF assms] upper_hex_char(3) by fastforce
  have "getlines (CHR ''|'') (log_line isExt i bs) =
      [?a @ '' '', '' '' @ ?b @ '' '', '' '' @ ?c @ '' '', '' '' @ ?d]"
    unfolding line using log_fields_plain(1) [of isExt] log_fields_plain(2) [of "unat i"]
      log_fields_plain(3) [of "length bs"] d
    by (intro getlines_join) auto
  moreover have "trim (?a @ '' '') = ?a"
    by (rule trim_plain(1)) (simp, rule log_fields_plain(1))
  moreover have "trim ('' '' @ ?b @ '' '') = ?b"
    by (rule trim_plain(2)) (simp, rule log_fields_plain(2))
  moreover have "trim ('' '' @ ?c @ '' '') = ?c"
    by (rule trim_plain(2)) (simp, rule log_fields_plain(3))
  ultimately show ?thesis
    using trim_bytes [OF assms] by (simp only: list.map log_fields_def)
qed

lemma parse_log_line:
  assumes "bs \<noteq> []" "length bs \<le> 8"
  shows "parseLine (log_line isExt i bs) n = Inr (sniffed_frame isExt i bs n)"
proof -
  have "read_bytes (map fmt_02X bs) 0 (replicate 8 0) =
      Inr (length bs, bs @ replicate (8 - length bs) 0)"
    using read_bytes_printed [of 0 bs "[]"] assms(2) by simp
  then have bytes: "read_bytes (stream_words (log_fields isExt i bs ! 3)) 0 (replicate 8 0)
      = Inr (length bs, bs @ replicate (8 - length bs) 0)"
    by (simp add: log_fields_def words_of_bytes)
  have d: "strtol10 (log_fields isExt i bs ! 2) = int (length bs)"
    using assms(2) by (simp add: log_fields_def read_dlc)
  have i: "ucast (strtoul16 (log_fields isExt i bs ! Suc 0)) = i"
    using read_id [of i] by (simp add: log_fields_def)
  have f: "length (log_fields isExt i bs) = 4"
    "log_fields isExt i bs ! 0 = ''EXT'' \<or> log_fields isExt i bs ! 0 = ''STD''"
    "(log_fields isExt i bs ! 0 = ''EXT'') = isExt"
    by (auto simp: log_fields_def)
  show ?thesis
    using f(2) assms(2)
    by (simp add: parseLine_def Let_def fields_of_log_line [OF assms(1)] f(1,3) d i bytes
        sniffed_frame_def twai_message_zero_def TWAI_FRAME_MAX_DLC_def)
qed

text \<open>Reading a line off the file does not change it, and it is not taken for a comment.\<close>

lemma trim_log_line:
  assumes "bs \<noteq> []"
  shows "trim (log_line isExt i bs) = log_line isExt i bs"
    "log_line isExt i bs \<noteq> []" "hd (log_line isExt i bs) \<noteq> CHR ''#''"
    "CHR 0x0A \<notin> set (log_line isExt i bs)"
proof -
  define mid where "mid = '' | 0x'' @ hex_pad 8 (unat i) @ '' | '' @ fmt_u (length bs) @ '' | ''"
  have line: "log_line isExt i bs =
      (if isExt then ''EXT'' else ''STD'') @ mid @ join (CHR '' '') (map fmt_02X bs)"
    by (simp add: log_line_def log_fields_def mid_def)
  have last: "last (log_line isExt i bs) \<notin> set ws_chars"
    using join_bytes(1,3) [OF assms] upper_hex_char(4) by (simp add: line)
  have hd: "hd (log_line isExt i bs) \<notin> set ws_chars" by (simp add: line ws_chars_def)
  show "log_line isExt i bs \<noteq> []" "hd (log_line isExt i bs) \<noteq> CHR ''#''" by (auto simp: line)
  then show "trim (log_line isExt i bs) = log_line isExt i bs"
    using trim_eq [of "[]" "[]" "log_line isExt i bs"] hd last by simp
  have "CHR 0x0A \<notin> set (join (CHR '' '') (map fmt_02X bs))"
    using join_bytes(4) [OF assms] upper_hex_char(9) by fastforce
  moreover have "CHR 0x0A \<notin> set (hex_pad 8 (unat i))" "CHR 0x0A \<notin> set (fmt_u (length bs))"
    using log_fields_plain(2) [of "unat i"] log_fields_plain(3) [of "length bs"]
    by (auto simp: ws_chars_def)
  ultimately show "CHR 0x0A \<notin> set (log_line isExt i bs)"
    by (simp add: line mid_def)
qed

section \<open>The verdict on a session\<close>

text \<open>
  What the tool is to check of a frame: the lengths always, and the values of the recorded session
  unless \<open>--generic\<close> is given.
\<close>

type_synonym sniffed = "bool \<times> u32 \<times> u8 list"

definition frame_ok :: "bool \<Rightarrow> sniffed \<Rightarrow> bool" where
  "frame_ok sessionAsserts fr \<longleftrightarrow>
     (case fr of (isExt, i, bs) \<Rightarrow>
        (isExt \<and> i = 0xE000 \<longrightarrow>
          length bs = 8 \<and>
          (sessionAsserts \<longrightarrow> be16 (bs ! 2) (bs ! 3) = (790 :: u16) \<and>
             sint (be16 (bs ! 0) (bs ! 1) :: i16) \<in> {-1, -2})) \<and>
        (isExt \<and> i = 0x1806E5F4 \<longrightarrow>
          4 \<le> length bs \<and>
          (sessionAsserts \<longrightarrow> be16 (bs ! 0) (bs ! 1) = (880 :: u16) \<and>
             be16 (bs ! 2) (bs ! 3) = (1000 :: u16))))"

definition known_ext_ids :: "u32 set" where
  "known_ext_ids = {0xE000, 0xE001, 0xE002, 0xE003, 0xE004, 0xE005, 0xE032, 0xE033, 0x1806E5F4}"

definition known_id :: "sniffed \<Rightarrow> bool" where
  "known_id fr = (case fr of (isExt, i, _) \<Rightarrow> if isExt then i \<in> known_ext_ids else i = 0)"

definition frame_key :: "sniffed \<Rightarrow> string" where
  "frame_key fr = (case fr of (isExt, i, _) \<Rightarrow> idKey isExt i)"

definition well_sized :: "sniffed \<Rightarrow> bool" where
  "well_sized fr = (case fr of (_, _, bs) \<Rightarrow> bs \<noteq> [] \<and> length bs \<le> 8)"

text \<open>The log of a session: one line per frame.\<close>

definition session_log :: "sniffed list \<Rightarrow> string" where
  "session_log frs = concat (map (\<lambda>(isExt, i, bs). log_line isExt i bs @ [CHR 0x0A]) frs)"

text \<open>The scaled current cannot be one of the two idle values unless the raw one is.\<close>

lemma idle_current:
  "(scast (r :: i16) :: i32) * 10 = -10 \<longleftrightarrow> sint r = -1"
  "(scast (r :: i16) :: i32) * 10 = -20 \<longleftrightarrow> sint r = -2"
proof -
  have "x = y \<longleftrightarrow> sint x = sint y" for x y :: i32 by (auto intro: signed_word_eqI)
  then show "(scast r :: i32) * 10 = -10 \<longleftrightarrow> sint r = -1"
    "(scast r :: i32) * 10 = -20 \<longleftrightarrow> sint r = -2"
    using sint_scaled_current [of r] by auto
qed

text \<open>\<open>790\<close> is the two bytes \<open>03 16\<close>: the second check of the voltage never adds anything.\<close>

lemma pack_790: "be16 a b = (790 :: u16) \<longleftrightarrow> a = 0x03 \<and> b = 0x16"
  using be16_inject [of a b "0x03" "0x16"] by (simp add: be16_add)

lemma nth_padded: "k < length bs \<Longrightarrow> (bs @ replicate n (0 :: u8)) ! k = bs ! k"
  by (simp add: nth_append)

text \<open>A frame only adds violations, and adds none exactly when it is in order.\<close>

lemma addViolation_simps [simp]:
  "ST_violationCount (addViolation v st) = ST_violationCount st + 1"
  "ST_total (addViolation v st) = ST_total st"
  "ST_unknownIds (addViolation v st) = ST_unknownIds st"
  by (simp_all add: addViolation_def)

lemma checkE000_sniffed:
  assumes "well_sized (True, i, bs)"
  shows "ST_violationCount (checkE000 (sniffed_frame True i bs n) s st) = ST_violationCount st \<longleftrightarrow>
      length bs = 8 \<and> (s \<longrightarrow> be16 (bs ! 2) (bs ! 3) = (790 :: u16) \<and>
        sint (be16 (bs ! 0) (bs ! 1) :: i16) \<in> {-1, -2})"
    and "ST_violationCount st \<le> ST_violationCount (checkE000 (sniffed_frame True i bs n) s st)"
    and "ST_total (checkE000 (sniffed_frame True i bs n) s st) = ST_total st"
    and "ST_unknownIds (checkE000 (sniffed_frame True i bs n) s st) = ST_unknownIds st"
proof -
  let ?f = "sniffed_frame True i bs n"
  have len: "dlc (FR_msg ?f) = length bs"
    using assms by (simp add: sniffed_frame_def well_sized_def unat_of_nat)
  consider "length bs < 8" | "length bs = 8" using assms by (fastforce simp: well_sized_def)
  then have "(ST_violationCount (checkE000 ?f s st) = ST_violationCount st \<longleftrightarrow>
      length bs = 8 \<and> (s \<longrightarrow> be16 (bs ! 2) (bs ! 3) = (790 :: u16) \<and>
        sint (be16 (bs ! 0) (bs ! 1) :: i16) \<in> {-1, -2})) \<and>
    ST_violationCount st \<le> ST_violationCount (checkE000 ?f s st) \<and>
    ST_total (checkE000 ?f s st) = ST_total st \<and>
    ST_unknownIds (checkE000 ?f s st) = ST_unknownIds st"
  proof cases
    case 1
    then show ?thesis using len by (simp add: checkE000_def parseLbBmsE000_def)
  next
    case 2
    have data: "MSG_data (FR_msg ?f) = bs" using 2 by (simp add: sniffed_frame_def)
    show ?thesis
      using 2 len idle_current [of "be16 (bs ! 0) (bs ! 1)"] pack_790 [of "bs ! 2" "bs ! 3"]
      by (cases s) (simp_all add: checkE000_def parseLbBmsE000_def Let_def data aks_config)
  qed
  then show "ST_violationCount (checkE000 ?f s st) = ST_violationCount st \<longleftrightarrow>
      length bs = 8 \<and> (s \<longrightarrow> be16 (bs ! 2) (bs ! 3) = (790 :: u16) \<and>
        sint (be16 (bs ! 0) (bs ! 1) :: i16) \<in> {-1, -2})"
    "ST_violationCount st \<le> ST_violationCount (checkE000 ?f s st)"
    "ST_total (checkE000 ?f s st) = ST_total st"
    "ST_unknownIds (checkE000 ?f s st) = ST_unknownIds st"
    by simp_all
qed

lemma checkCharger_sniffed:
  assumes "well_sized (True, i, bs)"
  shows "ST_violationCount (checkCharger (sniffed_frame True i bs n) s st) = ST_violationCount st \<longleftrightarrow>
      4 \<le> length bs \<and> (s \<longrightarrow> be16 (bs ! 0) (bs ! 1) = (880 :: u16) \<and>
        be16 (bs ! 2) (bs ! 3) = (1000 :: u16))"
    and "ST_violationCount st \<le> ST_violationCount (checkCharger (sniffed_frame True i bs n) s st)"
    and "ST_total (checkCharger (sniffed_frame True i bs n) s st) = ST_total st"
    and "ST_unknownIds (checkCharger (sniffed_frame True i bs n) s st) = ST_unknownIds st"
  using assms
  by (auto simp: checkCharger_def parseCharger1806E5F4_def sniffed_frame_def well_sized_def
      unat_of_nat nth_padded aks_config)

text \<open>The same for a frame of any identifier, counted and checked.\<close>

definition frame_step :: "bool \<Rightarrow> sniffed \<Rightarrow> nat \<Rightarrow> Stats \<Rightarrow> Stats" where
  "frame_step s fr n st =
     (case fr of (isExt, i, bs) \<Rightarrow>
        let f = sniffed_frame isExt i bs n; st = count_frame f st
        in if isExt then processExtFrame f s st
           else if i \<notin> kKnownStdIds then addUnknown (idKey False i) st else st)"

lemma sniffed_frame_sel [simp]:
  "FR_isExt (sniffed_frame isExt i bs n) = isExt" "FR_id (sniffed_frame isExt i bs n) = i"
  by (simp_all add: sniffed_frame_def)

lemma stats_helpers [simp]:
  "ST_violationCount (count_frame f st) = ST_violationCount st"
  "ST_total (count_frame f st) = ST_total st + 1"
  "ST_unknownIds (count_frame f st) = ST_unknownIds st"
  "ST_violationCount (addUnknown k st) = ST_violationCount st"
  "ST_total (addUnknown k st) = ST_total st"
  "ST_unknownIds (addUnknown k st) = insert k (ST_unknownIds st)"
  by (simp_all add: count_frame_def addUnknown_def Let_def)

lemma frame_step_props:
  assumes "well_sized fr"
  shows "ST_violationCount (frame_step s fr n st) = ST_violationCount st \<longleftrightarrow> frame_ok s fr"
    and "ST_violationCount st \<le> ST_violationCount (frame_step s fr n st)"
    and "ST_total (frame_step s fr n st) = ST_total st + 1"
    and "ST_unknownIds (frame_step s fr n st) =
      (if known_id fr then ST_unknownIds st else insert (frame_key fr) (ST_unknownIds st))"
proof -
  obtain e i bs where fr: "fr = (e, i, bs)" by (cases fr)
  let ?st = "count_frame (sniffed_frame e i bs n) st"
  have "(ST_violationCount (frame_step s fr n st) = ST_violationCount st \<longleftrightarrow> frame_ok s fr) \<and>
    ST_violationCount st \<le> ST_violationCount (frame_step s fr n st) \<and>
    ST_total (frame_step s fr n st) = ST_total st + 1 \<and>
    ST_unknownIds (frame_step s fr n st) =
      (if known_id fr then ST_unknownIds st else insert (frame_key fr) (ST_unknownIds st))"
  proof (cases e)
    case False
    then show ?thesis
      by (simp add: fr frame_step_def Let_def frame_ok_def known_id_def frame_key_def kKnownStdIds_def)
  next
    case True
    then have ws: "well_sized (True, i, bs)" using assms fr by simp
    consider "i = 0xE000" | "i = 0x1806E5F4" | "i \<noteq> 0xE000" "i \<noteq> 0x1806E5F4" by blast
    then show ?thesis
    proof cases
      case 1
      then show ?thesis
        using True checkE000_sniffed [OF ws, where n = n and s = s and st = ?st]
        by (simp add: fr frame_step_def Let_def processExtFrame_def frame_ok_def known_id_def
            known_ext_ids_def)
    next
      case 2
      then show ?thesis
        using True checkCharger_sniffed [OF ws, where n = n and s = s and st = ?st]
        by (simp add: fr frame_step_def Let_def processExtFrame_def frame_ok_def known_id_def
            known_ext_ids_def)
    next
      case 3
      then show ?thesis
        using True by (simp add: fr frame_step_def Let_def processExtFrame_def frame_ok_def
            known_id_def known_ext_ids_def frame_key_def)
    qed
  qed
  then show "ST_violationCount (frame_step s fr n st) = ST_violationCount st \<longleftrightarrow> frame_ok s fr"
    "ST_violationCount st \<le> ST_violationCount (frame_step s fr n st)"
    "ST_total (frame_step s fr n st) = ST_total st + 1"
    "ST_unknownIds (frame_step s fr n st) =
      (if known_id fr then ST_unknownIds st else insert (frame_key fr) (ST_unknownIds st))"
    by blast+
qed

definition line_of :: "sniffed \<Rightarrow> string" where
  "line_of fr = (case fr of (isExt, i, bs) \<Rightarrow> log_line isExt i bs)"

lemma replay_line_frame:
  assumes "well_sized fr"
  shows "replay_line s (line_of fr) rp = rp\<lparr>RP_lineNo := RP_lineNo rp + 1,
    RP_stats := frame_step s fr (RP_lineNo rp + 1) (RP_stats rp)\<rparr>"
proof -
  obtain e i bs where fr: "fr = (e, i, bs)" by (cases fr)
  have bs: "bs \<noteq> []" "length bs \<le> 8" using assms by (simp_all add: fr well_sized_def)
  show ?thesis
    using trim_log_line(1-3) [OF bs(1)]
    by (simp add: fr line_of_def replay_line_def Let_def parse_log_line [OF bs] frame_step_def)
qed

lemma getlines_session:
  "list_all well_sized frs \<Longrightarrow> getlines (CHR 0x0A) (session_log frs) = map line_of frs"
proof -
  assume ws: "list_all well_sized frs"
  have "split_on (CHR 0x0A) (session_log frs) = map line_of frs @ [[]]"
    using ws
  proof (induction frs)
    case (Cons fr frs)
    obtain e i bs where fr: "fr = (e, i, bs)" by (cases fr)
    have "CHR 0x0A \<notin> set (log_line e i bs)"
      using Cons.prems by (intro trim_log_line) (simp add: fr well_sized_def)
    then show ?case
      using Cons split_on_word_sep [of "CHR 0x0A" "log_line e i bs" "session_log frs"]
      by (simp add: session_log_def fr line_of_def)
  qed (simp add: session_log_def)
  then show ?thesis by (simp add: getlines_def Let_def)
qed

lemma replay_session:
  assumes "list_all well_sized frs"
  shows "RP_badLines (fold (replay_line s) (map line_of frs) rp) = RP_badLines rp"
    and "ST_total (RP_stats (fold (replay_line s) (map line_of frs) rp))
      = ST_total (RP_stats rp) + length frs"
    and "ST_unknownIds (RP_stats (fold (replay_line s) (map line_of frs) rp))
      = ST_unknownIds (RP_stats rp) \<union> frame_key ` {fr \<in> set frs. \<not> known_id fr}"
    and "ST_violationCount (RP_stats rp)
      \<le> ST_violationCount (RP_stats (fold (replay_line s) (map line_of frs) rp))"
    and "ST_violationCount (RP_stats (fold (replay_line s) (map line_of frs) rp))
      = ST_violationCount (RP_stats rp) \<longleftrightarrow> list_all (frame_ok s) frs"
proof -
  have "RP_badLines (fold (replay_line s) (map line_of frs) rp) = RP_badLines rp \<and>
    ST_total (RP_stats (fold (replay_line s) (map line_of frs) rp))
      = ST_total (RP_stats rp) + length frs \<and>
    ST_unknownIds (RP_stats (fold (replay_line s) (map line_of frs) rp))
      = ST_unknownIds (RP_stats rp) \<union> frame_key ` {fr \<in> set frs. \<not> known_id fr} \<and>
    ST_violationCount (RP_stats rp)
      \<le> ST_violationCount (RP_stats (fold (replay_line s) (map line_of frs) rp)) \<and>
    (ST_violationCount (RP_stats (fold (replay_line s) (map line_of frs) rp))
      = ST_violationCount (RP_stats rp) \<longleftrightarrow> list_all (frame_ok s) frs)"
    using assms
  proof (induction frs arbitrary: rp)
    case (Cons fr frs)
    then have ws: "well_sized fr" "list_all well_sized frs" by simp_all
    define rp1 where "rp1 = rp\<lparr>RP_lineNo := RP_lineNo rp + 1,
      RP_stats := frame_step s fr (RP_lineNo rp + 1) (RP_stats rp)\<rparr>"
    have fold: "fold (replay_line s) (map line_of (fr # frs)) rp = fold (replay_line s) (map line_of frs) rp1"
      by (simp add: replay_line_frame [OF ws(1)] rp1_def)
    note st = frame_step_props [OF ws(1), where s = s and n = "RP_lineNo rp + 1" and st = "RP_stats rp"]
    have un: "frame_key ` {x \<in> set (fr # frs). \<not> known_id x} =
        (if known_id fr then {} else {frame_key fr}) \<union> frame_key ` {x \<in> set frs. \<not> known_id x}"
      by auto
    show ?case
      unfolding fold un using Cons.IH [OF ws(2), of rp1] st by (auto simp: rp1_def)
  qed simp
  then show "RP_badLines (fold (replay_line s) (map line_of frs) rp) = RP_badLines rp"
    and "ST_total (RP_stats (fold (replay_line s) (map line_of frs) rp))
      = ST_total (RP_stats rp) + length frs"
    and "ST_unknownIds (RP_stats (fold (replay_line s) (map line_of frs) rp))
      = ST_unknownIds (RP_stats rp) \<union> frame_key ` {fr \<in> set frs. \<not> known_id fr}"
    and "ST_violationCount (RP_stats rp)
      \<le> ST_violationCount (RP_stats (fold (replay_line s) (map line_of frs) rp))"
    and "ST_violationCount (RP_stats (fold (replay_line s) (map line_of frs) rp))
      = ST_violationCount (RP_stats rp) \<longleftrightarrow> list_all (frame_ok s) frs"
    by blast+
qed

section \<open>Properties\<close>

text \<open>
  C35: the tool reads a session log back without loss: a line that carries a frame of one to eight
  data bytes in the documented format parses, with the white space around it removed as the tool
  does, to exactly that frame: format, identifier, length and bytes, the rest of the data array zero.
\<close>

theorem log_line_roundtrip:
  assumes "bs \<noteq> []" "length bs \<le> 8" "set pre \<subseteq> set ws_chars" "set post \<subseteq> set ws_chars"
  shows "parseLine (trim (pre @ log_line isExt i bs @ post)) n = Inr (sniffed_frame isExt i bs n)"
proof -
  note line = trim_log_line [OF assms(1), of isExt i]
  have "hd (log_line isExt i bs) \<notin> set ws_chars" "last (log_line isExt i bs) \<notin> set ws_chars"
    using join_bytes(1,3) [OF assms(1)] upper_hex_char(4)
    by (auto simp: log_line_def log_fields_def ws_chars_def)
  then have "trim (pre @ log_line isExt i bs @ post) = log_line isExt i bs"
    using trim_eq [OF assms(3,4) line(2)] by simp
  then show ?thesis by (simp add: parse_log_line [OF assms(1,2)])
qed

lemma log_line_roundtrip_witness:
  "parseLine (trim (log_line True 0xE000 [0xFF, 0xFF, 3, 0x16, 0x0F, 0x5E, 9, 0x71] @ [CHR 0x0D])) 7 =
     Inr (sniffed_frame True 0xE000 [0xFF, 0xFF, 3, 0x16, 0x0F, 0x5E, 9, 0x71] 7)"
  using log_line_roundtrip [of "[0xFF, 0xFF, 3, 0x16, 0x0F, 0x5E, 9, 0x71]" "[]" "[CHR 0x0D]" True
      "0xE000" 7]
  by (simp add: ws_chars_def)

text \<open>
  C34: the verdict on a recorded session is exact. On a log with one line per frame of one to eight
  bytes, the tool exits with 0 when every frame is in order and with 1 otherwise: the pack frames
  have eight bytes and the charger frames at least four, and, unless \<open>--generic\<close> was given, the pack
  voltage is 79.0 V, the raw current -1 or -2, and the charger setpoint 88.0 V / 100.0 A. Every frame
  is counted and no line is called malformed; identifiers that are not known are collected, and never
  change the exit code.
\<close>

theorem replay_verdict:
  assumes "list_all well_sized frs"
    and "replay_args args = (s, path)" "path \<noteq> []" "file_of path = Some (session_log frs)"
  shows "\<exists>rp. replay_main file_of args = (if list_all (frame_ok s) frs then 0 else 1, Some rp) \<and>
    ST_total (RP_stats rp) = length frs \<and> RP_badLines rp = 0 \<and>
    ST_unknownIds (RP_stats rp) = frame_key ` {fr \<in> set frs. \<not> known_id fr}"
proof -
  define rp0 where "rp0 = \<lparr>RP_lineNo = 0, RP_badLines = 0, RP_stats = Stats_new\<rparr>"
  have log: "replay_log s (session_log frs) = fold (replay_line s) (map line_of frs) rp0"
    by (simp add: replay_log_def getlines_session [OF assms(1)] rp0_def)
  have "replay_main file_of args =
      (if list_all (frame_ok s) frs then 0 else 1, Some (replay_log s (session_log frs)))"
    using assms(2-4) replay_session(4,5) [OF assms(1), where s = s and rp = rp0]
    by (auto simp: replay_main_def replay_exit_def Let_def log rp0_def Stats_new_def)
  then show ?thesis
    using replay_session(1-3) [OF assms(1), where s = s and rp = rp0]
    by (auto simp: log rp0_def Stats_new_def)
qed

definition idle_session :: "sniffed list" where
  "idle_session = [(True, 0xE000, [0xFF, 0xFF, 3, 0x16, 0x0F, 0x5E, 9, 0x71]),
     (False, 0, [0]), (True, 0x123, [1, 2])]"

lemma replay_verdict_witness:
  "\<exists>rp. replay_main [''a.log'' \<mapsto> session_log idle_session] [''a.log''] = (0, Some rp) \<and>
     ST_total (RP_stats rp) = length idle_session \<and> ST_unknownIds (RP_stats rp) = {idKey True 0x123}"
proof -
  have "sint (be16 0xFF 0xFF :: i16) = -1" by (simp add: be16_def)
  moreover have "be16 3 0x16 = (790 :: u16)" by (simp add: be16_def)
  ultimately have "list_all (frame_ok True) idle_session"
    by (simp add: idle_session_def frame_ok_def)
  moreover have "{fr \<in> set idle_session. \<not> known_id fr} = {(True, 0x123, [1, 2])}"
    by (auto simp: idle_session_def known_id_def known_ext_ids_def)
  ultimately show ?thesis
    using replay_verdict [of idle_session "[''a.log'']" True "''a.log''"
        "[''a.log'' \<mapsto> session_log idle_session]"]
    by (auto simp: idle_session_def well_sized_def replay_args_def frame_key_def)
qed

section \<open>What the reader accepts and rejects\<close>

text \<open>
  A word with no hexadecimal digit is read as zero: a damaged identifier or data byte passes for a
  well-formed line.
\<close>

lemma strtoul16_no_digit:
  assumes "s = c # cs" "\<not> isspace c" "c \<noteq> CHR ''-''" "c \<noteq> CHR ''+''" "\<not> is_hex c"
  shows "strtoul16 s = 0"
proof -
  have "split_sign s = (False, s)" "dropWhile isspace s = s" using assms by (simp_all add: split_sign_def)
  moreover have "is_hex (CHR ''0'')" by (simp add: is_hex_def hex_digit_value_def)
  then have "skip_0x s = s" using assms by (auto simp: skip_0x_def split: list.splits)
  moreover have "takeWhile is_hex s = []" using assms by simp
  ultimately show ?thesis by (simp add: strtoul16_def hex_value_def ULONG_MAX_def)
qed

text \<open>A frame without data, which the length check lets through, never parses: its line ends in the
  last separator once the tool has trimmed it, and \<open>getline\<close> yields only three fields.\<close>

lemma empty_frame_rejected:
  "parseLine (trim (log_line isExt i [])) n = Inl (FieldCount 3)"
proof -
  let ?a = "if isExt then ''EXT'' else ''STD''" and ?b = "''0x'' @ hex_pad 8 (unat i)"
  let ?ws = "[?a @ '' '', '' '' @ ?b @ '' '', '' '' @ fmt_u 0 @ '' '', []]"
  have "trim (log_line isExt i []) = join (CHR ''|'') ?ws"
    using trim_eq [of "[]" "'' ''" "join (CHR ''|'') ?ws"]
    by (auto simp: log_line_def log_fields_def ws_chars_def)
  moreover have "split_on (CHR ''|'') (join (CHR ''|'') ?ws) = ?ws"
    using log_fields_plain(1) [of isExt] log_fields_plain(2) [of "unat i"] log_fields_plain(3) [of 0]
    by (intro split_on_join) auto
  ultimately show ?thesis by (simp only: parseLine_def getlines_def Let_def) simp
qed

end
