(* ===== verification/Replay_Report.thy ===== *)
theory Replay_Report
  imports Can_Replay "HOL-Library.List_Lexorder" "HOL-Library.Char_ord"
begin

text \<open>
  The summary that \<open>tools/can_replay/can_replay.cpp\<close> prints at the end of \<open>main\<close>, line by line, from
  the statistics of \<open>Can_Replay\<close>, and that it accounts for every line of any log, whatever the log
  contains. \<open>std::map\<close> and \<open>std::set\<close> iterate in the lexicographic order of their keys.
\<close>

section \<open>Messages\<close>

definition utf8_dash :: string where
  "utf8_dash = [CHR 0xE2, CHR 0x80, CHR 0x94]"

definition utf8_check :: string where
  "utf8_check = [CHR 0xE2, CHR 0x9C, CHR 0x93]"

fun error_text :: "replay_error \<Rightarrow> string" where
  "error_text (FieldCount n) = ''beklenen 4 alan (FMT|ID|DLC|HEX), bulunan '' @ fmt_u n"
| "error_text (UnknownFormat s) = ''bilinmeyen frame formati: '' @ [CHR 0x27] @ s @ [CHR 0x27]"
| "error_text (BadDlc s) = ''gecersiz DLC: '' @ s"
| "error_text TooManyBytes = ''8'den fazla veri byte'i''"
| "error_text (DlcMismatch d n) = ''DLC='' @ fmt_d d @ '' ama '' @ fmt_u n @ '' hex byte var''"

definition at_line :: "nat \<Rightarrow> string \<Rightarrow> string" where
  "at_line n s = ''satir '' @ fmt_u n @ '': '' @ s"

fun violation_text :: "violation \<Rightarrow> string" where
  "violation_text (E000_Short n) = at_line n ''parseLbBmsE000 false dondu (DLC<8)''"
| "violation_text (E000_PackV n v) =
     at_line n (''E000 packV='' @ fmt_u (unat v) @ '' deciV, beklenen 790 (79.0 V)'')"
| "violation_text (E000_Bytes n) = at_line n ''E000 byte[2:3] != 0x0316''"
| "violation_text (E000_Current n c) =
     at_line n (''E000 akim '' @ fmt_d (sint c) @ '', beklenen {-10,-20} centiMa (idle)'')"
| "violation_text (Charger_Short n) = at_line n ''parseCharger1806E5F4 false dondu (DLC<4)''"
| "violation_text (Charger_Setpoint n v i) =
     at_line n (''charger setpoint Vset='' @ fmt_u (unat v) @ '' Iset='' @ fmt_u (unat i)
       @ '', beklenen 880/1000 (88.0 V / 100.0 A)'')"
| "violation_text (Bad_Line n e) =
     at_line n (''log satiri bozuk '' @ utf8_dash @ '' '' @ error_text e)"

section \<open>The report\<close>

definition pad_right :: "nat \<Rightarrow> string \<Rightarrow> string" where
  "pad_right w s = s @ replicate (w - length s) CHR '' ''"

definition pad_left :: "nat \<Rightarrow> string \<Rightarrow> string" where
  "pad_left w s = replicate (w - length s) CHR '' '' @ s"

definition report_head :: "bool \<Rightarrow> string \<Rightarrow> replay_state \<Rightarrow> string list" where
  "report_head sessionAsserts path rp =
     [''=== can_replay ozet raporu ==='',
      ''Log: '' @ path @ (if sessionAsserts then '' (oturum assert'leri: ACIK)'' else '' (--generic)''),
      ''Toplam frame: '' @ fmt_u (ST_total (RP_stats rp)) @ ''  (bozuk satir: ''
        @ fmt_u (RP_badLines rp) @ '')'', [], ''ID dagilimi:'']"

definition report_counts :: "Stats \<Rightarrow> string list" where
  "report_counts st = map (\<lambda>k. ''  '' @ pad_right 16 k @ '' ''
       @ pad_left 8 (fmt_u (Mapping.lookup_default 0 (ST_countsById st) k)))
     (Mapping.ordered_keys (ST_countsById st))"

definition report_unknown :: "Stats \<Rightarrow> string list" where
  "report_unknown st =
     (if ST_unknownIds st \<noteq> {}
      then [[], ''BILINEN 10 ID DISINDA ID'LER ('' @ fmt_u (card (ST_unknownIds st)) @ ''):'']
        @ map (\<lambda>k. ''  '' @ k) (sorted_list_of_set (ST_unknownIds st))
      else [[], ''Bilinen 10 ID disinda ID yok. '' @ utf8_check])"

definition report_verdict :: "Stats \<Rightarrow> string list" where
  "report_verdict st =
     (if 0 < ST_violationCount st
      then [[], ''IHLALLER ('' @ fmt_u (ST_violationCount st) @ '' toplam, ilk ''
          @ fmt_u (length (ST_violations st)) @ '' gosteriliyor):'']
        @ map (\<lambda>v. ''  '' @ violation_text v) (ST_violations st) @ [[], ''SONUC: FAIL'']
      else [[], ''Tum invariant'lar gecti. SONUC: PASS''])"

definition replay_report :: "bool \<Rightarrow> string \<Rightarrow> replay_state \<Rightarrow> string list" where
  "replay_report sessionAsserts path rp =
     report_head sessionAsserts path rp @ report_counts (RP_stats rp) @ report_unknown (RP_stats rp)
     @ report_verdict (RP_stats rp)"

section \<open>Accounting\<close>

text \<open>A line that is neither blank nor a comment.\<close>

definition relevant :: "string \<Rightarrow> bool" where
  "relevant line \<longleftrightarrow> trim line \<noteq> [] \<and> hd (trim line) \<noteq> CHR ''#''"

definition counted :: "Stats \<Rightarrow> string \<Rightarrow> nat" where
  "counted st k = Mapping.lookup_default 0 (ST_countsById st) k"

definition stats_inv :: "Stats \<Rightarrow> bool" where
  "stats_inv st \<longleftrightarrow> finite (Mapping.keys (ST_countsById st)) \<and>
     (\<Sum>k\<in>Mapping.keys (ST_countsById st). counted st k) = ST_total st \<and>
     ST_unknownIds st \<subseteq> Mapping.keys (ST_countsById st) \<and>
     length (ST_violations st) = min 20 (ST_violationCount st)"

lemma stats_inv_new: "stats_inv Stats_new"
  by (simp add: stats_inv_def Stats_new_def)

lemma stats_inv_violation: "stats_inv st \<Longrightarrow> stats_inv (addViolation v st)"
  by (auto simp: stats_inv_def addViolation_def counted_def)

lemma sum_counted:
  assumes "finite A"
  shows "(\<Sum>k\<in>insert i A. f k + (if k = i then 1 else 0 :: nat)) = (if i \<in> A then sum f A else sum f A + f i) + 1"
proof -
  have "(\<Sum>k\<in>insert i A. f k + (if k = i then 1 else 0)) = sum f (insert i A) + 1"
    using assms by (simp add: sum.distrib)
  then show ?thesis using assms by (simp add: insert_absorb)
qed

lemma counted_frame:
  "counted (count_frame f st) k =
     counted st k + (if k = idKey (FR_isExt f) (FR_id f) then 1 else 0)"
  "Mapping.keys (ST_countsById (count_frame f st)) =
     insert (idKey (FR_isExt f) (FR_id f)) (Mapping.keys (ST_countsById st))"
proof -
  show "counted (count_frame f st) k =
      counted st k + (if k = idKey (FR_isExt f) (FR_id f) then 1 else 0)"
    by (simp add: counted_def count_frame_def Let_def Mapping.lookup_default_def Mapping.lookup_map_default')
  show "Mapping.keys (ST_countsById (count_frame f st)) =
      insert (idKey (FR_isExt f) (FR_id f)) (Mapping.keys (ST_countsById st))"
    by (simp add: count_frame_def Let_def Mapping.map_default_def)
qed

lemma keys_counted: "k \<notin> Mapping.keys (ST_countsById st) \<Longrightarrow> counted st k = 0"
  by (simp add: counted_def Mapping.lookup_default_def keys_dom_lookup domIff)

lemma stats_inv_frame:
  assumes "stats_inv st"
  shows "stats_inv (count_frame f st)"
proof -
  let ?k = "idKey (FR_isExt f) (FR_id f)" and ?A = "Mapping.keys (ST_countsById st)"
  have "(\<Sum>k\<in>insert ?k ?A. counted st k + (if k = ?k then 1 else 0)) =
      (if ?k \<in> ?A then sum (counted st) ?A else sum (counted st) ?A + counted st ?k) + 1"
    using assms by (intro sum_counted) (simp add: stats_inv_def)
  then have "(\<Sum>k\<in>insert ?k ?A. counted (count_frame f st) k) = sum (counted st) ?A + 1"
    unfolding counted_frame by (simp add: keys_counted split: if_splits)
  then show ?thesis
    using assms by (auto simp: stats_inv_def counted_frame(2) stats_helpers)
      (auto simp: count_frame_def Let_def)
qed

text \<open>What handling a frame does after counting it.\<close>

lemma stats_inv_unknown:
  "stats_inv st \<Longrightarrow> k \<in> Mapping.keys (ST_countsById st) \<Longrightarrow> stats_inv (addUnknown k st)"
  by (simp add: stats_inv_def addUnknown_def counted_def)

lemma stats_inv_checks:
  "stats_inv st \<Longrightarrow> stats_inv (checkE000 f s st)"
  "stats_inv st \<Longrightarrow> stats_inv (checkCharger f s st)"
  by (simp_all add: checkE000_def checkCharger_def stats_inv_violation Let_def split: option.split)

lemma check_totals:
  "ST_total (checkE000 f s st) = ST_total st" "ST_total (checkCharger f s st) = ST_total st"
  "ST_violationCount st \<le> ST_violationCount (checkE000 f s st)"
  "ST_violationCount st \<le> ST_violationCount (checkCharger f s st)"
  by (simp_all add: checkE000_def checkCharger_def Let_def split: option.split)

lemma processExt_props:
  assumes "stats_inv st" "idKey True (FR_id f) \<in> Mapping.keys (ST_countsById st)"
  shows "stats_inv (processExtFrame f s st)" "ST_total (processExtFrame f s st) = ST_total st"
    "ST_violationCount st \<le> ST_violationCount (processExtFrame f s st)"
  using assms
  by (simp_all add: processExtFrame_def stats_inv_checks stats_inv_unknown check_totals Let_def)

definition replay_inv :: "replay_state \<Rightarrow> bool" where
  "replay_inv rp \<longleftrightarrow> stats_inv (RP_stats rp) \<and> RP_badLines rp \<le> ST_violationCount (RP_stats rp)"

lemma replay_line_inv:
  assumes "replay_inv rp"
  shows "replay_inv (replay_line s line rp) \<and> RP_lineNo (replay_line s line rp) = RP_lineNo rp + 1 \<and>
    ST_total (RP_stats (replay_line s line rp)) + RP_badLines (replay_line s line rp) =
      ST_total (RP_stats rp) + RP_badLines rp + (if relevant line then 1 else 0)"
proof (cases "relevant line")
  case False
  then have "replay_line s line rp = rp\<lparr>RP_lineNo := RP_lineNo rp + 1\<rparr>"
    by (auto simp: replay_line_def relevant_def Let_def)
  with assms False show ?thesis by (simp add: replay_inv_def)
next
  case True
  let ?n = "RP_lineNo rp + 1"
  show ?thesis
  proof (cases "parseLine (trim line) ?n")
    case (Inl err)
    with True have "replay_line s line rp = rp\<lparr>RP_lineNo := ?n, RP_badLines := RP_badLines rp + 1,
        RP_stats := addViolation (Bad_Line ?n err) (RP_stats rp)\<rparr>"
      by (simp add: replay_line_def relevant_def Let_def)
    with assms True show ?thesis by (simp add: replay_inv_def stats_inv_violation)
  next
    case (Inr f)
    let ?st = "count_frame f (RP_stats rp)"
    let ?st' = "if FR_isExt f then processExtFrame f s ?st
      else if FR_id f \<notin> kKnownStdIds then addUnknown (idKey False (FR_id f)) ?st else ?st"
    from Inr True have line: "replay_line s line rp = rp\<lparr>RP_lineNo := ?n, RP_stats := ?st'\<rparr>"
      by (simp add: replay_line_def relevant_def Let_def)
    have inv: "stats_inv ?st" using assms by (simp add: replay_inv_def stats_inv_frame)
    have key: "idKey (FR_isExt f) (FR_id f) \<in> Mapping.keys (ST_countsById ?st)"
      by (simp add: counted_frame)
    have "stats_inv ?st' \<and> ST_total ?st' = ST_total (RP_stats rp) + 1 \<and>
        ST_violationCount (RP_stats rp) \<le> ST_violationCount ?st'"
      using processExt_props [OF inv, of f s] stats_inv_unknown [OF inv] inv key by auto
    with assms True line show ?thesis by (simp add: replay_inv_def)
  qed
qed

lemma replay_lines_inv:
  "replay_inv rp \<Longrightarrow>
   replay_inv (fold (replay_line s) ls rp) \<and> RP_lineNo (fold (replay_line s) ls rp) = RP_lineNo rp + length ls \<and>
   ST_total (RP_stats (fold (replay_line s) ls rp)) + RP_badLines (fold (replay_line s) ls rp) =
     ST_total (RP_stats rp) + RP_badLines rp + length (filter relevant ls)"
proof (induction ls arbitrary: rp)
  case (Cons l ls)
  show ?case
    using Cons.IH [of "replay_line s l rp"] replay_line_inv [OF Cons.prems, of s l] by auto
qed simp

section \<open>Property\<close>

text \<open>
  C38: the summary accounts for every line of any log. Each line that is neither blank nor a comment is
  counted either as a frame or as malformed; the counts printed by identifier, each identifier once,
  add up to the number of frames; every unknown identifier is among them; every malformed line is a
  violation, and the first twenty violations are listed. The report ends in FAIL exactly when the tool
  exits with 1.
\<close>

theorem replay_report_accounts:
  "let rp = replay_log s log; st = RP_stats rp; ids = Mapping.ordered_keys (ST_countsById st) in
     RP_lineNo rp = length (getlines (CHR 0x0A) log) \<and>
     ST_total st + RP_badLines rp = length (filter relevant (getlines (CHR 0x0A) log)) \<and>
     length (report_counts st) = length ids \<and> distinct ids \<and>
     sum_list (map (Mapping.lookup_default 0 (ST_countsById st)) ids) = ST_total st \<and>
     ST_unknownIds st \<subseteq> set ids \<and>
     RP_badLines rp \<le> ST_violationCount st \<and>
     length (ST_violations st) = min 20 (ST_violationCount st) \<and>
     (last (replay_report s path rp) = ''SONUC: FAIL'' \<longleftrightarrow> replay_exit st = 1)"
proof -
  let ?rp = "replay_log s log" and ?st = "RP_stats (replay_log s log)"
  let ?keys = "Mapping.keys (ST_countsById ?st)" and ?ids = "Mapping.ordered_keys (ST_countsById ?st)"
  have start: "replay_inv \<lparr>RP_lineNo = 0, RP_badLines = 0, RP_stats = Stats_new\<rparr>"
    by (simp add: replay_inv_def stats_inv_new)
  note run = replay_lines_inv [OF start, of s "getlines (CHR 0x0A) log", folded replay_log_def]
  have inv: "stats_inv ?st" "RP_badLines ?rp \<le> ST_violationCount ?st"
    using run by (simp_all add: replay_inv_def)
  have ids: "set ?ids = ?keys" "distinct ?ids"
    using inv(1) by (simp_all add: stats_inv_def Mapping.ordered_keys_def)
  then have "sum_list (map (counted ?st) ?ids) = (\<Sum>k\<in>?keys. counted ?st k)"
    by (metis sum_list_distinct_conv_sum_set)
  then have "sum_list (map (Mapping.lookup_default 0 (ST_countsById ?st)) ?ids) = ST_total ?st"
    using inv(1) by (simp add: stats_inv_def counted_def [abs_def])
  moreover have "last (replay_report s path ?rp) = ''SONUC: FAIL'' \<longleftrightarrow> replay_exit ?st = 1"
    by (simp add: replay_report_def report_verdict_def replay_exit_def)
  moreover have "ST_total ?st + RP_badLines ?rp = length (filter relevant (getlines (CHR 0x0A) log))"
    "RP_lineNo ?rp = length (getlines (CHR 0x0A) log)"
    using run by (simp_all add: Stats_new_def)
  ultimately show ?thesis
    using inv ids by (simp add: stats_inv_def report_counts_def Let_def)
qed

end
