(* ===== verification/Uks_Contract.thy ===== *)
theory Uks_Contract
  imports Lora_Safety "HOL-Library.AList"
begin

text \<open>
  The Python side of the telemetry contract: the rest of \<open>tools/e2e/contract.py\<close>, the offline buffer
  of \<open>offline_buffer_sim.py\<close> and the outage simulation of \<open>aks_loop_sim.py\<close>, which the end-to-end
  tests run in place of the firmware. A dictionary is an association list; reading a key it does not
  have (a \<open>KeyError\<close>) makes the result \<open>None\<close>. The theorems are that the Python line builder and the
  decoder invert each other, and that one period of the simulation does what the radio task does.
\<close>

section \<open>The contract\<close>

type_synonym pydict = "(string \<times> int) list"

definition FIELD_ORDER :: "string list" where
  "FIELD_ORDER = [''ver'', ''seq'', ''rpm'', ''torque'', ''motor_err'', ''motor_valid'',
     ''motor_timeout'', ''cell_vmax'', ''cell_vmin'', ''temp_h'', ''temp_l'', ''sys_state'', ''pack_v'',
     ''current'', ''soc'', ''bms_valid'', ''ts_ms'', ''spd_x10'']"

definition CONTRACT_INT32_MIN :: int where "CONTRACT_INT32_MIN = - 2147483648"

definition contract_sanitize_system_state :: "int \<Rightarrow> int" where
  "contract_sanitize_system_state raw = (if 1 \<le> raw \<and> raw \<le> 4 then raw else 4)"

definition contract_sanitize_soc :: "int \<Rightarrow> int" where
  "contract_sanitize_soc raw = (if 10000 < raw then 10000 else raw)"

definition contract_sanitize_current :: "int \<Rightarrow> int" where
  "contract_sanitize_current raw = (if raw = CONTRACT_INT32_MIN then CONTRACT_INT32_MIN + 1 else raw)"

definition contract_clamp_spd_x10 :: "int \<Rightarrow> int" where
  "contract_clamp_spd_x10 spd_x10 = (if 3000 \<le> spd_x10 then 3000 else spd_x10)"

text \<open>The values at some keys, or \<open>None\<close>.\<close>

definition getitems :: "string list \<Rightarrow> pydict \<Rightarrow> int list option" where
  "getitems ks f = those (map (map_of f) ks)"

definition contract_build_tel_line :: "pydict \<Rightarrow> string option" where
  "contract_build_tel_line f =
     map_option (\<lambda>vs. join (CHR '','') (''TEL'' # map fmt_d vs) @ [CHR 0x0D, CHR 0x0A])
       (getitems FIELD_ORDER f)"

definition contract_build_forward_line :: "pydict \<Rightarrow> string option" where
  "contract_build_forward_line frame =
     map_option (\<lambda>vs. join (CHR '','') (''CSV'' # map fmt_d vs) @ [CHR 0x0D, CHR 0x0A])
       (getitems [''ts_ms'', ''spd_x10'', ''temp_h'', ''pack_v'', ''soc'', ''seq''] frame)"

section \<open>The buffer of the simulation\<close>

record 'a OfflineBufferSim =
  OS_capacity :: nat
  OS_items :: "'a list"

definition OfflineBufferSim_new :: "nat \<Rightarrow> 'a OfflineBufferSim" where
  "OfflineBufferSim_new n = \<lparr>OS_capacity = n, OS_items = []\<rparr>"

definition sim_push :: "'a \<Rightarrow> 'a OfflineBufferSim \<Rightarrow> 'a OfflineBufferSim" where
  "sim_push x b =
     (let b1 = (if length (OS_items b) = OS_capacity b then b\<lparr>OS_items := tl (OS_items b)\<rparr> else b)
      in b1\<lparr>OS_items := OS_items b1 @ [x]\<rparr>)"

definition sim_peek :: "'a OfflineBufferSim \<Rightarrow> 'a option" where
  "sim_peek b = (case OS_items b of [] \<Rightarrow> None | x # _ \<Rightarrow> Some x)"

definition sim_drop_front :: "'a OfflineBufferSim \<Rightarrow> bool \<times> 'a OfflineBufferSim" where
  "sim_drop_front b =
     (if OS_items b = [] then (False, b) else (True, b\<lparr>OS_items := tl (OS_items b)\<rparr>))"

definition sim_count :: "'a OfflineBufferSim \<Rightarrow> nat" where
  "sim_count b = length (OS_items b)"

definition sim_is_empty :: "'a OfflineBufferSim \<Rightarrow> bool" where
  "sim_is_empty b \<longleftrightarrow> OS_items b = []"

lemma sim_push_capacity [simp]: "OS_capacity (sim_push x b) = OS_capacity b"
  by (simp add: sim_push_def Let_def)

text \<open>With the firmware's capacity the deque keeps the contract of the ring.\<close>

definition sim_inv :: "'a OfflineBufferSim \<Rightarrow> bool" where
  "sim_inv b \<longleftrightarrow> OS_capacity b = OB_CAPACITY \<and> length (OS_items b) \<le> OB_CAPACITY"

interpretation deque: drop_oldest_fifo sim_inv OS_items OB_CAPACITY sim_push sim_peek
  "\<lambda>b. snd (sim_drop_front b)"
  by unfold_locales
    (auto simp: sim_inv_def sim_push_def sim_peek_def sim_drop_front_def Let_def Suc_le_eq
      dest: le_neq_implies_less)

section \<open>The outage simulation\<close>

record EmittedPacket =
  EP_tick_now_ms :: int
  EP_kind :: string
  EP_fields :: pydict

record sim_state =
  SIM_buffer :: "pydict OfflineBufferSim"
  SIM_seq :: nat
  SIM_last_offline_sample_ms :: int
  SIM_has_offline_sample :: bool
  SIM_packets :: "EmittedPacket list"
  SIM_buffered_outage_ts :: "int list"

definition sim_sensor_reading :: "int \<Rightarrow> pydict" where
  "sim_sensor_reading now_ms = [(''rpm'', 1200), (''torque'', 100), (''motor_err'', 0),
     (''motor_valid'', 1), (''motor_timeout'', 0), (''cell_vmax'', 37500), (''cell_vmin'', 37400),
     (''temp_h'', 28), (''temp_l'', 26), (''sys_state'', 2), (''pack_v'', 780), (''current'', 5000),
     (''soc'', 8000), (''bms_valid'', 1), (''ts_ms'', now_ms), (''spd_x10'', 250)]"

definition sim_sanitize :: "pydict \<Rightarrow> pydict option" where
  "sim_sanitize reading =
     (case (map_of reading ''sys_state'', map_of reading ''soc'', map_of reading ''current'') of
        (Some state, Some soc, Some current) \<Rightarrow>
          Some (AList.update ''current'' (contract_sanitize_current current)
            (AList.update ''soc'' (contract_sanitize_soc soc)
              (AList.update ''sys_state'' (contract_sanitize_system_state state) reading)))
      | _ \<Rightarrow> None)"

definition sim_emit :: "int \<Rightarrow> string \<Rightarrow> pydict \<Rightarrow> sim_state \<Rightarrow> sim_state option" where
  "sim_emit now_ms kind reading st =
     map_option (\<lambda>out.
         st\<lparr>SIM_seq := SIM_seq st + 1,
            SIM_packets := SIM_packets st @ [\<lparr>EP_tick_now_ms = now_ms, EP_kind = kind,
              EP_fields = AList.update ''seq'' (int (SIM_seq st))
                (AList.update ''ver'' LORA_PROTOCOL_VERSION out)\<rparr>]\<rparr>)
       (sim_sanitize reading)"

fun sim_replay :: "nat \<Rightarrow> int \<Rightarrow> sim_state \<Rightarrow> sim_state option" where
  "sim_replay 0 now_ms st = Some st"
| "sim_replay (Suc n) now_ms st =
     (case sim_peek (SIM_buffer st) of
        None \<Rightarrow> Some st
      | Some buffered \<Rightarrow>
          Option.bind (sim_emit now_ms ''replay'' buffered st)
            (\<lambda>st1. sim_replay n now_ms (st1\<lparr>SIM_buffer := snd (sim_drop_front (SIM_buffer st1))\<rparr>)))"

definition contract_offline_should_sample :: "int \<Rightarrow> int \<Rightarrow> bool \<Rightarrow> bool" where
  "contract_offline_should_sample now_ms last_sample_ms has_sample =
     (if \<not> has_sample then True else uint OFFLINE_SAMPLE_PERIOD_MS \<le> now_ms - last_sample_ms)"

definition sim_sample :: "int \<Rightarrow> pydict \<Rightarrow> sim_state \<Rightarrow> sim_state option" where
  "sim_sample now_ms reading st =
     (if contract_offline_should_sample now_ms (SIM_last_offline_sample_ms st) (SIM_has_offline_sample st)
      then map_option (\<lambda>ts.
          st\<lparr>SIM_last_offline_sample_ms := now_ms, SIM_has_offline_sample := True,
             SIM_buffer := sim_push reading (SIM_buffer st),
             SIM_buffered_outage_ts := SIM_buffered_outage_ts st @ [ts]\<rparr>)
        (map_of reading ''ts_ms'')
      else Some st)"

text \<open>One round of the loop, over any reading.\<close>

definition sim_tick :: "bool \<Rightarrow> int \<Rightarrow> pydict \<Rightarrow> sim_state \<Rightarrow> sim_state option" where
  "sim_tick link_down now_ms reading st =
     (if \<not> link_down
      then Option.bind (sim_replay REPLAY_BURST_PER_TICK now_ms st) (sim_emit now_ms ''live'' reading)
      else sim_sample now_ms reading st)"

function sim_loop :: "int \<Rightarrow> int \<Rightarrow> int \<Rightarrow> int \<Rightarrow> sim_state \<Rightarrow> sim_state option" where
  "sim_loop outage_start outage_end total_ms now_ms st =
     (if total_ms \<le> now_ms then Some st
      else Option.bind
        (sim_tick (outage_start \<le> now_ms \<and> now_ms < outage_end) now_ms (sim_sensor_reading now_ms) st)
        (sim_loop outage_start outage_end total_ms (now_ms + uint LORA_TX_PERIOD_MS)))"
  by auto
termination
  by (relation "measure (\<lambda>(_, _, total_ms, now_ms, _). nat (total_ms - now_ms))")
    (auto simp: LORA_TX_PERIOD_MS_def)

declare sim_loop.simps [simp del]

definition sim_start :: sim_state where
  "sim_start = \<lparr>SIM_buffer = OfflineBufferSim_new OB_CAPACITY, SIM_seq = 0,
     SIM_last_offline_sample_ms = 0, SIM_has_offline_sample = False, SIM_packets = [],
     SIM_buffered_outage_ts = []\<rparr>"

text \<open>
  \<open>math.ceil\<close> of a quotient and \<open>int\<close> of a product with 1.5, on numbers of at most 53 bits, which
  Python's floats hold exactly.
\<close>

definition sim_post_live_ms :: "int \<Rightarrow> int option \<Rightarrow> int" where
  "sim_post_live_ms outage_ms post_live_ms =
     (case post_live_ms of
        Some t \<Rightarrow> t
      | None \<Rightarrow>
          (let max_buffered = outage_ms div uint OFFLINE_SAMPLE_PERIOD_MS;
               ticks_needed = - ((- max_buffered) div int REPLAY_BURST_PER_TICK)
           in ticks_needed * uint LORA_TX_PERIOD_MS * 3 div 2))"

definition run_outage_simulation :: "int \<Rightarrow> int \<Rightarrow> int option \<Rightarrow> sim_state option" where
  "run_outage_simulation pre_live_ms outage_ms post_live_ms =
     sim_loop pre_live_ms (pre_live_ms + outage_ms)
       (pre_live_ms + outage_ms + sim_post_live_ms outage_ms post_live_ms) 0 sim_start"

section \<open>The line builder and the decoder\<close>

text \<open>A frame the ground station can accept: the fields in their order, each in its range.\<close>

definition field_ok :: "string \<times> int \<times> int \<Rightarrow> string \<times> int \<Rightarrow> bool" where
  "field_ok r kv \<longleftrightarrow> (case (r, kv) of ((k, lo, hi), (k', v)) \<Rightarrow> k' = k \<and> lo \<le> v \<and> v \<le> hi)"

definition uks_acceptable :: "pydict \<Rightarrow> bool" where
  "uks_acceptable f \<longleftrightarrow> list_all2 field_ok FIELD_RANGES f \<and>
     map_of f ''ver'' = Some LORA_PROTOCOL_VERSION \<and> the (map_of f ''rpm'') \<le> TEL_RPM_MAX"

lemma strict_token_fmt: "lo \<le> v \<Longrightarrow> is_strict_int_token (fmt_d v) (lo < 0)"
  by (cases "lo < 0") (simp_all add: fmt_d_nonneg)

lemma parse_fields_fmt:
  "list_all2 field_ok rs f \<Longrightarrow> parse_fields rs (map (fmt_d \<circ> snd) f) = Some f"
proof (induction rs f rule: list_all2_induct)
  case (Cons r rs kv f)
  obtain k lo hi v where "r = (k, lo, hi)" "kv = (k, v)" "lo \<le> v" "v \<le> hi"
    using Cons.hyps(1) by (cases r; cases kv) (auto simp: field_ok_def)
  then show ?case using Cons.IH strict_token_fmt by simp
qed simp

lemma parse_fields_ok:
  "parse_fields rs toks = Some f \<Longrightarrow> length toks = length rs \<Longrightarrow> list_all2 field_ok rs f"
proof (induction rs toks arbitrary: f rule: parse_fields.induct)
  case (1 name lo hi rs tok toks)
  then show ?case by (auto simp: field_ok_def Let_def split: if_splits)
qed simp_all

lemma acceptable_keys:
  assumes "list_all2 field_ok FIELD_RANGES f"
  shows "map fst f = FIELD_ORDER" "length f = 18"
proof -
  have "list_all2 (\<lambda>r kv. fst kv = fst r) FIELD_RANGES f"
    using assms by (rule list_all2_mono) (auto simp: field_ok_def)
  then have "map fst f = map fst FIELD_RANGES"
    by (induction rule: list_all2_induct) simp_all
  then show "map fst f = FIELD_ORDER" by (simp add: FIELD_RANGES_def FIELD_ORDER_def)
  then have "length (map fst f) = length FIELD_ORDER" by simp
  then show "length f = 18" by (simp add: FIELD_ORDER_def)
qed

lemma those_Some: "those (map Some xs) = Some xs"
  by (induction xs) simp_all

lemma getitems_all:
  assumes "distinct (map fst f)"
  shows "getitems (map fst f) f = Some (map snd f)"
proof -
  have "map (map_of f) (map fst f) = map Some (map snd f)"
    using assms by (auto intro: map_of_is_SomeI)
  then show ?thesis by (simp only: getitems_def those_Some)
qed

lemma distinct_field_order: "distinct FIELD_ORDER"
  by (simp add: FIELD_ORDER_def)

lemma build_line_ordered:
  assumes "map fst f = FIELD_ORDER"
  shows "contract_build_tel_line f =
    Some (join (CHR '','') (''TEL'' # map (fmt_d \<circ> snd) f) @ [CHR 0x0D, CHR 0x0A])"
  using getitems_all [of f] assms distinct_field_order by (simp add: contract_build_tel_line_def)

lemma split_built_line:
  assumes "f \<noteq> []"
  shows "split_on (CHR '','') (rstrip [CHR 0x0D, CHR 0x0A]
      (join (CHR '','') (''TEL'' # map (fmt_d \<circ> snd) f) @ [CHR 0x0D, CHR 0x0A])) =
    ''TEL'' # map (fmt_d \<circ> snd) f"
proof -
  let ?ws = "''TEL'' # map (fmt_d \<circ> snd) f"
  have last: "last ?ws = fmt_d (snd (last f))" using assms by (simp add: last_map)
  have ne: "fmt_d i \<noteq> []" for i by (simp add: fmt_d_def)
  have "CHR 0x0D \<notin> set (fmt_d i) \<and> CHR 0x0A \<notin> set (fmt_d i)" for i
    by (auto dest!: set_fmt_d simp: is_digit_def)
  then have "last (fmt_d (snd (last f))) \<notin> set [CHR 0x0D, CHR 0x0A]"
    using last_in_set [OF ne] by (metis empty_set insert_iff list.simps(15) empty_iff)
  then have "last (join (CHR '','') ?ws) \<notin> set [CHR 0x0D, CHR 0x0A]"
    using last_join [of ?ws "CHR '',''"] last ne by simp
  moreover have "join (CHR '','') ?ws \<noteq> []"
    by (rule join_nonempty) (simp, simp only: last ne not_False_eq_True)
  ultimately have "rstrip [CHR 0x0D, CHR 0x0A] (join (CHR '','') ?ws @ [CHR 0x0D, CHR 0x0A]) =
      join (CHR '','') ?ws"
    by (intro rstrip_append) simp_all
  moreover have "list_all (\<lambda>w. CHR '','' \<notin> set w) ?ws" by (simp add: list_all_iff)
  ultimately show ?thesis using split_on_join [of ?ws "CHR '',''"] by simp
qed

lemma acceptable_builds:
  assumes "uks_acceptable f"
  shows "\<exists>l. contract_build_tel_line f = Some l \<and> parse_uks_frame l = Inr f"
proof -
  have ok: "list_all2 field_ok FIELD_RANGES f" using assms by (simp add: uks_acceptable_def)
  note keys = acceptable_keys [OF ok]
  have "f \<noteq> []" using keys(2) by auto
  then show ?thesis
    using assms keys(2)
    by (simp add: build_line_ordered [OF keys(1)] parse_uks_frame_def split_built_line
        parse_fields_fmt [OF ok] uks_acceptable_def TOKEN_COUNT_def Let_def)
qed

lemma parse_acceptable: "parse_uks_frame l = Inr f \<Longrightarrow> uks_acceptable f"
  by (auto simp: parse_uks_frame_def uks_acceptable_def Let_def TOKEN_COUNT_def FIELD_RANGES_def not_less
      dest!: parse_fields_ok split: if_splits option.splits)

section \<open>The firmware's line\<close>

text \<open>The dictionary of a snapshot, without version and sequence number.\<close>

definition reading_of :: "TelemetryData \<Rightarrow> pydict" where
  "reading_of d = drop 2 (tel_values 0 d)"

lemma fmt_d_of_word: "fmt_d (uint w) = fmt_u (unat w)" "fmt_d (int n) = fmt_u n"
  by (simp_all add: fmt_d_nonneg)

lemma tel_values_fields: "map (fmt_d \<circ> snd) (tel_values seq d) = tel_fields seq d"
  by (simp add: tel_values_def tel_fields_def fmt_d_of_word)

lemma build_tel_values: "contract_build_tel_line (tel_values seq d) = Some (tel_line seq d)"
proof -
  have "map fst (tel_values seq d) = FIELD_ORDER" by (simp add: tel_values_def FIELD_ORDER_def)
  then show ?thesis by (simp add: build_line_ordered tel_values_fields tel_line_def)
qed

lemma contract_sanitizers:
  "contract_sanitize_system_state (uint s) = uint (sanitizeSystemState s)"
  "contract_sanitize_soc (uint q) = uint (sanitizeSoc q)"
  "contract_sanitize_current (sint c) = sint (sanitizeCurrent c)"
proof -
  show "contract_sanitize_system_state (uint s) = uint (sanitizeSystemState s)"
    by (simp add: contract_sanitize_system_state_def sanitizeSystemState_def word_le_def)
  show "contract_sanitize_soc (uint q) = uint (sanitizeSoc q)"
    by (simp add: contract_sanitize_soc_def sanitizeSoc_def word_less_def)
  have "sint c = CONTRACT_INT32_MIN \<longleftrightarrow> c = INT32_MIN"
    using sint_INT32_MIN by (metis CONTRACT_INT32_MIN_def signed_word_eqI)
  then show "contract_sanitize_current (sint c) = sint (sanitizeCurrent c)"
    by (simp add: contract_sanitize_current_def sanitizeCurrent_def CONTRACT_INT32_MIN_def INT32_MIN_def)
qed

lemma build_cong:
  assumes "\<And>k. k \<in> set FIELD_ORDER \<Longrightarrow> map_of f k = map_of g k"
  shows "contract_build_tel_line f = contract_build_tel_line g"
  using assms by (simp add: contract_build_tel_line_def getitems_def cong: map_cong)

lemma sanitize_reading:
  "sim_sanitize (reading_of d) =
     Some (AList.update ''current'' (sint (sanitizeCurrent (TEL_bmsCurrentCentiMa d)))
       (AList.update ''soc'' (uint (sanitizeSoc (TEL_bmsSocHundredths d)))
         (AList.update ''sys_state'' (uint (sanitizeSystemState (TEL_bmsSystemState d))) (reading_of d))))"
proof -
  have "map_of (reading_of d) ''sys_state'' = Some (uint (TEL_bmsSystemState d))"
    "map_of (reading_of d) ''soc'' = Some (uint (TEL_bmsSocHundredths d))"
    "map_of (reading_of d) ''current'' = Some (sint (TEL_bmsCurrentCentiMa d))"
    by (simp_all add: reading_of_def tel_values_def)
  then show ?thesis by (simp add: sim_sanitize_def contract_sanitizers)
qed

lemma sim_emit_line:
  assumes "unat seq = SIM_seq st"
  shows "\<exists>p. sim_emit now_ms kind (reading_of d) st =
      Some (st\<lparr>SIM_seq := SIM_seq st + 1, SIM_packets := SIM_packets st @ [p]\<rparr>) \<and>
    EP_kind p = kind \<and> EP_tick_now_ms p = now_ms \<and>
    contract_build_tel_line (EP_fields p) = Some (tel_line seq (sanitizeForUplink d))"
proof -
  let ?out = "AList.update ''current'' (sint (sanitizeCurrent (TEL_bmsCurrentCentiMa d)))
       (AList.update ''soc'' (uint (sanitizeSoc (TEL_bmsSocHundredths d)))
         (AList.update ''sys_state'' (uint (sanitizeSystemState (TEL_bmsSystemState d))) (reading_of d)))"
  let ?f = "AList.update ''seq'' (int (SIM_seq st)) (AList.update ''ver'' LORA_PROTOCOL_VERSION ?out)"
  have "contract_build_tel_line ?f = contract_build_tel_line (tel_values seq (sanitizeForUplink d))"
  proof (rule build_cong)
    fix k assume k: "k \<in> set FIELD_ORDER"
    have "int (SIM_seq st) = uint seq" using assms [symmetric] by simp
    then show "map_of ?f k = map_of (tel_values seq (sanitizeForUplink d)) k"
      using k by (auto simp: FIELD_ORDER_def AList.update_conv' reading_of_def tel_values_def
          sanitizeForUplink_def)
  qed
  then show ?thesis
    by (intro exI [of _ "\<lparr>EP_tick_now_ms = now_ms, EP_kind = kind, EP_fields = ?f\<rparr>"])
      (simp add: sim_emit_def sanitize_reading build_tel_values)
qed

section \<open>One period of both\<close>

text \<open>The simulation is in the state of the radio task.\<close>

definition sim_rel :: "LoraTask \<Rightarrow> sim_state \<Rightarrow> bool" where
  "sim_rel s st \<longleftrightarrow> lora_inv s \<and> OS_capacity (SIM_buffer st) = OB_CAPACITY \<and>
     OS_items (SIM_buffer st) = map reading_of (ob_list (LO_buffer s)) \<and>
     SIM_seq st = unat (TEL_sequenceCounter (LO_telemetry s)) \<and>
     SIM_has_offline_sample st = LO_offlineHasSamples s \<and>
     (LO_offlineHasSamples s \<longrightarrow> SIM_last_offline_sample_ms st = uint (LO_lastOfflineSampleMs s))"

lemma sim_rel_inv: "sim_rel s st \<Longrightarrow> sim_inv (SIM_buffer st) \<and> ob_inv (LO_buffer s)"
  using offline.bounded [of "LO_buffer s"] by (simp add: sim_rel_def sim_inv_def lora_inv_def)

text \<open>Lines of packets.\<close>

definition packet_lines :: "EmittedPacket list \<Rightarrow> string list option" where
  "packet_lines ps = those (map (\<lambda>p. contract_build_tel_line (EP_fields p)) ps)"

lemma packet_lines_simps [simp]:
  "packet_lines [] = Some []"
  "contract_build_tel_line (EP_fields p) = Some l \<Longrightarrow>
     packet_lines (p # ps) = map_option (Cons l) (packet_lines ps)"
  by (simp_all add: packet_lines_def)

text \<open>A transmission of the task is an emission of the simulation.\<close>

lemma emit_send:
  assumes "sim_rel s st" "0 \<le> w" "SIM_seq st + 1 < 2 ^ 32"
  obtains p where "sim_emit now_ms kind (reading_of d) st =
      Some (st\<lparr>SIM_seq := SIM_seq st + 1, SIM_packets := SIM_packets st @ [p]\<rparr>)"
    and "EP_kind p = kind" "EP_tick_now_ms p = now_ms"
    and "sent (snd (lora_send w d s)) = [the (contract_build_tel_line (EP_fields p))]"
    and "packet_lines [p] = Some (sent (snd (lora_send w d s)))"
    and "sim_rel (fst (lora_send w d s)) (st\<lparr>SIM_seq := SIM_seq st + 1, SIM_packets := SIM_packets st @ [p]\<rparr>)"
proof -
  let ?t = "LO_telemetry s"
  have init: "TEL_isInitialized ?t" using assms(1) by (simp add: sim_rel_def lora_inv_def)
  have seq: "unat (TEL_sequenceCounter ?t) = SIM_seq st" using assms(1) by (simp add: sim_rel_def)
  obtain p where p: "sim_emit now_ms kind (reading_of d) st =
      Some (st\<lparr>SIM_seq := SIM_seq st + 1, SIM_packets := SIM_packets st @ [p]\<rparr>)"
    "EP_kind p = kind" "EP_tick_now_ms p = now_ms"
    and line: "contract_build_tel_line (EP_fields p) =
      Some (tel_line (TEL_sequenceCounter ?t) (sanitizeForUplink d))"
    using sim_emit_line [OF seq] by blast
  have sent: "sent (snd (lora_send w d s)) = [tel_line (TEL_sequenceCounter ?t) (sanitizeForUplink d)]"
    by (simp add: snd_lora_send [OF init])
  have "unat (TEL_sequenceCounter ?t + 1) = SIM_seq st + 1"
    using assms(3) seq by (simp add: unat_add_lem [THEN iffD1])
  moreover have "fst (lora_send w d s) =
      s\<lparr>LO_telemetry := ?t\<lparr>TEL_sequenceCounter := TEL_sequenceCounter ?t + 1\<rparr>\<rparr>"
    using assms(2) by (simp add: lora_send_def sendStatus_initialized [OF init] Let_def)
  ultimately have "sim_rel (fst (lora_send w d s))
      (st\<lparr>SIM_seq := SIM_seq st + 1, SIM_packets := SIM_packets st @ [p]\<rparr>)"
    using assms(1) by (simp add: sim_rel_def lora_inv_def)
  then show ?thesis using that p sent line by simp
qed

lemma drop_rel:
  assumes "sim_rel s st"
  shows "sim_rel (s\<lparr>LO_buffer := snd (ob_drop_front (LO_buffer s)), LO_auxNotReadyLogged := b\<rparr>)
    (st\<lparr>SIM_buffer := snd (sim_drop_front (SIM_buffer st))\<rparr>)"
proof -
  have "OS_items (snd (sim_drop_front (SIM_buffer st))) = tl (OS_items (SIM_buffer st))"
    "OS_capacity (snd (sim_drop_front (SIM_buffer st))) = OS_capacity (SIM_buffer st)"
    by (simp_all add: sim_drop_front_def)
  moreover have "ob_list (snd (ob_drop_front (LO_buffer s))) = tl (ob_list (LO_buffer s))"
    "ob_inv (snd (ob_drop_front (LO_buffer s)))"
    using sim_rel_inv [OF assms] by (simp_all add: offline.contents_drop offline.inv_drop)
  ultimately show ?thesis
    using assms by (simp add: sim_rel_def lora_inv_def map_tl)
qed

lemma peek_rel:
  assumes "sim_rel s st"
  shows "sim_peek (SIM_buffer st) = map_option reading_of (ob_peek (LO_buffer s))"
  using assms sim_rel_inv [OF assms] offline.peek_front [of "LO_buffer s"]
  by (simp add: sim_peek_def sim_rel_def split: list.split)

lemma packet_lines_append:
  "packet_lines ps = Some ls \<Longrightarrow> packet_lines qs = Some ms \<Longrightarrow> packet_lines (ps @ qs) = Some (ls @ ms)"
proof (induction ps arbitrary: ls)
  case (Cons p ps)
  then obtain l ls' where "contract_build_tel_line (EP_fields p) = Some l" "packet_lines ps = Some ls'" "ls = l # ls'"
    by (auto simp: packet_lines_def split: option.splits)
  then show ?case using Cons.IH Cons.prems(2) by simp
qed simp

lemma rel_frame [simp]:
  "sim_rel (s\<lparr>LO_auxNotReadyLogged := b\<rparr>) st = sim_rel s st"
  "sim_rel (s\<lparr>LO_lastTelemetryTick := t\<rparr>) st = sim_rel s st"
  by (simp_all add: sim_rel_def lora_inv_def)

lemma replay_rel:
  assumes "sim_rel s st" "\<forall>j. fst (env j) \<and> 0 \<le> snd (env j)" "SIM_seq st + n < 2 ^ 32"
  shows "\<exists>st' ps. sim_replay n now_ms st = Some st' \<and> SIM_packets st' = SIM_packets st @ ps \<and>
    packet_lines ps = Some (sent (snd (lora_replay n i env s))) \<and>
    sim_rel (fst (lora_replay n i env s)) st' \<and> SIM_seq st' \<le> SIM_seq st + n"
  using assms
proof (induction n arbitrary: i s st)
  case 0
  then show ?case by simp
next
  case (Suc n)
  show ?case
  proof (cases "ob_peek (LO_buffer s)")
    case None
    with Suc.prems(1) show ?thesis by (simp add: peek_rel [OF Suc.prems(1)])
  next
    case (Some d)
    obtain ready w where env: "env i = (ready, w)" and w: "ready" "0 \<le> w"
      using Suc.prems(2) by (cases "env i") (metis fst_conv snd_conv)
    obtain p where p: "sim_emit now_ms ''replay'' (reading_of d) st =
        Some (st\<lparr>SIM_seq := SIM_seq st + 1, SIM_packets := SIM_packets st @ [p]\<rparr>)"
      and line: "packet_lines [p] = Some (sent (snd (lora_send w d s)))"
      and rel: "sim_rel (fst (lora_send w d s))
        (st\<lparr>SIM_seq := SIM_seq st + 1, SIM_packets := SIM_packets st @ [p]\<rparr>)"
      by (rule emit_send [OF Suc.prems(1) w(2), of now_ms "''replay''" d]) (use Suc.prems(3) in auto)
    let ?st = "st\<lparr>SIM_seq := SIM_seq st + 1, SIM_packets := SIM_packets st @ [p]\<rparr>"
    let ?st1 = "?st\<lparr>SIM_buffer := snd (sim_drop_front (SIM_buffer ?st))\<rparr>"
    let ?s1 = "(fst (lora_send w d s))\<lparr>LO_buffer := snd (ob_drop_front (LO_buffer (fst (lora_send w d s)))),
      LO_auxNotReadyLogged := False\<rparr>"
    obtain st' ps where st': "sim_replay n now_ms ?st1 = Some st'" "SIM_packets st' = SIM_packets ?st1 @ ps"
      "packet_lines ps = Some (sent (snd (lora_replay n (Suc i) env ?s1)))"
      "sim_rel (fst (lora_replay n (Suc i) env ?s1)) st'" "SIM_seq st' \<le> SIM_seq ?st1 + n"
      using Suc.IH [OF drop_rel [OF rel, of False] Suc.prems(2), of "Suc i"] Suc.prems(3) by auto
    have "sim_replay (Suc n) now_ms st = Some st'"
      using st'(1) by (simp add: peek_rel [OF Suc.prems(1)] Some p)
    moreover have "packet_lines (p # ps) = Some (sent (snd (lora_replay (Suc n) i env s)))"
      using packet_lines_append [OF line st'(3)] w(1)
      by (simp add: Some env case_prod_beta Let_def)
    moreover have "sim_rel (fst (lora_replay (Suc n) i env s)) st'"
      using st'(4) w(1) by (simp add: Some env case_prod_beta Let_def)
    ultimately show ?thesis using st'(2,5) by (intro exI [of _ st'] exI [of _ "p # ps"]) simp
  qed
qed

lemma sample_rel:
  assumes "sim_rel s st" "IN_live i = Some d"
    and "LO_offlineHasSamples s \<Longrightarrow> LO_lastOfflineSampleMs s \<le> IN_sampleMs i"
  shows "\<exists>st'. sim_sample (uint (IN_sampleMs i)) (reading_of d) st = Some st' \<and>
    SIM_packets st' = SIM_packets st \<and> sim_rel (lora_offline i s) st'"
proof -
  let ?now = "IN_sampleMs i" and ?last = "LO_lastOfflineSampleMs s"
  have ts: "map_of (reading_of d) ''ts_ms'' = Some (uint (TEL_timestampMs d))"
    by (simp add: reading_of_def tel_values_def)
  have "ucast OFFLINE_SAMPLE_PERIOD_MS \<le> ?now - ?last \<longleftrightarrow>
      uint OFFLINE_SAMPLE_PERIOD_MS \<le> uint ?now - uint ?last" if "?last \<le> ?now"
    using uint_sub_lem [of ?last ?now] that by (simp add: word_le_def OFFLINE_SAMPLE_PERIOD_MS_def)
  then have due: "contract_offline_should_sample (uint ?now) (SIM_last_offline_sample_ms st)
      (SIM_has_offline_sample st) \<longleftrightarrow>
      offline_should_sample ?now ?last (LO_offlineHasSamples s) OFFLINE_SAMPLE_PERIOD_MS"
    using assms(1,3) by (auto simp: contract_offline_should_sample_def offline_should_sample_def sim_rel_def)
  have push: "OS_items (sim_push (reading_of d) (SIM_buffer st)) =
      map reading_of (ob_list (ob_push d (LO_buffer s)))"
    "OS_capacity (sim_push (reading_of d) (SIM_buffer st)) = OB_CAPACITY"
    "ob_inv (ob_push d (LO_buffer s))"
    using sim_rel_inv [OF assms(1)] assms(1)
    by (auto simp: deque.contents_push offline.contents_push offline.inv_push sim_rel_def map_tl)
  show ?thesis
  proof (cases "offline_should_sample ?now ?last (LO_offlineHasSamples s) OFFLINE_SAMPLE_PERIOD_MS")
    case True
    let ?st' = "st\<lparr>SIM_last_offline_sample_ms := uint ?now, SIM_has_offline_sample := True,
      SIM_buffer := sim_push (reading_of d) (SIM_buffer st),
      SIM_buffered_outage_ts := SIM_buffered_outage_ts st @ [uint (TEL_timestampMs d)]\<rparr>"
    have "sim_sample (uint ?now) (reading_of d) st = Some ?st'"
      using True by (simp only: sim_sample_def due ts option.map if_True)
    moreover have "sim_rel (lora_offline i s) ?st'"
      using assms(1,2) push True by (simp add: sim_rel_def lora_inv_def lora_offline_def Let_def)
    ultimately show ?thesis by (intro exI [of _ ?st']) simp
  next
    case False
    then have "sim_sample (uint ?now) (reading_of d) st = Some st"
      by (simp only: sim_sample_def due if_False)
    then show ?thesis using assms(1,2) False by (simp add: lora_offline_def)
  qed
qed

section \<open>Properties\<close>

text \<open>
  C36: the frames that the ground station accepts are exactly those with the eighteen fields in their
  order, each in its range, version 2 and at most 20000 rpm; and the line the reference builder makes
  of such a frame is accepted and decodes to that frame.
\<close>

theorem frame_roundtrip:
  "((\<exists>l. parse_uks_frame l = Inr f) \<longleftrightarrow> uks_acceptable f) \<and>
   ((\<exists>l. contract_build_tel_line f = Some l \<and> parse_uks_frame l = Inr f) \<longleftrightarrow> uks_acceptable f)"
  using acceptable_builds parse_acceptable by blast

text \<open>
  C15: the simulation that the end-to-end tests run is the radio task. In related states, with a ready
  radio and a live snapshot, one due period of the task transmits exactly the lines that the
  reference builder makes of the packets the simulation emits in that round, replay before live, and
  leaves related states: the ring and the deque hold the same snapshots, the sequence numbers and the
  sampling clocks agree. It holds while the sequence number does not wrap and the clock does not go
  back.
\<close>

theorem simulation_is_radio_task:
  assumes "sim_rel (lora_mid i s) st" "tx_due ms i (lora_mid i s)" "IN_live i = Some d"
    and "\<forall>j. fst (IN_replay i j) \<and> 0 \<le> snd (IN_replay i j)" "IN_aux i" "0 \<le> IN_written i"
    and "SIM_seq st + 2 < 2 ^ 32"
    and "LO_offlineHasSamples (lora_mid i s) \<longrightarrow> LO_lastOfflineSampleMs (lora_mid i s) \<le> IN_sampleMs i"
  shows "\<exists>st' ps. sim_tick (s_linkDown (lora_mid i s)) (uint (IN_sampleMs i)) (reading_of d) st = Some st' \<and>
    SIM_packets st' = SIM_packets st @ ps \<and>
    packet_lines ps = Some (sent (snd (lora_step ms i s))) \<and> sim_rel (fst (lora_step ms i s)) st'"
proof (cases "s_linkDown (lora_mid i s)")
  case True
  let ?s = "(lora_mid i s)\<lparr>LO_lastTelemetryTick := IN_tick i\<rparr>"
  have "fst (lora_telemetry ms i (lora_mid i s)) = lora_offline i ?s"
    using True assms(2) by (simp add: lora_telemetry_def tx_due_def LoRa_IsLinkDown_def)
  moreover have "sim_rel ?s st" using assms(1) by simp
  ultimately show ?thesis
    using sample_rel [of ?s st i d] assms(3,8) True telemetry_down(1) [OF True, of ms i]
    by (auto simp: sim_tick_def lora_step_mid)
next
  case False
  let ?s = "(lora_mid i s)\<lparr>LO_lastTelemetryTick := IN_tick i\<rparr>"
  let ?r = "lora_replay REPLAY_BURST_PER_TICK 0 (IN_replay i) ?s"
  obtain st1 ps where st1: "sim_replay REPLAY_BURST_PER_TICK (uint (IN_sampleMs i)) st = Some st1"
    "SIM_packets st1 = SIM_packets st @ ps" "packet_lines ps = Some (sent (snd ?r))" "sim_rel (fst ?r) st1"
    "SIM_seq st1 \<le> SIM_seq st + REPLAY_BURST_PER_TICK"
    using replay_rel [of ?s st "IN_replay i" REPLAY_BURST_PER_TICK "uint (IN_sampleMs i)" 0]
      assms(1,4,7) by (auto simp: REPLAY_BURST_PER_TICK_def)
  obtain p where p: "sim_emit (uint (IN_sampleMs i)) ''live'' (reading_of d) st1 =
      Some (st1\<lparr>SIM_seq := SIM_seq st1 + 1, SIM_packets := SIM_packets st1 @ [p]\<rparr>)"
    and line: "packet_lines [p] = Some (sent (snd (lora_send (IN_written i) d (fst ?r))))"
    and rel: "sim_rel (fst (lora_send (IN_written i) d (fst ?r)))
      (st1\<lparr>SIM_seq := SIM_seq st1 + 1, SIM_packets := SIM_packets st1 @ [p]\<rparr>)"
    by (rule emit_send [OF st1(4) assms(6), of "uint (IN_sampleMs i)" "''live''" d])
      (use st1(5) assms(7) in \<open>auto simp: REPLAY_BURST_PER_TICK_def\<close>)
  have "packet_lines (ps @ [p]) = Some (sent (snd (lora_telemetry ms i (lora_mid i s))))"
    using packet_lines_append [OF st1(3) line] assms(3,5)
    by (simp add: telemetry_up [OF False assms(2)] lora_live_def case_prod_beta Let_def)
  moreover have "sim_rel (fst (lora_telemetry ms i (lora_mid i s)))
      (st1\<lparr>SIM_seq := SIM_seq st1 + 1, SIM_packets := SIM_packets st1 @ [p]\<rparr>)"
    using rel assms(3,5)
    by (simp add: telemetry_up [OF False assms(2)] lora_live_def case_prod_beta Let_def)
  ultimately show ?thesis
    using st1(1,2) p False by (auto simp: sim_tick_def lora_step_mid)
qed

lemma sim_start_mid:
  "lora_mid (up_in w live t) (LoraTask_start 0) = (LoraTask_start 0)\<lparr>s_lastHeartbeatMs := 1000\<rparr>"
  by (rule up_mid) (simp add: LoraTask_start_def)

lemma sim_start_rel: "sim_rel (lora_mid (up_in w live t) (LoraTask_start 0)) sim_start"
  unfolding sim_start_mid
  using lora_inv_start [of 0] ob_new_inv
  by (simp add: sim_rel_def sim_start_def OfflineBufferSim_new_def lora_inv_def LoraTask_start_def
      Telemetry_begin_def Telemetry_new_def)

lemma simulation_is_radio_task_witness:
  "\<exists>st' ps. sim_tick False 1002 (reading_of makeTelemetryDataValid) sim_start = Some st' \<and>
    packet_lines ps = Some (sent (snd (lora_step ms10
      (up_in 108 (Some makeTelemetryDataValid) 20) (LoraTask_start 0))))"
proof -
  let ?i = "up_in 108 (Some makeTelemetryDataValid) 20"
  have "\<not> s_linkDown (lora_mid ?i (LoraTask_start 0))" "tx_due ms10 ?i (lora_mid ?i (LoraTask_start 0))"
    "\<not> LO_offlineHasSamples (lora_mid ?i (LoraTask_start 0))"
    using up_due [of 108 "Some makeTelemetryDataValid" "[]"]
    unfolding sim_start_mid by (simp_all add: LoraTask_start_def lora_with_def tx_due_def)
  then show ?thesis
    using simulation_is_radio_task [OF sim_start_rel, of ms10 108 "Some makeTelemetryDataValid" 20]
    by (fastforce simp: up_in_def sim_start_def)
qed

end
