(* ===== verification/Outage_Sim.thy ===== *)
theory Outage_Sim
  imports Uks_Contract
begin

text \<open>
  What the outage simulation of \<open>tools/e2e/aks_loop_sim.py\<close> guarantees for every duration, and not
  only for the one that \<open>test_outage_simulation.py\<close> runs: the ground station accepts every packet, the
  sequence numbers have no gap, nothing buffered is lost or reordered, and a long enough time after
  the outage empties the buffer.
\<close>

section \<open>Packets\<close>

text \<open>What the test does with a packet: the line of its fields, decoded by the ground station.\<close>

definition decoded :: "EmittedPacket \<Rightarrow> pydict option" where
  "decoded p =
     (case contract_build_tel_line (EP_fields p) of
        None \<Rightarrow> None
      | Some l \<Rightarrow> (case parse_uks_frame l of Inl _ \<Rightarrow> None | Inr f \<Rightarrow> Some f))"

text \<open>The frame of the reading at time \<open>t\<close>, and a packet that carries it.\<close>

definition sim_frame :: "nat \<Rightarrow> int \<Rightarrow> pydict" where
  "sim_frame seq t = (''ver'', LORA_PROTOCOL_VERSION) # (''seq'', int seq) # sim_sensor_reading t"

definition sim_packet :: "int \<Rightarrow> string \<Rightarrow> int \<Rightarrow> nat \<Rightarrow> EmittedPacket" where
  "sim_packet now_ms kind t seq = \<lparr>EP_tick_now_ms = now_ms, EP_kind = kind,
     EP_fields = sim_sensor_reading t @ [(''ver'', LORA_PROTOCOL_VERSION), (''seq'', int seq)]\<rparr>"

lemma sim_emit_packet:
  "sim_emit now_ms kind (sim_sensor_reading t) st =
     Some (st\<lparr>SIM_seq := SIM_seq st + 1,
              SIM_packets := SIM_packets st @ [sim_packet now_ms kind t (SIM_seq st)]\<rparr>)"
  by (simp add: sim_emit_def sim_sanitize_def sim_sensor_reading_def sim_packet_def
      contract_sanitize_system_state_def contract_sanitize_soc_def contract_sanitize_current_def
      CONTRACT_INT32_MIN_def)

lemma sim_frame_acceptable:
  assumes "0 \<le> t" "t < 2 ^ 32" "seq < 2 ^ 32"
  shows "uks_acceptable (sim_frame seq t)"
  using assms by (simp add: uks_acceptable_def sim_frame_def sim_sensor_reading_def FIELD_RANGES_def
      field_ok_def U32_MAX_def TEL_RPM_MAX_def LORA_PROTOCOL_VERSION_def)

lemma packet_decoded:
  assumes "0 \<le> t" "t < 2 ^ 32" "seq < 2 ^ 32"
  shows "decoded (sim_packet now_ms kind t seq) = Some (sim_frame seq t)"
proof -
  have "contract_build_tel_line (EP_fields (sim_packet now_ms kind t seq)) =
      contract_build_tel_line (sim_frame seq t)"
    by (rule build_cong) (auto simp: FIELD_ORDER_def sim_packet_def sim_frame_def sim_sensor_reading_def)
  with acceptable_builds [OF sim_frame_acceptable [OF assms]] show ?thesis
    by (auto simp: decoded_def)
qed

lemma frame_values [simp]:
  "map_of (sim_frame seq t) ''seq'' = Some (int seq)" "map_of (sim_frame seq t) ''ts_ms'' = Some t"
  "map_of (sim_sensor_reading t) ''ts_ms'' = Some t"
  by (simp_all add: sim_frame_def sim_sensor_reading_def)

section \<open>The invariant of the loop\<close>

text \<open>The time stamps of the replayed packets, as the ground station decodes them.\<close>

definition replayed :: "EmittedPacket list \<Rightarrow> int option list" where
  "replayed ps = [Option.bind (decoded p) (\<lambda>f. map_of f ''ts_ms''). p \<leftarrow> ps, EP_kind p = ''replay'']"

lemma replayed_append [simp]: "replayed (ps @ qs) = replayed ps @ replayed qs"
  by (simp add: replayed_def)

definition waiting :: "sim_state \<Rightarrow> int option list" where
  "waiting st = map (\<lambda>r. map_of r ''ts_ms'') (OS_items (SIM_buffer st))"

definition accepted_in_order :: "EmittedPacket list \<Rightarrow> bool" where
  "accepted_in_order ps \<longleftrightarrow>
     (\<exists>fs. map decoded ps = map Some fs \<and>
        map (\<lambda>f. map_of f ''seq'') fs = map (\<lambda>n. Some (int n)) [0..<length ps])"

lemma accepted_snoc:
  assumes "accepted_in_order ps" "decoded p = Some f" "map_of f ''seq'' = Some (int (length ps))"
  shows "accepted_in_order (ps @ [p])"
proof -
  obtain fs where "map decoded ps = map Some fs"
    "map (\<lambda>f. map_of f ''seq'') fs = map (\<lambda>n. Some (int n)) [0..<length ps]"
    using assms(1) by (auto simp: accepted_in_order_def)
  with assms(2,3) show ?thesis
    unfolding accepted_in_order_def by (intro exI [of _ "fs @ [f]"]) simp
qed

text \<open>
  \<open>ts\<close> are the time stamps waiting. Each sample is taken a second after the one before it, which
  bounds their number; after the outage each round sends one of them.
\<close>

definition loop_inv :: "int \<Rightarrow> int \<Rightarrow> int \<Rightarrow> sim_state \<Rightarrow> bool" where
  "loop_inv from_ms to_ms now_ms st \<longleftrightarrow> 0 \<le> now_ms \<and>
     (\<exists>ts. OS_items (SIM_buffer st) = map sim_sensor_reading ts \<and> list_all (\<lambda>t. 0 \<le> t \<and> t < 2 ^ 32) ts \<and>
        (to_ms \<le> now_ms \<longrightarrow> 200 * int (length ts) \<le>
           max 0 (200 * int (length (SIM_buffered_outage_ts st)) + 199 - (now_ms - to_ms)))) \<and>
     OS_capacity (SIM_buffer st) = OB_CAPACITY \<and>
     accepted_in_order (SIM_packets st) \<and> length (SIM_packets st) = SIM_seq st \<and>
     100 * int (SIM_seq st) \<le> now_ms \<and>
     replayed (SIM_packets st) @ waiting st = map Some (SIM_buffered_outage_ts st) \<and>
     (if SIM_has_offline_sample st
      then SIM_last_offline_sample_ms st \<le> now_ms \<and> SIM_last_offline_sample_ms st < to_ms \<and>
        SIM_buffered_outage_ts st \<noteq> [] \<and>
        from_ms + 1000 * (int (length (SIM_buffered_outage_ts st)) - 1) \<le> SIM_last_offline_sample_ms st
      else SIM_buffered_outage_ts st = [])"

lemma loop_inv_start: "loop_inv from_ms to_ms 0 sim_start"
  by (simp add: loop_inv_def sim_start_def OfflineBufferSim_new_def accepted_in_order_def replayed_def
      waiting_def)

lemma emit_kept:
  assumes "accepted_in_order ps" "length ps = seq" "0 \<le> t" "t < 2 ^ 32" "seq < 2 ^ 32"
  shows "accepted_in_order (ps @ [sim_packet now_ms kind t seq])"
    "replayed (ps @ [sim_packet now_ms kind t seq]) =
       replayed ps @ (if kind = ''replay'' then [Some t] else [])"
proof -
  show "accepted_in_order (ps @ [sim_packet now_ms kind t seq])"
    using assms by (intro accepted_snoc [where f = "sim_frame seq t"]) (simp_all add: packet_decoded)
  show "replayed (ps @ [sim_packet now_ms kind t seq]) =
      replayed ps @ (if kind = ''replay'' then [Some t] else [])"
    using assms(3-5) by (simp add: replayed_def packet_decoded) (simp add: sim_packet_def)
qed

section \<open>One round\<close>

lemma up_empty:
  assumes "OS_items (SIM_buffer st) = []"
  shows "sim_tick False now_ms (sim_sensor_reading now_ms) st =
    Some (st\<lparr>SIM_seq := SIM_seq st + 1,
             SIM_packets := SIM_packets st @ [sim_packet now_ms ''live'' now_ms (SIM_seq st)]\<rparr>)"
  using assms
  by (simp add: sim_tick_def REPLAY_BURST_PER_TICK_def numeral_eq_Suc sim_peek_def sim_emit_packet)

lemma up_waiting:
  assumes "OS_items (SIM_buffer st) = sim_sensor_reading t # rs"
  shows "sim_tick False now_ms (sim_sensor_reading now_ms) st =
    Some (st\<lparr>SIM_buffer := (SIM_buffer st)\<lparr>OS_items := rs\<rparr>, SIM_seq := SIM_seq st + 2,
             SIM_packets := (SIM_packets st @ [sim_packet now_ms ''replay'' t (SIM_seq st)])
               @ [sim_packet now_ms ''live'' now_ms (SIM_seq st + 1)]\<rparr>)"
  using assms
  by (simp add: sim_tick_def REPLAY_BURST_PER_TICK_def numeral_eq_Suc sim_peek_def sim_emit_packet
      sim_drop_front_def)

lemma down_round:
  "sim_tick True now_ms (sim_sensor_reading now_ms) st =
     (if SIM_has_offline_sample st \<and> now_ms - SIM_last_offline_sample_ms st < 1000 then Some st
      else Some (st\<lparr>SIM_last_offline_sample_ms := now_ms, SIM_has_offline_sample := True,
             SIM_buffer := sim_push (sim_sensor_reading now_ms) (SIM_buffer st),
             SIM_buffered_outage_ts := SIM_buffered_outage_ts st @ [now_ms]\<rparr>))"
  by (auto simp: sim_tick_def sim_sample_def contract_offline_should_sample_def OFFLINE_SAMPLE_PERIOD_MS_def)

text \<open>The facts of the invariant, by name.\<close>

lemma loop_invE:
  assumes "loop_inv from_ms to_ms now_ms st"
  obtains ts n where "0 \<le> now_ms" "OS_items (SIM_buffer st) = map sim_sensor_reading ts"
    and "list_all (\<lambda>t. 0 \<le> t \<and> t < 2 ^ 32) ts" "n = int (length (SIM_buffered_outage_ts st))"
    and "to_ms \<le> now_ms \<Longrightarrow> 200 * int (length ts) \<le> max 0 (200 * n + 199 - (now_ms - to_ms))"
    and "OS_capacity (SIM_buffer st) = OB_CAPACITY" "accepted_in_order (SIM_packets st)"
    and "length (SIM_packets st) = SIM_seq st" "100 * int (SIM_seq st) \<le> now_ms"
    and "replayed (SIM_packets st) @ map Some ts = map Some (SIM_buffered_outage_ts st)"
    and "int (length ts) \<le> n"
    and "SIM_has_offline_sample st \<Longrightarrow> SIM_last_offline_sample_ms st \<le> now_ms \<and> SIM_last_offline_sample_ms st < to_ms \<and> 1 \<le> n \<and>
      from_ms + 1000 * (n - 1) \<le> SIM_last_offline_sample_ms st"
    and "\<not> SIM_has_offline_sample st \<Longrightarrow> n = 0"
proof -
  obtain ts where ts: "OS_items (SIM_buffer st) = map sim_sensor_reading ts"
    "list_all (\<lambda>t. 0 \<le> t \<and> t < 2 ^ 32) ts"
    "to_ms \<le> now_ms \<longrightarrow> 200 * int (length ts) \<le>
       max 0 (200 * int (length (SIM_buffered_outage_ts st)) + 199 - (now_ms - to_ms))"
    using assms unfolding loop_inv_def by blast
  have "waiting st = map Some ts" by (simp add: waiting_def ts(1))
  then have eq: "replayed (SIM_packets st) @ map Some ts = map Some (SIM_buffered_outage_ts st)"
    using assms by (simp add: loop_inv_def)
  from arg_cong [OF this, of length] have len: "length ts \<le> length (SIM_buffered_outage_ts st)"
    by simp
  have "1 \<le> int (length (SIM_buffered_outage_ts st))" if "SIM_buffered_outage_ts st \<noteq> []"
    using that by (cases "SIM_buffered_outage_ts st") simp_all
  then show ?thesis
    using that [OF _ ts(1,2) refl] ts(3) eq len assms unfolding loop_inv_def
    by (simp split: if_splits)
qed

lemma loop_invI:
  assumes "0 \<le> now_ms" "OS_items (SIM_buffer st) = map sim_sensor_reading ts"
    and "list_all (\<lambda>t. 0 \<le> t \<and> t < 2 ^ 32) ts" "n = int (length (SIM_buffered_outage_ts st))"
    and "to_ms \<le> now_ms \<Longrightarrow> 200 * int (length ts) \<le> max 0 (200 * n + 199 - (now_ms - to_ms))"
    and "OS_capacity (SIM_buffer st) = OB_CAPACITY" "accepted_in_order (SIM_packets st)"
    and "length (SIM_packets st) = SIM_seq st" "100 * int (SIM_seq st) \<le> now_ms"
    and "replayed (SIM_packets st) @ map Some ts = map Some (SIM_buffered_outage_ts st)"
    and "SIM_has_offline_sample st \<Longrightarrow> SIM_last_offline_sample_ms st \<le> now_ms \<and> SIM_last_offline_sample_ms st < to_ms \<and> 1 \<le> n \<and>
      from_ms + 1000 * (n - 1) \<le> SIM_last_offline_sample_ms st"
    and "\<not> SIM_has_offline_sample st \<Longrightarrow> n = 0"
  shows "loop_inv from_ms to_ms now_ms st"
  unfolding loop_inv_def using assms
  by (intro conjI exI [of _ ts]) (auto simp: waiting_def comp_def)

lemma up_round_kept:
  assumes "loop_inv from_ms to_ms now_ms st" "from_ms \<le> to_ms" "now_ms < 2 ^ 32"
    and "now_ms < from_ms \<or> to_ms \<le> now_ms"
  shows "\<exists>st'. sim_tick False now_ms (sim_sensor_reading now_ms) st = Some st' \<and>
    loop_inv from_ms to_ms (now_ms + 200) st'"
proof (rule loop_invE [OF assms(1)])
  fix ts n
  assume now: "0 \<le> now_ms" and items: "OS_items (SIM_buffer st) = map sim_sensor_reading ts"
    and ts: "list_all (\<lambda>t. 0 \<le> t \<and> t < 2 ^ 32) ts" and n: "n = int (length (SIM_buffered_outage_ts st))"
    and drain: "to_ms \<le> now_ms \<Longrightarrow> 200 * int (length ts) \<le> max 0 (200 * n + 199 - (now_ms - to_ms))"
    and cap: "OS_capacity (SIM_buffer st) = OB_CAPACITY" and acc: "accepted_in_order (SIM_packets st)"
    and len: "length (SIM_packets st) = SIM_seq st" and seq: "100 * int (SIM_seq st) \<le> now_ms"
    and rep: "replayed (SIM_packets st) @ map Some ts = map Some (SIM_buffered_outage_ts st)"
    and le: "int (length ts) \<le> n"
    and has: "SIM_has_offline_sample st \<Longrightarrow> SIM_last_offline_sample_ms st \<le> now_ms \<and> SIM_last_offline_sample_ms st < to_ms \<and> 1 \<le> n \<and>
      from_ms + 1000 * (n - 1) \<le> SIM_last_offline_sample_ms st"
    and hasnt: "\<not> SIM_has_offline_sample st \<Longrightarrow> n = 0"
  have small: "SIM_seq st + 1 < 2 ^ 32" using seq assms(3) now by simp
  have early: "ts = []" if "now_ms < from_ms"
    using has hasnt le that by (cases "SIM_has_offline_sample st") auto
  have has': "SIM_has_offline_sample st \<Longrightarrow> SIM_last_offline_sample_ms st \<le> now_ms + 200 \<and>
      SIM_last_offline_sample_ms st < to_ms \<and> 1 \<le> n \<and>
      from_ms + 1000 * (n - 1) \<le> SIM_last_offline_sample_ms st" using has by linarith
  show ?thesis
  proof (cases ts)
    case Nil
    note e = emit_kept [OF acc len now assms(3), of now_ms "''live''"]
    have "loop_inv from_ms to_ms (now_ms + 200) (st\<lparr>SIM_seq := SIM_seq st + 1,
        SIM_packets := SIM_packets st @ [sim_packet now_ms ''live'' now_ms (SIM_seq st)]\<rparr>)"
      by (rule loop_invI [of _ _ ts n]) (use items ts n cap e small len seq rep has' hasnt now Nil in simp_all)
    then show ?thesis using up_empty [of st now_ms] items Nil by simp
  next
    case (Cons t us)
    have late: "to_ms \<le> now_ms" using early assms(4) Cons by auto
    have t: "0 \<le> t" "t < 2 ^ 32" using ts Cons by simp_all
    let ?p1 = "SIM_packets st @ [sim_packet now_ms ''replay'' t (SIM_seq st)]"
    note e1 = emit_kept [OF acc len t, of now_ms "''replay''"]
    have e1': "accepted_in_order ?p1" "length ?p1 = SIM_seq st + 1" using e1(1) small len by simp_all
    note e2 = emit_kept [OF e1' now assms(3) small, of now_ms "''live''"]
    have "loop_inv from_ms to_ms (now_ms + 200) (st\<lparr>SIM_buffer := (SIM_buffer st)\<lparr>OS_items := map sim_sensor_reading us\<rparr>,
        SIM_seq := SIM_seq st + 2, SIM_packets := ?p1 @ [sim_packet now_ms ''live'' now_ms (SIM_seq st + 1)]\<rparr>)"
    proof (rule loop_invI [of _ _ us n])
      have rp: "replayed (?p1 @ [sim_packet now_ms ''live'' now_ms (SIM_seq st + 1)]) =
          replayed (SIM_packets st) @ [Some t]"
        using e1(2) e2(2) small by simp
      show "replayed (SIM_packets (st\<lparr>SIM_buffer := (SIM_buffer st)\<lparr>OS_items := map sim_sensor_reading us\<rparr>,
          SIM_seq := SIM_seq st + 2, SIM_packets := ?p1 @ [sim_packet now_ms ''live'' now_ms (SIM_seq st + 1)]\<rparr>))
        @ map Some us = map Some (SIM_buffered_outage_ts (st\<lparr>SIM_buffer := (SIM_buffer st)\<lparr>OS_items := map sim_sensor_reading us\<rparr>,
          SIM_seq := SIM_seq st + 2, SIM_packets := ?p1 @ [sim_packet now_ms ''live'' now_ms (SIM_seq st + 1)]\<rparr>))"
        using rp rep Cons by (simp del: replayed_append)
      show "200 * int (length us) \<le> max 0 (200 * n + 199 - (now_ms + 200 - to_ms))"
        using drain [OF late] Cons by simp
    qed (use ts n cap e2(1) len seq has' hasnt now Cons in simp_all)
    then show ?thesis using up_waiting [of st t "map sim_sensor_reading us" now_ms] items Cons by simp
  qed
qed

lemma down_round_kept:
  assumes "loop_inv from_ms to_ms now_ms st" "now_ms < 2 ^ 32"
    and "from_ms \<le> now_ms" "now_ms < to_ms" "to_ms \<le> from_ms + 75000"
  shows "\<exists>st'. sim_tick True now_ms (sim_sensor_reading now_ms) st = Some st' \<and>
    loop_inv from_ms to_ms (now_ms + 200) st'"
proof (rule loop_invE [OF assms(1)])
  fix ts n
  assume now: "0 \<le> now_ms" and items: "OS_items (SIM_buffer st) = map sim_sensor_reading ts"
    and ts: "list_all (\<lambda>t. 0 \<le> t \<and> t < 2 ^ 32) ts" and n: "n = int (length (SIM_buffered_outage_ts st))"
    and cap: "OS_capacity (SIM_buffer st) = OB_CAPACITY" and acc: "accepted_in_order (SIM_packets st)"
    and len: "length (SIM_packets st) = SIM_seq st" and seq: "100 * int (SIM_seq st) \<le> now_ms"
    and rep: "replayed (SIM_packets st) @ map Some ts = map Some (SIM_buffered_outage_ts st)"
    and le: "int (length ts) \<le> n"
    and has: "SIM_has_offline_sample st \<Longrightarrow> SIM_last_offline_sample_ms st \<le> now_ms \<and> SIM_last_offline_sample_ms st < to_ms \<and> 1 \<le> n \<and>
      from_ms + 1000 * (n - 1) \<le> SIM_last_offline_sample_ms st"
    and hasnt: "\<not> SIM_has_offline_sample st \<Longrightarrow> n = 0"
  show ?thesis
  proof (cases "SIM_has_offline_sample st \<and> now_ms - SIM_last_offline_sample_ms st < 1000")
    case True
    have "loop_inv from_ms to_ms (now_ms + 200) st"
      by (rule loop_invI [of _ _ ts n]) (use items ts n cap acc len seq rep le has hasnt now assms(4) in \<open>simp_all add: max_def\<close>)
    then show ?thesis using True down_round [of now_ms st] by simp
  next
    case False
    have room: "from_ms + 1000 * n \<le> now_ms"
      using False has hasnt assms(3) by (cases "SIM_has_offline_sample st") auto
    then have "length ts < OB_CAPACITY" using le assms(4,5) by (simp add: OB_CAPACITY_def)
    then have push: "sim_push (sim_sensor_reading now_ms) (SIM_buffer st) =
        (SIM_buffer st)\<lparr>OS_items := map sim_sensor_reading (ts @ [now_ms])\<rparr>"
      using items cap by (simp add: sim_push_def)
    have "loop_inv from_ms to_ms (now_ms + 200) (st\<lparr>SIM_last_offline_sample_ms := now_ms,
        SIM_has_offline_sample := True, SIM_buffer := sim_push (sim_sensor_reading now_ms) (SIM_buffer st),
        SIM_buffered_outage_ts := SIM_buffered_outage_ts st @ [now_ms]\<rparr>)"
      unfolding push
      by (rule loop_invI [of _ _ "ts @ [now_ms]" "n + 1"])
        (use items ts n cap acc len seq rep le now assms(2,4) room in \<open>simp_all add: max_def\<close>)
    then show ?thesis using False by (intro exI conjI) (auto simp: down_round)
  qed
qed

section \<open>The loop\<close>

lemma sim_loop_kept:
  assumes "loop_inv from_ms to_ms now_ms st" "from_ms \<le> to_ms" "to_ms \<le> from_ms + 75000"
    and "total_ms < 2 ^ 32"
  shows "\<exists>st' end_ms. sim_loop from_ms to_ms total_ms now_ms st = Some st' \<and> total_ms \<le> end_ms \<and>
    loop_inv from_ms to_ms end_ms st'"
  using assms
proof (induction from_ms to_ms total_ms now_ms st rule: sim_loop.induct)
  case (1 from_ms to_ms total_ms now_ms st)
  show ?case
  proof (cases "total_ms \<le> now_ms")
    case True
    with 1(2) show ?thesis by (subst sim_loop.simps) auto
  next
    case False
    let ?down = "from_ms \<le> now_ms \<and> now_ms < to_ms"
    obtain st1 where st1: "sim_tick ?down now_ms (sim_sensor_reading now_ms) st = Some st1"
      "loop_inv from_ms to_ms (now_ms + 200) st1"
    proof (cases ?down)
      case True
      then show ?thesis
        using down_round_kept [OF 1(2) _ _ _ 1(4)] False 1(5) that by fastforce
    next
      case up: False
      then have "now_ms < from_ms \<or> to_ms \<le> now_ms" by linarith
      then show ?thesis
        using up_round_kept [OF 1(2,3)] False 1(5) up that by fastforce
    qed
    have "now_ms + uint LORA_TX_PERIOD_MS = now_ms + 200" by (simp add: LORA_TX_PERIOD_MS_def)
    then show ?thesis
      using 1(1) [OF False, of st1] st1 1(3-5) False by (subst sim_loop.simps) simp
  qed
qed

text \<open>In an outage of half a second one sample is taken, and the default time after it is zero.\<close>

lemma short_outage_not_drained:
  "map_option (\<lambda>st. (length (SIM_buffered_outage_ts st), replayed (SIM_packets st)))
     (run_outage_simulation 1000 500 None) = Some (1, [])"
  by code_simp

section \<open>Property\<close>

text \<open>
  C16: the outage simulation behaves, for every duration of the outage that the buffer can hold, as
  the end-to-end test checks for sixty seconds: it ends; the ground station accepts the line of every
  packet, with the sequence numbers 0, 1, 2, ... in order; the samples taken during the outage are at
  most 75, and they are exactly the replayed ones followed by those still waiting, in the order they
  were taken; and none is waiting if the time after the outage has a period for each second of it.
\<close>

theorem outage_simulation_complete:
  assumes "0 \<le> outage_ms" "outage_ms \<le> 75000"
    and "pre_live_ms + outage_ms + sim_post_live_ms outage_ms post_live_ms < 2 ^ 32"
  shows "\<exists>st. run_outage_simulation pre_live_ms outage_ms post_live_ms = Some st \<and>
    accepted_in_order (SIM_packets st) \<and>
    replayed (SIM_packets st) @ waiting st = map Some (SIM_buffered_outage_ts st) \<and>
    length (SIM_buffered_outage_ts st) \<le> 75 \<and>
    (200 * ((outage_ms + 999) div 1000) \<le> sim_post_live_ms outage_ms post_live_ms \<longrightarrow> waiting st = [])"
proof -
  let ?to = "pre_live_ms + outage_ms" and ?post = "sim_post_live_ms outage_ms post_live_ms"
  obtain st end_ms where run: "run_outage_simulation pre_live_ms outage_ms post_live_ms = Some st"
    and over: "?to + ?post \<le> end_ms" and inv: "loop_inv pre_live_ms ?to end_ms st"
    using sim_loop_kept [OF loop_inv_start _ _ assms(3), of pre_live_ms ?to] assms(1,2)
    by (auto simp: run_outage_simulation_def)
  show ?thesis
  proof (rule loop_invE [OF inv])
    fix ts n
    assume items: "OS_items (SIM_buffer st) = map sim_sensor_reading ts"
      and acc: "accepted_in_order (SIM_packets st)" and n: "n = int (length (SIM_buffered_outage_ts st))"
      and drain: "?to \<le> end_ms \<Longrightarrow> 200 * int (length ts) \<le> max 0 (200 * n + 199 - (end_ms - ?to))"
      and rep: "replayed (SIM_packets st) @ map Some ts = map Some (SIM_buffered_outage_ts st)"
      and has: "SIM_has_offline_sample st \<Longrightarrow> SIM_last_offline_sample_ms st \<le> end_ms \<and>
        SIM_last_offline_sample_ms st < ?to \<and> 1 \<le> n \<and>
        pre_live_ms + 1000 * (n - 1) \<le> SIM_last_offline_sample_ms st"
      and hasnt: "\<not> SIM_has_offline_sample st \<Longrightarrow> n = 0"
    have few: "1000 * n \<le> outage_ms + 999"
      using has hasnt assms(1) by (cases "SIM_has_offline_sample st") auto
    then have per_second: "n \<le> (outage_ms + 999) div 1000" by linarith
    have "ts = []" if "200 * ((outage_ms + 999) div 1000) \<le> ?post"
    proof -
      have "200 * n \<le> ?post" using that per_second by linarith
      moreover from this have "?to \<le> end_ms" using over n by simp
      ultimately have "200 * int (length ts) < 200" using drain over by linarith
      then show ?thesis by simp
    qed
    moreover have "waiting st = map Some ts" by (simp add: waiting_def items)
    moreover have "length (SIM_buffered_outage_ts st) \<le> 75" using few assms(2) n by linarith
    ultimately show ?thesis using run acc rep by auto
  qed
qed

lemma outage_simulation_complete_witness:
  "\<exists>st. run_outage_simulation 1000 60000 None = Some st \<and> accepted_in_order (SIM_packets st) \<and>
    replayed (SIM_packets st) = map Some (SIM_buffered_outage_ts st)"
  using outage_simulation_complete [of 60000 1000 None]
  by (auto simp: sim_post_live_ms_def OFFLINE_SAMPLE_PERIOD_MS_def REPLAY_BURST_PER_TICK_def
      LORA_TX_PERIOD_MS_def)

end
